(* ===== verification/Prelude.thy ===== *)
theory Prelude
  imports Main "HOL-Library.AList"
begin

text \<open>
  What every component shares: insertion-ordered dictionaries, outcomes of code that may
  raise, and the theorem collections the component proofs draw on.

  A Python \<open>dict\<close> keeps insertion order, replaces the value of a present key in
  place, and appends an absent key. \<open>AList.update\<close> and \<open>AList.delete\<close> on association
  lists behave in exactly that way, so a dictionary is an association list with distinct
  keys.
\<close>

named_theorems dict_simps \<open>rewriting of dictionary operations\<close>
named_theorems frame \<open>what an operation leaves unchanged\<close>
named_theorems keeps \<open>an operation preserves an invariant\<close>

section \<open>Dictionaries\<close>

type_synonym ('k, 'v) dict = "('k \<times> 'v) list"

abbreviation dict_get :: "('k, 'v) dict \<Rightarrow> 'k \<Rightarrow> 'v option" where
  "dict_get d k \<equiv> map_of d k"

abbreviation dict_set :: "'k \<Rightarrow> 'v \<Rightarrow> ('k, 'v) dict \<Rightarrow> ('k, 'v) dict" where
  "dict_set k v d \<equiv> AList.update k v d"

abbreviation dict_del :: "'k \<Rightarrow> ('k, 'v) dict \<Rightarrow> ('k, 'v) dict" where
  "dict_del k d \<equiv> AList.delete k d"

abbreviation dict_keys :: "('k, 'v) dict \<Rightarrow> 'k list" where
  "dict_keys d \<equiv> map fst d"

abbreviation dict_values :: "('k, 'v) dict \<Rightarrow> 'v list" where
  "dict_values d \<equiv> map snd d"

abbreviation dict_ok :: "('k, 'v) dict \<Rightarrow> bool" where
  "dict_ok d \<equiv> distinct (map fst d)"

lemma dict_get_set [dict_simps]:
  "dict_get (dict_set k v d) k' = (if k' = k then Some v else dict_get d k')"
  by (simp add: update_conv')

lemma dict_get_del [dict_simps]:
  "dict_get (dict_del k d) k' = (if k' = k then None else dict_get d k')"
  by (simp add: delete_conv')

lemma dict_ok_set [keeps, simp]: "dict_ok d \<Longrightarrow> dict_ok (dict_set k v d)"
  by (rule distinct_update)

lemma dict_ok_del [keeps, simp]: "dict_ok d \<Longrightarrow> dict_ok (dict_del k d)"
  by (rule distinct_delete)

lemma dict_keys_set [dict_simps]:
  "dict_keys (dict_set k v d) = (if k \<in> set (dict_keys d) then dict_keys d else dict_keys d @ [k])"
  by (induction d) auto

lemma dict_set_fresh [dict_simps]: "k \<notin> set (dict_keys d) \<Longrightarrow> dict_set k v d = d @ [(k, v)]"
  by (induction d) auto

lemma dict_get_None_iff: "dict_get d k = None \<longleftrightarrow> k \<notin> set (dict_keys d)"
  by (simp add: map_of_eq_None_iff)

lemma dict_get_mem: "dict_get d k = Some v \<Longrightarrow> (k, v) \<in> set d"
  by (rule map_of_SomeD)

lemma dict_set_mem:
  "dict_ok d \<Longrightarrow> (k', v') \<in> set (dict_set k v d) \<longleftrightarrow>
     (if k' = k then v' = v else (k', v') \<in> set d)"
  by (metis dict_get_set dict_ok_set map_of_eq_Some_iff option.inject)

lemma dict_set_get: "dict_ok d \<Longrightarrow> dict_get d k = Some v \<Longrightarrow> dict_set k v d = d"
  by (induction d) (auto simp: update_triv)

lemma dict_del_subset: "set (dict_del k d) \<subseteq> set d"
  by (auto simp: AList.delete_eq)

section \<open>Dictionaries whose entries all satisfy a predicate\<close>

definition dict_all :: "('k \<Rightarrow> 'v \<Rightarrow> bool) \<Rightarrow> ('k, 'v) dict \<Rightarrow> bool" where
  "dict_all P d \<longleftrightarrow> dict_ok d \<and> (\<forall>(k, v) \<in> set d. P k v)"

lemma dict_all_Nil [simp]: "dict_all P []"
  by (simp add: dict_all_def)

lemma dict_all_get: "dict_all P d \<Longrightarrow> dict_get d k = Some v \<Longrightarrow> P k v"
  by (auto simp: dict_all_def dest: dict_get_mem)

lemma dict_all_set [keeps]: "dict_all P d \<Longrightarrow> P k v \<Longrightarrow> dict_all P (dict_set k v d)"
  by (auto simp: dict_all_def dict_set_mem split: if_splits)

lemma dict_all_del [keeps]: "dict_all P d \<Longrightarrow> dict_all P (dict_del k d)"
  using dict_del_subset by (fastforce simp: dict_all_def)

lemma dict_all_filter [keeps]: "dict_all P d \<Longrightarrow> dict_all P (filter Q d)"
  by (auto simp: dict_all_def distinct_map_filter)

lemma dict_all_mono: "dict_all P d \<Longrightarrow> (\<And>k v. P k v \<Longrightarrow> Q k v) \<Longrightarrow> dict_all Q d"
  by (auto simp: dict_all_def)

section \<open>Lists\<close>

lemma find_filter_hd: "find P xs = (case filter P xs of [] \<Rightarrow> None | y # _ \<Rightarrow> Some y)"
  by (induction xs) auto

lemma find_Some_mem: "find P xs = Some x \<Longrightarrow> x \<in> set xs \<and> P x"
  by (auto simp: find_Some_iff)

lemma sort_key_sorted_id: "sorted (map f xs) \<Longrightarrow> sort_key f xs = xs"
  by (simp add: sorted_sort_id sort_key_id_if_sorted)

end
