(* ===== verification/PyFloat.thy ===== *)
theory PyFloat
  imports Prelude "HOL-Library.Log_Nat"
begin

text \<open>
  Python's \<open>float\<close>: a finite IEEE double is the rational number it denotes, and an
  arithmetic operation is the exact operation followed by rounding to the nearest double,
  ties to even. \<open>fl\<close> is that rounding (53 significant bits, least exponent -1074);
  overflow to infinity cannot occur for the magnitudes this program computes with (clock
  readings and sensor values) and is not modelled. Truncation \<open>int(x)\<close> and
  \<open>round(x)\<close>, \<open>round(x, 1)\<close> follow the language reference.
\<close>

section \<open>Rounding to integers\<close>

definition round_he :: "rat \<Rightarrow> int" where
  "round_he x = (let f = \<lfloor>x\<rfloor>; r = x - of_int f in
     if r < 1 / 2 then f else if r > 1 / 2 then f + 1 else if even f then f else f + 1)"

definition trunc :: "rat \<Rightarrow> int" where
  "trunc x = (if x < 0 then - \<lfloor>- x\<rfloor> else \<lfloor>x\<rfloor>)"

lemma round_he_cases: "round_he x = \<lfloor>x\<rfloor> \<or> round_he x = \<lfloor>x\<rfloor> + 1"
  by (simp add: round_he_def Let_def)

lemma round_he_of_int [simp]: "round_he (of_int n) = n"
  by (simp add: round_he_def)

lemma round_he_mono:
  assumes "x \<le> y"
  shows "round_he x \<le> round_he y"
proof (cases "\<lfloor>x\<rfloor> = \<lfloor>y\<rfloor>")
  case True
  with assms show ?thesis by (simp add: round_he_def Let_def)
next
  case False
  with floor_mono [OF assms] have "\<lfloor>x\<rfloor> + 1 \<le> \<lfloor>y\<rfloor>" by simp
  then show ?thesis using round_he_cases [of x] round_he_cases [of y] by linarith
qed

lemma round_he_ge: "of_int n \<le> x \<Longrightarrow> n \<le> round_he x"
  using round_he_mono [of "of_int n" x] by simp

lemma round_he_le: "x \<le> of_int n \<Longrightarrow> round_he x \<le> n"
  using round_he_mono [of x "of_int n"] by simp

lemma round_he_minus: "round_he (- x) = - round_he x"
proof (cases "x = of_int \<lfloor>x\<rfloor>")
  case True
  then show ?thesis by (metis of_int_minus round_he_of_int)
next
  case False
  then have ceil: "\<lfloor>- x\<rfloor> = - \<lfloor>x\<rfloor> - 1"
    by (metis floor_minus ceiling_altdef minus_add_distrib uminus_add_conv_diff add.commute)
  then show ?thesis
    by (auto simp: round_he_def Let_def)
qed

lemma trunc_of_int [simp]: "trunc (of_int n) = n"
  by (simp add: trunc_def flip: of_int_minus)

lemma trunc_mono:
  assumes "x \<le> y"
  shows "trunc x \<le> trunc y"
proof -
  have "- \<lfloor>- x\<rfloor> \<le> - \<lfloor>- y\<rfloor>" using assms by (simp add: floor_mono)
  moreover have "\<lfloor>x\<rfloor> \<le> \<lfloor>y\<rfloor>" using assms by (rule floor_mono)
  moreover have "- \<lfloor>- x\<rfloor> \<le> 0" if "x < 0" using that by (simp add: zero_le_floor)
  moreover have "0 \<le> \<lfloor>y\<rfloor>" if "\<not> y < 0" using that by simp
  ultimately show ?thesis using assms
    by (cases "x < 0"; cases "y < 0")
       (simp_all add: trunc_def order_trans [of "- \<lfloor>- x\<rfloor>" 0 "\<lfloor>y\<rfloor>"])
qed

lemma trunc_bounds: "of_int a \<le> x \<Longrightarrow> x \<le> of_int b \<Longrightarrow> a \<le> trunc x \<and> trunc x \<le> b"
  using trunc_mono [of "of_int a" x] trunc_mono [of x "of_int b"] by simp

section \<open>Rounding to doubles\<close>

definition pow2 :: "int \<Rightarrow> rat" where
  "pow2 k = (if 0 \<le> k then 2 ^ nat k else 1 / 2 ^ nat (- k))"

definition bexp :: "rat \<Rightarrow> int" where
  \<comment> \<open>the exponent of the leading binary digit of a positive rational\<close>
  "bexp x = (let (n, d) = quotient_of x;
                 k = int (floorlog 2 (nat n)) - int (floorlog 2 (nat d))
             in if pow2 k \<le> x then k else k - 1)"

definition ulp_exp :: "rat \<Rightarrow> int" where
  "ulp_exp x = max (bexp x - 52) (- 1074)"

definition fl_pos :: "rat \<Rightarrow> rat" where
  "fl_pos x = (let e = ulp_exp x in of_int (round_he (x / pow2 e)) * pow2 e)"

definition fl :: "rat \<Rightarrow> rat" where
  "fl x = (if x = 0 then 0 else if 0 < x then fl_pos x else - fl_pos (- x))"

lemma pow2_pos [simp]: "0 < pow2 k"
  by (simp add: pow2_def)

lemma pow2_neq_0 [simp]: "pow2 k \<noteq> 0"
  using pow2_pos [of k] by linarith

lemma pow2_nat: "0 \<le> k \<Longrightarrow> pow2 k = of_int (2 ^ nat k)"
  by (simp add: pow2_def)

lemma pow2_diff_nat: "pow2 (int a - int b) = 2 ^ a / 2 ^ b"
proof (cases "b \<le> a")
  case True
  then show ?thesis by (simp add: pow2_def power_diff nat_diff_distrib flip: of_nat_diff)
next
  case False
  then have "pow2 (int a - int b) = 1 / 2 ^ (b - a)"
    by (simp add: pow2_def nat_diff_distrib flip: of_nat_diff)
  also have "\<dots> = 2 ^ a / 2 ^ b"
    using False by (simp add: power_diff field_simps)
  finally show ?thesis .
qed

lemma pow2_add: "pow2 (a + b) = pow2 a * pow2 b"
proof -
  obtain p q where a: "a = int p - int q" using int_diff_cases by blast
  obtain r s where b: "b = int r - int s" using int_diff_cases by blast
  have "a + b = int (p + r) - int (q + s)" using a b by simp
  then have "pow2 (a + b) = 2 ^ (p + r) / 2 ^ (q + s)" by (simp only: pow2_diff_nat)
  then show ?thesis by (simp add: a b pow2_diff_nat power_add)
qed

lemma pow2_minus: "pow2 (- a) = 1 / pow2 a"
  by (simp add: pow2_def)

lemma pow2_diff: "pow2 (a - b) = pow2 a / pow2 b"
  using pow2_add [of a "- b"] by (simp add: pow2_minus)

lemma pow2_mono: "a \<le> b \<Longrightarrow> pow2 a \<le> pow2 b"
proof -
  assume "a \<le> b"
  then have "1 \<le> pow2 (b - a)" by (simp add: pow2_def)
  then have "pow2 a * 1 \<le> pow2 a * pow2 (b - a)" by (intro mult_left_mono) (simp_all add: less_imp_le)
  then show "pow2 a \<le> pow2 b" by (simp flip: pow2_add)
qed

text \<open>\<open>bexp\<close> finds the binade: \<open>2 ^ bexp x \<le> x < 2 ^ (bexp x + 1)\<close>.\<close>

lemma floorlog_nat_bounds:
  assumes "0 < n"
  shows "2 ^ (floorlog 2 n - 1) \<le> n \<and> n < 2 ^ floorlog 2 n \<and> 0 < floorlog 2 n"
  using floorlog_bounds [of n 2] assms by (simp add: floorlog_def)

lemma bexp_bounds:
  assumes "0 < x"
  shows "pow2 (bexp x) \<le> x \<and> x < pow2 (bexp x + 1)"
proof -
  obtain n d where q: "quotient_of x = (n, d)" by (cases "quotient_of x")
  have d: "0 < d" using q by (rule quotient_of_denom_pos)
  have x: "x = of_int n / of_int d" using q by (rule quotient_of_div)
  with assms d have n: "0 < n" by (simp add: zero_less_divide_iff)
  define N D where "N = nat n" and "D = nat d"
  have x': "x = of_nat N / of_nat D" and pos: "0 < N" "0 < D"
    using n d x by (simp_all add: N_def D_def)
  define a b where "a = floorlog 2 N" and "b = floorlog 2 D"
  have N: "2 ^ (a - 1) \<le> N" "N < 2 ^ a" "0 < a" and D: "2 ^ (b - 1) \<le> D" "D < 2 ^ b" "0 < b"
    using floorlog_nat_bounds pos by (simp_all add: a_def b_def)
  have k: "bexp x = (if pow2 (int a - int b) \<le> x then int a - int b else int a - int b - 1)"
    by (simp add: bexp_def q a_def b_def N_def D_def Let_def)
  have up: "x < pow2 (int a - int b + 1)"
  proof -
    have N': "(of_nat N :: rat) < 2 ^ a" using N(2) by (metis of_nat_less_iff of_nat_numeral of_nat_power)
    have D': "(2 ^ (b - 1) :: rat) \<le> of_nat D" using D(1) by (metis of_nat_le_iff of_nat_numeral of_nat_power)
    have "x < 2 ^ a / 2 ^ (b - 1)"
      unfolding x' using N' D' pos by (intro frac_less) simp_all
    also have "\<dots> = pow2 (int a - int (b - 1))" by (simp only: pow2_diff_nat)
    finally show ?thesis using D(3) by (simp add: of_nat_diff algebra_simps)
  qed
  have low: "pow2 (int a - int b - 1) \<le> x"
  proof -
    have N': "(2 ^ (a - 1) :: rat) \<le> of_nat N" using N(1) by (metis of_nat_le_iff of_nat_numeral of_nat_power)
    have D': "(of_nat D :: rat) < 2 ^ b" using D(2) by (metis of_nat_less_iff of_nat_numeral of_nat_power)
    have "2 ^ (a - 1) / 2 ^ b \<le> x"
      unfolding x' using N' D' pos by (intro frac_le) simp_all
    moreover have "2 ^ (a - 1) / 2 ^ b = pow2 (int (a - 1) - int b)" by (simp only: pow2_diff_nat)
    ultimately show ?thesis using N(3) by (simp add: of_nat_diff algebra_simps)
  qed
  show ?thesis using up low by (simp add: k)
qed

text \<open>Rounding is monotone and fixes the doubles; so it never leaves an interval with
  representable ends.\<close>

lemma pow2_less_mono: "pow2 a < pow2 b \<Longrightarrow> a < b"
  using pow2_mono [of b a] by (simp add: not_less [symmetric]) (metis not_le)

lemma bexp_less: "0 < x \<Longrightarrow> x < pow2 k \<Longrightarrow> bexp x < k"
  using bexp_bounds [of x] by (intro pow2_less_mono) linarith

lemma bexp_mono:
  assumes "0 < x" "x \<le> y"
  shows "bexp x \<le> bexp y"
proof -
  have "x < pow2 (bexp y + 1)" using assms bexp_bounds [of y] by simp
  then have "bexp x < bexp y + 1" using assms(1) by (intro bexp_less)
  then show ?thesis by simp
qed

lemma fl_pos_le_pow2:
  assumes "0 < x" "x < pow2 k" "- 1074 \<le> k"
  shows "fl_pos x \<le> pow2 k"
proof -
  have "bexp x < k" using assms(1,2) by (rule bexp_less)
  then have e: "ulp_exp x \<le> k" using assms(3) by (simp add: ulp_exp_def)
  have "x / pow2 (ulp_exp x) \<le> pow2 (k - ulp_exp x)"
    using assms(2) by (simp add: pow2_diff divide_right_mono less_imp_le)
  also have "\<dots> = of_int (2 ^ nat (k - ulp_exp x))" using e by (simp add: pow2_nat)
  finally have "round_he (x / pow2 (ulp_exp x)) \<le> 2 ^ nat (k - ulp_exp x)"
    by (rule round_he_le)
  then have "of_int (round_he (x / pow2 (ulp_exp x))) \<le> (of_int (2 ^ nat (k - ulp_exp x)) :: rat)"
    by (simp only: of_int_le_iff)
  also have "\<dots> = pow2 (k - ulp_exp x)" using e by (simp add: pow2_nat)
  finally have "of_int (round_he (x / pow2 (ulp_exp x))) * pow2 (ulp_exp x)
      \<le> pow2 (k - ulp_exp x) * pow2 (ulp_exp x)"
    by (simp add: mult_right_mono less_imp_le)
  also have "\<dots> = pow2 k" by (simp flip: pow2_add)
  finally show ?thesis by (simp add: fl_pos_def Let_def)
qed

lemma fl_pos_ge_binade:
  assumes "0 < x" "- 1074 \<le> bexp x - 52"
  shows "pow2 (bexp x) \<le> fl_pos x"
proof -
  have e: "ulp_exp x = bexp x - 52" using assms(2) by (simp add: ulp_exp_def)
  have "of_int (2 ^ 52) = pow2 (bexp x - ulp_exp x)" by (simp add: e pow2_def)
  also have "\<dots> \<le> x / pow2 (ulp_exp x)"
    using bexp_bounds [OF assms(1)] by (simp add: pow2_diff divide_right_mono less_imp_le)
  finally have "2 ^ 52 \<le> round_he (x / pow2 (ulp_exp x))" by (rule round_he_ge)
  then have "(of_int (2 ^ 52) :: rat) \<le> of_int (round_he (x / pow2 (ulp_exp x)))"
    by (simp only: of_int_le_iff)
  then have "of_int (2 ^ 52) * pow2 (ulp_exp x) \<le> fl_pos x"
    by (simp add: fl_pos_def Let_def mult_right_mono less_imp_le)
  moreover have "of_int (2 ^ 52) * pow2 (ulp_exp x) = pow2 (bexp x)"
    using pow2_add [of 52 "ulp_exp x"] by (simp add: e pow2_def)
  ultimately show ?thesis by simp
qed

lemma fl_pos_mono:
  assumes "0 < x" "x \<le> y"
  shows "fl_pos x \<le> fl_pos y"
proof (cases "ulp_exp x = ulp_exp y")
  case True
  have "round_he (x / pow2 (ulp_exp y)) \<le> round_he (y / pow2 (ulp_exp y))"
    using assms by (intro round_he_mono divide_right_mono) (simp_all add: less_imp_le)
  then show ?thesis by (simp add: fl_pos_def True Let_def mult_right_mono less_imp_le)
next
  case False
  with bexp_mono [OF assms] have b: "bexp x < bexp y" "- 1074 \<le> bexp y - 52"
    by (auto simp: ulp_exp_def max_def split: if_splits)
  have "x < pow2 (bexp x + 1)" using bexp_bounds [OF assms(1)] by simp
  also have "\<dots> \<le> pow2 (bexp y)" using b(1) by (intro pow2_mono) simp
  finally have "fl_pos x \<le> pow2 (bexp y)" using b assms(1) by (intro fl_pos_le_pow2) simp_all
  also have "\<dots> \<le> fl_pos y" using assms b(2) by (intro fl_pos_ge_binade) simp_all
  finally show ?thesis .
qed

lemma fl_pos_nonneg: "0 < x \<Longrightarrow> 0 \<le> fl_pos x"
  by (simp add: fl_pos_def Let_def round_he_ge less_imp_le)

lemma fl_mono:
  assumes "x \<le> y"
  shows "fl x \<le> fl y"
proof -
  consider "0 < x" | "x = 0" | "x < 0" "y \<le> 0" | "x < 0" "0 < y" by linarith
  then show ?thesis
  proof cases
    case 1
    then show ?thesis using assms fl_pos_mono by (simp add: fl_def)
  next
    case 2
    then show ?thesis using assms fl_pos_nonneg [of y] by (simp add: fl_def)
  next
    case 3
    then show ?thesis using assms fl_pos_mono [of "- y" "- x"] fl_pos_nonneg [of "- x"]
      by (simp add: fl_def)
  next
    case 4
    then show ?thesis using fl_pos_nonneg [of "- x"] fl_pos_nonneg [of y] by (simp add: fl_def)
  qed
qed

lemma fl_pos_exact:
  assumes "0 < m" "m < 2 ^ 53" "- 1074 \<le> e"
  shows "fl_pos (of_int m * pow2 e) = of_int m * pow2 e"
proof -
  define x where "x = of_int m * pow2 e"
  have x: "0 < x" using assms(1) by (simp add: x_def)
  have "(of_int m :: rat) < of_int (2 ^ 53)" using assms(2) by (simp only: of_int_less_iff)
  then have "x < of_int (2 ^ 53) * pow2 e" by (simp add: x_def mult_strict_right_mono)
  also have "\<dots> = pow2 (53 + e)" by (simp add: pow2_add) (simp add: pow2_def)
  finally have "bexp x < 53 + e" using x by (intro bexp_less)
  then have u: "ulp_exp x \<le> e" using assms(3) by (simp add: ulp_exp_def)
  have "x / pow2 (ulp_exp x) = of_int m * pow2 (e - ulp_exp x)" by (simp add: x_def pow2_diff)
  also have "\<dots> = of_int (m * 2 ^ nat (e - ulp_exp x))" using u by (simp add: pow2_nat)
  finally have r: "x / pow2 (ulp_exp x) = of_int (m * 2 ^ nat (e - ulp_exp x))" .
  then have "of_int (round_he (x / pow2 (ulp_exp x))) = x / pow2 (ulp_exp x)"
    by (metis round_he_of_int)
  then show ?thesis by (simp add: fl_pos_def Let_def flip: x_def)
qed

lemma fl_int:
  assumes "\<bar>n\<bar> < 2 ^ 53"
  shows "fl (of_int n) = of_int n"
proof -
  have "fl_pos (of_int m) = of_int m" if "0 < m" "m < 2 ^ 53" for m
    using fl_pos_exact [OF that, of 0] by (simp add: pow2_def)
  from this [of n] this [of "- n"] assms show ?thesis by (auto simp: fl_def)
qed

lemma fl_between:
  assumes "of_int a \<le> x" "x \<le> of_int b" "\<bar>a\<bar> < 2 ^ 53" "\<bar>b\<bar> < 2 ^ 53"
  shows "of_int a \<le> fl x \<and> fl x \<le> of_int b"
  using fl_mono [OF assms(1)] fl_mono [OF assms(2)] fl_int assms(3,4) by simp

text \<open>The rounding error of a number below 1024 is at most \<open>2 ^ -44\<close>.\<close>

lemma round_he_error: "\<bar>of_int (round_he x) - x\<bar> \<le> 1 / 2"
proof -
  have "of_int \<lfloor>x\<rfloor> \<le> x" "x < of_int \<lfloor>x\<rfloor> + 1" by linarith+
  then show ?thesis by (auto simp: round_he_def Let_def abs_le_iff)
qed

lemma fl_pos_error:
  assumes "0 < x" "x < 1024"
  shows "\<bar>fl_pos x - x\<bar> \<le> 1 / 1000000"
proof -
  define u where "u = pow2 (ulp_exp x)"
  have u: "0 < u" by (simp add: u_def)
  have "bexp x < 10" using assms by (intro bexp_less) (simp_all add: pow2_def)
  then have "ulp_exp x \<le> - 43" by (simp add: ulp_exp_def)
  then have "u \<le> pow2 (- 43)" unfolding u_def by (rule pow2_mono)
  also have "pow2 (- 43) \<le> (1 / 1000000 :: rat)" by (simp add: pow2_def)
  finally have small: "u \<le> 1 / 1000000" .
  have "fl_pos x - x = (of_int (round_he (x / u)) - x / u) * u"
    using u by (simp add: fl_pos_def u_def Let_def left_diff_distrib)
  then have "\<bar>fl_pos x - x\<bar> = \<bar>of_int (round_he (x / u)) - x / u\<bar> * u"
    using u by (simp add: abs_mult)
  also have "\<dots> \<le> 1 / 2 * u" using round_he_error u by (intro mult_right_mono) simp_all
  finally show ?thesis using small u by simp
qed

lemma fl_error:
  assumes "\<bar>x\<bar> < 1024"
  shows "\<bar>fl x - x\<bar> \<le> 1 / 1000000"
proof -
  consider "0 < x" | "x = 0" | "x < 0" by linarith
  then show ?thesis
  proof cases
    case 1
    then show ?thesis using fl_pos_error [of x] assms by (simp add: fl_def)
  next
    case 2
    then show ?thesis by (simp add: fl_def)
  next
    case 3
    then have "fl x - x = - (fl_pos (- x) - (- x))" by (simp add: fl_def)
    then have "\<bar>fl x - x\<bar> = \<bar>fl_pos (- x) - (- x)\<bar>" by (simp only: abs_minus_cancel)
    then show ?thesis using fl_pos_error [of "- x"] 3 assms by simp
  qed
qed

lemma fl_nonneg: "0 \<le> x \<Longrightarrow> 0 \<le> fl x"
  using fl_mono [of 0 x] by (simp add: fl_def)

section \<open>Arithmetic\<close>

definition fadd :: "rat \<Rightarrow> rat \<Rightarrow> rat" where "fadd x y = fl (x + y)"
definition fsub :: "rat \<Rightarrow> rat \<Rightarrow> rat" where "fsub x y = fl (x - y)"
definition fmul :: "rat \<Rightarrow> rat \<Rightarrow> rat" where "fmul x y = fl (x * y)"
definition fdiv :: "rat \<Rightarrow> rat \<Rightarrow> rat" where "fdiv x y = fl (x / y)"

definition round1 :: "rat \<Rightarrow> rat" where
  \<comment> \<open>\<open>round(x, 1)\<close>: the double nearest to the correctly rounded decimal\<close>
  "round1 x = fl (of_int (round_he (x * 10)) / 10)"

lemma fadd_mono: "x \<le> x' \<Longrightarrow> y \<le> y' \<Longrightarrow> fadd x y \<le> fadd x' y'"
  by (simp add: fadd_def fl_mono)

definition float_limit :: int where
  \<comment> \<open>the least integer that rounds up out of the range of a double\<close>
  "float_limit = 2 ^ 1024 - 2 ^ 970"

definition float_of_int :: "int \<Rightarrow> rat option" where
  \<comment> \<open>\<open>float(i)\<close>; \<open>None\<close> is the \<open>OverflowError\<close>\<close>
  "float_of_int i = (if \<bar>i\<bar> < float_limit then Some (fl (of_int i)) else None)"

lemma round1_nonneg: "0 \<le> x \<Longrightarrow> 0 \<le> round1 x"
  using round_he_ge [of 0 "x * 10"] by (simp add: round1_def fl_nonneg)

lemma round1_between:
  assumes "of_int a \<le> x" "x \<le> of_int b" "\<bar>a\<bar> < 2 ^ 53" "\<bar>b\<bar> < 2 ^ 53"
  shows "of_int a \<le> round1 x \<and> round1 x \<le> of_int b"
proof -
  have "of_int (10 * a) \<le> x * 10" "x * 10 \<le> of_int (10 * b)" using assms(1,2) by simp_all
  then have "10 * a \<le> round_he (x * 10)" "round_he (x * 10) \<le> 10 * b"
    by (simp_all only: round_he_ge round_he_le)
  then have "of_int a \<le> (of_int (round_he (x * 10)) / 10 :: rat)"
    and "(of_int (round_he (x * 10)) / 10 :: rat) \<le> of_int b"
    by (simp_all add: le_divide_eq divide_le_eq del: of_int_mult)
  then show ?thesis using assms(3,4) unfolding round1_def by (rule fl_between)
qed

end
