(* ===== verification/Texts.thy ===== *)
theory Texts
  imports Main
begin

text \<open>
  The display texts of the program. A Python \<open>str\<close> that is shown to a person is the
  list of its code points (\<open>pytext\<close>), so that \<open>len\<close> and \<open>strip\<close> count what Python
  counts; identifiers, which the validators restrict to ASCII, are HOL strings. The
  English gloss beside a text is a reading aid only.
\<close>

type_synonym pytext = "nat list"

section \<open>Texts of adapters.py\<close>

definition m_ac_bad_mode :: pytext where
  \<comment> \<open>air-conditioner mode not supported\<close>
  "m_ac_bad_mode =
   [31354, 35843, 27169, 24335, 19981, 21463, 25903, 25345]"

definition m_ac_bad_temp :: pytext where
  \<comment> \<open>target temperature must be between 16 and 30\<close>
  "m_ac_bad_temp =
   [30446, 26631, 28201, 24230, 24517, 39035, 22312, 49, 54, 21040, 51, 48, 25668,
    27663, 24230, 20043, 38388]"

definition m_ac_bad_fan :: pytext where
  \<comment> \<open>fan speed not supported\<close>
  "m_ac_bad_fan =
   [31354, 35843, 39118, 36895, 19981, 21463, 25903, 25345]"

definition m_unknown_brand :: pytext where
  \<comment> \<open>unknown simulated brand\<close>
  "m_unknown_brand =
   [26410, 30693, 30340, 27169, 25311, 31354, 35843, 21697, 29260]"

section \<open>Texts of registry.py\<close>

definition t_living :: pytext where
  \<comment> \<open>living room\<close>
  "t_living =
   [23458, 21381]"

definition t_master :: pytext where
  \<comment> \<open>master bedroom\<close>
  "t_master =
   [20027, 21351]"

definition t_bedroom :: pytext where
  \<comment> \<open>second bedroom\<close>
  "t_bedroom =
   [27425, 21351]"

definition t_bathroom :: pytext where
  \<comment> \<open>bathroom\<close>
  "t_bathroom =
   [28020, 23460]"

definition t_entry :: pytext where
  \<comment> \<open>entry\<close>
  "t_entry =
   [20837, 25143]"

definition m_room_id_taken :: pytext where
  \<comment> \<open>room identifier exists\<close>
  "m_room_id_taken =
   [25151, 38388, 26631, 35782, 24050, 23384, 22312]"

definition m_room_name_taken :: pytext where
  \<comment> \<open>room name exists\<close>
  "m_room_name_taken =
   [25151, 38388, 21517, 31216, 24050, 23384, 22312]"

definition m_no_device :: pytext where
  \<comment> \<open>target device does not exist\<close>
  "m_no_device =
   [30446, 26631, 35774, 22791, 19981, 23384, 22312]"

definition m_bad_room :: pytext where
  \<comment> \<open>room missing or not selectable\<close>
  "m_bad_room =
   [30446, 26631, 25151, 38388, 19981, 23384, 22312, 25110, 19981, 21487, 28155,
    21152, 35774, 22791]"

definition m_no_driver :: pytext where
  \<comment> \<open>device type not registered\<close>
  "m_no_driver =
   [35774, 22791, 31867, 22411, 26410, 27880, 20876]"

definition m_bad_attest :: pytext where
  \<comment> \<open>driver returned no registrable device\<close>
  "m_bad_attest =
   [35774, 22791, 39537, 21160, 26410, 36820, 22238, 21487, 22312, 32447, 27880,
    20876, 30340, 35774, 22791]"

definition m_serial_taken :: pytext where
  \<comment> \<open>serial used by another declaration\<close>
  "m_serial_taken =
   [35774, 22791, 24207, 21015, 21495, 24050, 34987, 21478, 19968, 20221, 35774,
    22791, 22768, 26126, 21344, 29992]"

definition m_not_removable :: pytext where
  \<comment> \<open>built-in device cannot be removed\<close>
  "m_not_removable =
   [35813, 20869, 32622, 35774, 22791, 19981, 25903, 25345, 31227, 38500]"

definition m_offline :: pytext where
  \<comment> \<open>device is offline\<close>
  "m_offline =
   [30446, 26631, 35774, 22791, 24403, 21069, 31163, 32447]"

definition m_conflict :: pytext where
  \<comment> \<open>state version is newer, refresh\<close>
  "m_conflict =
   [35774, 22791, 29366, 24577, 29256, 26412, 24050, 26356, 26032, 65292, 35831,
    21047, 26032, 21518, 37325, 35797]"

definition m_timeout :: pytext where
  \<comment> \<open>device response exceeds 5 s\<close>
  "m_timeout =
   [35774, 22791, 21709, 24212, 36229, 36807, 53, 31186, 36229, 26102, 38480, 21046]"

definition m_injected :: pytext where
  \<comment> \<open>injected command failure\<close>
  "m_injected =
   [35774, 22791, 27169, 25311, 22120, 27880, 20837, 20102, 19968, 27425, 21629,
    20196, 25925, 38556]"

definition m_bad_scene :: pytext where
  \<comment> \<open>scene action not supported\<close>
  "m_bad_scene =
   [22330, 26223, 21160, 20316, 19981, 21463, 25903, 25345]"

definition m_low_battery :: pytext where
  \<comment> \<open>lock battery below 20 percent\<close>
  "m_low_battery =
   [38376, 38145, 30005, 37327, 20302, 20110, 50, 48, 37]"

definition m_no_env :: pytext where
  \<comment> \<open>no environment sensor\<close>
  "m_no_env =
   [29615, 22659, 20256, 24863, 22120, 19981, 23384, 22312]"

section \<open>Texts of drivers.py\<close>

definition m_no_commands :: pytext where
  \<comment> \<open>device takes no commands\<close>
  "m_no_commands =
   [35813, 35774, 22791, 19981, 25509, 21463, 25511, 21046, 21629, 20196]"

definition m_no_attest :: pytext where
  \<comment> \<open>type cannot be registered by QR code\<close>
  "m_no_attest =
   [35813, 35774, 22791, 31867, 22411, 26242, 19981, 25903, 25345, 20108, 32500,
    30721, 27880, 20876]"

definition t_lighting :: pytext where
  \<comment> \<open>lighting\<close>
  "t_lighting =
   [28783, 20809]"

definition t_icon_light :: pytext where
  \<comment> \<open>icon\<close>
  "t_icon_light =
   [9675]"

definition t_light_living :: pytext where
  \<comment> \<open>living-room lamp\<close>
  "t_light_living =
   [23458, 21381, 20027, 28783]"

definition t_light_master :: pytext where
  \<comment> \<open>master-bedroom lamp\<close>
  "t_light_master =
   [20027, 21351, 39030, 28783]"

definition t_light_bedroom :: pytext where
  \<comment> \<open>reading lamp\<close>
  "t_light_bedroom =
   [27425, 21351, 38405, 35835, 28783]"

definition m_light_decl :: pytext where
  \<comment> \<open>light must declare category and capabilities\<close>
  "m_light_decl =
   [28783, 20809, 35774, 22791, 24517, 39035, 22768, 26126, 32, 108, 105, 103, 104,
    116, 105, 110, 103, 32, 20998, 31867, 21450, 23436, 25972, 30340, 21463, 25903,
    25345, 33021, 21147]"

definition m_light_power :: pytext where
  \<comment> \<open>light power must be a bool\<close>
  "m_light_power =
   [28783, 20809, 30005, 28304, 21442, 25968, 24517, 39035, 20026, 24067, 23572,
    20540]"

definition m_light_brightness :: pytext where
  \<comment> \<open>brightness must be 0 to 100\<close>
  "m_light_brightness =
   [20142, 24230, 24517, 39035, 22312, 48, 21040, 49, 48, 48, 20043, 38388]"

definition m_light_auto :: pytext where
  \<comment> \<open>automation switch invalid\<close>
  "m_light_auto =
   [33258, 21160, 29031, 26126, 24320, 20851, 21442, 25968, 26080, 25928]"

definition m_light_threshold :: pytext where
  \<comment> \<open>threshold must be 10 to 500 lx\<close>
  "m_light_threshold =
   [29031, 24230, 38408, 20540, 24517, 39035, 22312, 49, 48, 21040, 53, 48, 48, 32,
    108, 120, 20043, 38388]"

definition m_light_delay :: pytext where
  \<comment> \<open>delay must be 5 to 600 s\<close>
  "m_light_delay =
   [26080, 20154, 24310, 26102, 24517, 39035, 22312, 53, 21040, 54, 48, 48, 31186,
    20043, 38388]"

definition m_light_action :: pytext where
  \<comment> \<open>light action not supported\<close>
  "m_light_action =
   [28783, 20809, 21160, 20316, 19981, 21463, 25903, 25345]"

definition t_environment :: pytext where
  \<comment> \<open>environment\<close>
  "t_environment =
   [29615, 22659]"

definition t_icon_env :: pytext where
  \<comment> \<open>icon\<close>
  "t_icon_env =
   [8776]"

definition t_env_living :: pytext where
  \<comment> \<open>living-room sensor\<close>
  "t_env_living =
   [23458, 21381, 29615, 22659, 20256, 24863, 22120]"

definition t_env_master :: pytext where
  \<comment> \<open>master-bedroom sensor\<close>
  "t_env_master =
   [20027, 21351, 29615, 22659, 20256, 24863, 22120]"

definition t_env_bedroom :: pytext where
  \<comment> \<open>second-bedroom sensor\<close>
  "t_env_bedroom =
   [27425, 21351, 29615, 22659, 20256, 24863, 22120]"

definition m_env_decl :: pytext where
  \<comment> \<open>sensor must declare category and capabilities\<close>
  "m_env_decl =
   [29615, 22659, 30417, 27979, 22120, 24517, 39035, 22768, 26126, 32, 101, 110,
    118, 105, 114, 111, 110, 109, 101, 110, 116, 32, 20998, 31867, 21450, 23436,
    25972, 30340, 21463, 25903, 25345, 19978, 25253, 33021, 21147]"

definition t_ac_living :: pytext where
  \<comment> \<open>living-room air conditioner\<close>
  "t_ac_living =
   [23458, 21381, 31354, 35843]"

definition t_ac_master :: pytext where
  \<comment> \<open>master-bedroom air conditioner\<close>
  "t_ac_master =
   [20027, 21351, 31354, 35843]"

definition t_ac_bedroom :: pytext where
  \<comment> \<open>second-bedroom air conditioner\<close>
  "t_ac_bedroom =
   [27425, 21351, 31354, 35843]"

definition m_ac_decl :: pytext where
  \<comment> \<open>air conditioner must declare category and capabilities\<close>
  "m_ac_decl =
   [31354, 35843, 24517, 39035, 22768, 26126, 32, 101, 110, 118, 105, 114, 111,
    110, 109, 101, 110, 116, 32, 20998, 31867, 21450, 23436, 25972, 30340, 21463,
    25903, 25345, 25511, 21046, 33021, 21147]"

definition m_ac_power :: pytext where
  \<comment> \<open>power must be a bool\<close>
  "m_ac_power =
   [31354, 35843, 30005, 28304, 21442, 25968, 24517, 39035, 20026, 24067, 23572,
    20540]"

definition m_ac_mode :: pytext where
  \<comment> \<open>mode parameter invalid\<close>
  "m_ac_mode =
   [31354, 35843, 27169, 24335, 21442, 25968, 26080, 25928]"

definition m_ac_temp :: pytext where
  \<comment> \<open>temperature must be an int\<close>
  "m_ac_temp =
   [30446, 26631, 28201, 24230, 24517, 39035, 20026, 25972, 25968]"

definition m_ac_fan :: pytext where
  \<comment> \<open>fan parameter invalid\<close>
  "m_ac_fan =
   [31354, 35843, 39118, 36895, 21442, 25968, 26080, 25928]"

definition m_ac_brand :: pytext where
  \<comment> \<open>brand not supported\<close>
  "m_ac_brand =
   [27169, 25311, 21697, 29260, 19981, 21463, 25903, 25345]"

definition m_ac_action :: pytext where
  \<comment> \<open>air-conditioner action not supported\<close>
  "m_ac_action =
   [31354, 35843, 21160, 20316, 19981, 21463, 25903, 25345]"

definition t_bath :: pytext where
  \<comment> \<open>bathroom heater\<close>
  "t_bath =
   [28020, 23460, 26234, 33021, 28020, 38712]"

definition l_switch :: pytext where
  \<comment> \<open>switch\<close>
  "l_switch =
   [24320, 20851]"

definition l_work_mode :: pytext where
  \<comment> \<open>working mode\<close>
  "l_work_mode =
   [24037, 20316, 27169, 24335]"

definition l_warm :: pytext where
  \<comment> \<open>warm air\<close>
  "l_warm =
   [26262, 39118]"

definition l_ventilate :: pytext where
  \<comment> \<open>ventilate\<close>
  "l_ventilate =
   [25442, 27668]"

definition l_dry :: pytext where
  \<comment> \<open>dry\<close>
  "l_dry =
   [24178, 29157]"

definition m_bath_power :: pytext where
  \<comment> \<open>heater switch invalid\<close>
  "m_bath_power =
   [28020, 38712, 24320, 20851, 21442, 25968, 26080, 25928]"

definition m_bath_mode :: pytext where
  \<comment> \<open>heater mode invalid\<close>
  "m_bath_mode =
   [28020, 38712, 24037, 20316, 27169, 24335, 26080, 25928]"

definition m_bath_action :: pytext where
  \<comment> \<open>heater action not supported\<close>
  "m_bath_action =
   [28020, 38712, 21160, 20316, 19981, 21463, 25903, 25345]"

definition t_humidifier :: pytext where
  \<comment> \<open>living-room humidifier\<close>
  "t_humidifier =
   [23458, 21381, 21152, 28287, 22120]"

definition l_target_humidity :: pytext where
  \<comment> \<open>target humidity\<close>
  "l_target_humidity =
   [30446, 26631, 28287, 24230]"

definition m_hum_decl :: pytext where
  \<comment> \<open>humidifier must declare category and capabilities\<close>
  "m_hum_decl =
   [21152, 28287, 22120, 24517, 39035, 22768, 26126, 32, 101, 110, 118, 105, 114,
    111, 110, 109, 101, 110, 116, 32, 20998, 31867, 21450, 23436, 25972, 30340,
    21463, 25903, 25345, 25511, 21046, 33021, 21147]"

definition m_hum_power :: pytext where
  \<comment> \<open>humidifier switch invalid\<close>
  "m_hum_power =
   [21152, 28287, 22120, 24320, 20851, 21442, 25968, 26080, 25928]"

definition m_hum_target :: pytext where
  \<comment> \<open>target humidity must be 35 to 75\<close>
  "m_hum_target =
   [30446, 26631, 28287, 24230, 24517, 39035, 22312, 51, 53, 21040, 55, 53, 20043,
    38388]"

definition m_hum_action :: pytext where
  \<comment> \<open>humidifier action not supported\<close>
  "m_hum_action =
   [21152, 28287, 22120, 21160, 20316, 19981, 21463, 25903, 25345]"

definition t_door :: pytext where
  \<comment> \<open>entry door lock\<close>
  "t_door =
   [20837, 25143, 38376, 38145]"

definition m_door_jam_alert :: pytext where
  \<comment> \<open>lock jammed, operation refused\<close>
  "m_door_jam_alert =
   [38376, 38145, 21345, 28382, 65292, 25805, 20316, 34987, 25298, 32477]"

definition m_door_jammed :: pytext where
  \<comment> \<open>lock jammed, cannot complete\<close>
  "m_door_jammed =
   [38376, 38145, 21345, 28382, 65292, 26080, 27861, 23436, 25104, 25805, 20316]"

definition m_door_auto :: pytext where
  \<comment> \<open>auto-lock switch invalid\<close>
  "m_door_auto =
   [33258, 21160, 19978, 38145, 24320, 20851, 21442, 25968, 26080, 25928]"

definition m_door_delay :: pytext where
  \<comment> \<open>auto-lock delay must be 5 to 60 s\<close>
  "m_door_delay =
   [33258, 21160, 19978, 38145, 24310, 26102, 24517, 39035, 22312, 53, 21040, 54,
    48, 31186, 20043, 38388]"

definition m_door_action :: pytext where
  \<comment> \<open>lock action not supported\<close>
  "m_door_action =
   [38376, 38145, 21160, 20316, 19981, 21463, 25903, 25345]"

definition t_curtains :: pytext where
  \<comment> \<open>curtains\<close>
  "t_curtains =
   [31383, 24088]"

definition t_curtain_living :: pytext where
  \<comment> \<open>living-room curtain\<close>
  "t_curtain_living =
   [23458, 21381, 26234, 33021, 31383, 24088]"

definition t_curtain_master :: pytext where
  \<comment> \<open>master-bedroom curtain\<close>
  "t_curtain_master =
   [20027, 21351, 26234, 33021, 31383, 24088]"

definition t_curtain_bedroom :: pytext where
  \<comment> \<open>second-bedroom curtain\<close>
  "t_curtain_bedroom =
   [27425, 21351, 26234, 33021, 31383, 24088]"

definition l_position :: pytext where
  \<comment> \<open>opening\<close>
  "l_position =
   [24320, 21512, 24230]"

definition l_open :: pytext where
  \<comment> \<open>open\<close>
  "l_open =
   [25171, 24320]"

definition l_stop :: pytext where
  \<comment> \<open>pause\<close>
  "l_stop =
   [26242, 20572]"

definition l_close :: pytext where
  \<comment> \<open>close\<close>
  "l_close =
   [20851, 38381]"

definition m_curtain_position :: pytext where
  \<comment> \<open>position must be an int 0 to 100\<close>
  "m_curtain_position =
   [31383, 24088, 24320, 21512, 24230, 24517, 39035, 20026, 48, 21040, 49, 48, 48,
    30340, 25972, 25968]"

definition m_curtain_action :: pytext where
  \<comment> \<open>curtain action not supported\<close>
  "m_curtain_action =
   [31383, 24088, 21160, 20316, 19981, 21463, 25903, 25345]"

section \<open>Texts of security.py\<close>

definition m_proof_format :: pytext where
  \<comment> \<open>device proof malformed\<close>
  "m_proof_format =
   [35774, 22791, 35748, 35777, 35777, 26126, 26684, 24335, 26080, 25928]"

definition m_proof_alg :: pytext where
  \<comment> \<open>device proof algorithm not supported\<close>
  "m_proof_alg =
   [35774, 22791, 35748, 35777, 35777, 26126, 31639, 27861, 19981, 21463, 25903,
    25345]"

definition m_proof_sig :: pytext where
  \<comment> \<open>device proof signature invalid\<close>
  "m_proof_sig =
   [35774, 22791, 35748, 35777, 35777, 26126, 31614, 21517, 26080, 25928]"

definition m_proof_foreign :: pytext where
  \<comment> \<open>certificate is not of this gateway\<close>
  "m_proof_foreign =
   [35774, 22791, 36523, 20221, 35777, 20070, 19981, 23646, 20110, 24403, 21069,
    32593, 20851]"

definition m_proof_mismatch :: pytext where
  \<comment> \<open>certificate and declaration differ\<close>
  "m_proof_mismatch =
   [35774, 22791, 36523, 20221, 35777, 20070, 19982, 20108, 32500, 30721, 22768,
    26126, 19981, 19968, 33268]"

definition m_cmd_auth :: pytext where
  \<comment> \<open>command authentication failed\<close>
  "m_cmd_auth =
   [21629, 20196, 35748, 35777, 22833, 36133, 65292, 28040, 24687, 21487, 33021,
    24050, 34987, 31713, 25913, 25110, 37325, 25918]"

definition m_pair_limited :: pytext where
  \<comment> \<open>too many pairing failures, retry later\<close>
  "m_pair_limited =
   [37197, 23545, 22833, 36133, 27425, 25968, 36807, 22810, 65292, 35831, 31245,
    21518, 37325, 35797]"

definition m_pair_locked :: pytext where
  \<comment> \<open>too many failures, source locked 10 min\<close>
  "m_pair_locked =
   [37197, 23545, 22833, 36133, 27425, 25968, 36807, 22810, 65292, 26469, 28304,
    24050, 38145, 23450, 49, 48, 20998, 38047]"

definition m_pair_bad :: pytext where
  \<comment> \<open>pairing code invalid or expired\<close>
  "m_pair_bad =
   [37197, 23545, 30721, 26080, 25928, 25110, 24050, 36807, 26399]"

definition m_cred_bad :: pytext where
  \<comment> \<open>credential invalid\<close>
  "m_cred_bad =
   [23458, 25143, 31471, 20973, 25454, 26080, 25928]"

definition m_cred_unknown :: pytext where
  \<comment> \<open>credential invalid or gateway restarted\<close>
  "m_cred_unknown =
   [23458, 25143, 31471, 20973, 25454, 26080, 25928, 25110, 32593, 20851, 24050,
    37325, 21551]"

definition m_cred_expired :: pytext where
  \<comment> \<open>credential expired, pair again\<close>
  "m_cred_expired =
   [23458, 25143, 31471, 20973, 25454, 24050, 36807, 26399, 65292, 35831, 37325,
    26032, 37197, 23545]"

section \<open>Texts of service.py\<close>

definition m_ts_window :: pytext where
  \<comment> \<open>timestamp outside the 30 s window\<close>
  "m_ts_window =
   [21629, 20196, 26102, 38388, 25139, 36229, 20986, 20801, 35768, 30340, 51, 48,
    31186, 31383, 21475]"

definition m_nonce_dup :: pytext where
  \<comment> \<open>repeated nonce\<close>
  "m_nonce_dup =
   [26816, 27979, 21040, 37325, 22797, 32, 110, 111, 110, 99, 101]"

definition m_internal :: pytext where
  \<comment> \<open>internal failure\<close>
  "m_internal =
   [32593, 20851, 20869, 37096, 22788, 29702, 22833, 36133]"

section \<open>Texts of app.py\<close>

definition m_no_bearer :: pytext where
  \<comment> \<open>Bearer credential missing\<close>
  "m_no_bearer =
   [32570, 23569, 23458, 25143, 31471, 32, 66, 101, 97, 114, 101, 114, 32, 20973,
    25454]"

definition m_empty_bearer :: pytext where
  \<comment> \<open>credential empty\<close>
  "m_empty_bearer =
   [23458, 25143, 31471, 20973, 25454, 20026, 31354]"

definition m_body_large :: pytext where
  \<comment> \<open>body exceeds the limit\<close>
  "m_body_large =
   [35831, 27714, 27491, 25991, 36229, 36807, 23433, 20840, 38480, 21046]"

definition m_admin_token :: pytext where
  \<comment> \<open>maintenance token invalid\<close>
  "m_admin_token =
   [32500, 25252, 20196, 29260, 26080, 25928]"

definition m_envelope_bad :: pytext where
  \<comment> \<open>command envelope malformed\<close>
  "m_envelope_bad =
   [21629, 20196, 20449, 23553, 26684, 24335, 26080, 25928]"

section \<open>Texts of app.py, the briefings\<close>

definition t_comma :: pytext where
  \<comment> \<open>list comma\<close>
  "t_comma =
   [12289]"

definition t_offline_tail :: pytext where
  \<comment> \<open>is offline\<close>
  "t_offline_tail =
   [32, 24403, 21069, 31163, 32447, 12290, 28436, 31034, 26102, 21487, 20197,
    35828, 26126, 65306, 65, 80, 80, 32, 19981, 20250, 20266, 36896, 25104, 21151,
    29366, 24577, 65292, 24517, 39035, 31561, 24453, 32593, 20851, 26435, 23041,
    24555, 29031, 24674, 22797, 12290]"

definition t_offline :: pytext where
  \<comment> \<open>device connection broken\<close>
  "t_offline =
   [35774, 22791, 36830, 25509, 24322, 24120]"

definition t_stable :: pytext where
  \<comment> \<open>device links are stable\<close>
  "t_stable =
   [35774, 22791, 38142, 36335, 31283, 23450]"

definition t_stable_tail :: pytext where
  \<comment> \<open>devices online\<close>
  "t_stable_tail =
   [32, 21488, 27169, 25311, 35774, 22791, 22312, 32447, 65292, 32593, 20851,
    27491, 22312, 20316, 20026, 23478, 24237, 35774, 22791, 29366, 24577, 30340,
    21807, 19968, 26435, 23041, 26469, 28304, 12290]"

definition t_muggy :: pytext where
  \<comment> \<open>low comfort\<close>
  "t_muggy =
   [29615, 22659, 33298, 36866, 24230, 20559, 20302]"

definition t_now :: pytext where
  \<comment> \<open>now\<close>
  "t_now =
   [24403, 21069, 32]"

definition t_celsius :: pytext where
  \<comment> \<open>degrees\<close>
  "t_celsius =
   [176, 67, 32, 47, 32]"

definition t_muggy_tail :: pytext where
  \<comment> \<open>cooling advised\<close>
  "t_muggy_tail =
   [37, 82, 72, 65292, 24314, 35758, 24320, 21551, 31354, 35843, 21046, 20919,
    25110, 38500, 28287, 65292, 24182, 35266, 23519, 32593, 20851, 29366, 24577,
    22238, 20256, 12290]"

definition t_env_fine :: pytext where
  \<comment> \<open>environment is fine\<close>
  "t_env_fine =
   [29615, 22659, 29366, 24577, 27491, 24120]"

definition t_env_tail :: pytext where
  \<comment> \<open>acceptable\<close>
  "t_env_tail =
   [37, 82, 72, 65292, 23478, 24237, 29615, 22659, 22788, 20110, 21487, 25509,
    21463, 33539, 22260, 12290]"

definition t_unlocked :: pytext where
  \<comment> \<open>lock is open\<close>
  "t_unlocked =
   [38376, 38145, 26410, 38145, 23450]"

definition t_low :: pytext where
  \<comment> \<open>battery is low\<close>
  "t_low =
   [30005, 37327, 20559, 20302]"

definition t_jam :: pytext where
  \<comment> \<open>jammed\<close>
  "t_jam =
   [23384, 22312, 21345, 28382]"

definition t_door_risk :: pytext where
  \<comment> \<open>lock needs attention\<close>
  "t_door_risk =
   [38376, 38145, 23433, 20840, 38656, 35201, 20851, 27880]"

definition t_door_tail :: pytext where
  \<comment> \<open>handle the lock first\<close>
  "t_door_tail =
   [12290, 24314, 35758, 20248, 20808, 22788, 29702, 38376, 38145, 29366, 24577,
    65307, 31649, 29702, 31471, 21482, 23637, 31034, 39118, 38505, 65292, 19981,
    30452, 25509, 26367, 29992, 25143, 25191, 34892, 35299, 38145, 12290]"

definition t_door_safe :: pytext where
  \<comment> \<open>lock is safe\<close>
  "t_door_safe =
   [38376, 38145, 29366, 24577, 23433, 20840]"

definition t_door_safe_body :: pytext where
  \<comment> \<open>locked, battery fine\<close>
  "t_door_safe_body =
   [20837, 25143, 38376, 38145, 24050, 38145, 23450, 65292, 30005, 37327, 27491,
    24120, 65307, 35299, 38145, 25805, 20316, 20173, 38656, 35201, 29992, 25143,
    20108, 27425, 30830, 35748, 12290]"

definition t_ac_link :: pytext where
  \<comment> \<open>air conditioner interacts\<close>
  "t_ac_link =
   [31354, 35843, 32852, 21160, 21487, 35299, 37322]"

definition t_ac_body :: pytext where
  \<comment> \<open>the environment converges\<close>
  "t_ac_body =
   [32593, 20851, 20250, 26681, 25454, 31354, 35843, 27169, 24335, 35753, 29615,
    22659, 20540, 36880, 27493, 25910, 25947, 65292, 36866, 21512, 28436, 31034,
    8220, 25511, 21046, 21518, 29366, 24577, 19981, 26159, 32, 65, 80, 80, 32,
    20266, 36896, 65292, 32780, 26159, 32593, 20851, 25512, 36865, 8221, 12290]"

definition t_alerts :: pytext where
  \<comment> \<open>there are alerts\<close>
  "t_alerts =
   [23384, 22312, 23433, 20840, 47, 35774, 22791, 21578, 35686]"

definition t_recent :: pytext where
  \<comment> \<open>recently\<close>
  "t_recent =
   [26368, 36817, 26377, 32]"

definition t_alerts_tail :: pytext where
  \<comment> \<open>alerts\<close>
  "t_alerts_tail =
   [32, 26465, 21578, 35686, 65292, 21487, 32467, 21512, 23457, 35745, 26085,
    24535, 35828, 26126, 32593, 20851, 20250, 35760, 24405, 24322, 24120, 20294,
    19981, 27844, 38706, 25935, 24863, 20973, 25454, 12290]"

definition t_code_ends :: pytext where
  \<comment> \<open>code expires soon\<close>
  "t_code_ends =
   [37197, 23545, 30721, 21363, 23558, 36807, 26399]"

definition t_code_body :: pytext where
  \<comment> \<open>less than 60 s\<close>
  "t_code_body =
   [19968, 27425, 24615, 37197, 23545, 30721, 26377, 25928, 26399, 19981, 36275,
    32, 54, 48, 32, 31186, 12290, 36807, 26399, 21518, 38656, 35201, 20351, 29992,
    32593, 20851, 26032, 29983, 25104, 30340, 37197, 23545, 30721, 65292, 36991,
    20813, 22266, 23450, 21475, 20196, 38271, 26399, 22797, 29992, 12290]"

definition t_audit :: pytext where
  \<comment> \<open>audit trail\<close>
  "t_audit =
   [23457, 35745, 38142, 36335, 21487, 36861, 36394]"

definition t_audit_body :: pytext where
  \<comment> \<open>commands are audited\<close>
  "t_audit_body =
   [36817, 26399, 25511, 21046, 21629, 20196, 24050, 20889, 20837, 23457, 35745,
    26085, 24535, 65292, 21487, 29992, 20110, 23637, 31034, 25805, 20316, 26102,
    38388, 12289, 35774, 22791, 12289, 21160, 20316, 21644, 32467, 26524, 12290]"

definition t2_offline_tail :: pytext where
  \<comment> \<open>is offline\<close>
  "t2_offline_tail =
   [32, 24403, 21069, 31163, 32447, 12290, 28436, 31034, 26102, 21487, 20197,
    35266, 23519, 32, 65, 112, 112, 32, 26159, 21542, 20572, 27490, 25511, 21046,
    65292, 24182, 26597, 30475, 36825, 37324, 30340, 35774, 22791, 29366, 24577,
    21644, 21578, 35686, 35760, 24405, 12290]"

definition t2_offline :: pytext where
  \<comment> \<open>devices offline\<close>
  "t2_offline =
   [26377, 35774, 22791, 31163, 32447]"

definition t2_stable :: pytext where
  \<comment> \<open>connections are fine\<close>
  "t2_stable =
   [35774, 22791, 36830, 25509, 27491, 24120]"

definition t2_stable_tail :: pytext where
  \<comment> \<open>devices online\<close>
  "t2_stable_tail =
   [32, 21488, 27169, 25311, 35774, 22791, 22312, 32447, 12290, 36825, 37324,
    26174, 31034, 30340, 26159, 32593, 20851, 20391, 35760, 24405, 30340, 35774,
    22791, 29366, 24577, 12290]"

definition t2_muggy :: pytext where
  \<comment> \<open>muggy\<close>
  "t2_muggy =
   [29615, 22659, 20559, 38391, 28909]"

definition t2_muggy_tail :: pytext where
  \<comment> \<open>try the air conditioner\<close>
  "t2_muggy_tail =
   [37, 82, 72, 12290, 21487, 20197, 22312, 32, 65, 112, 112, 32, 37324, 23581,
    35797, 31354, 35843, 25511, 21046, 65292, 20877, 22238, 21040, 36825, 37324,
    30475, 29366, 24577, 21464, 21270, 12290]"

definition t2_env_tail :: pytext where
  \<comment> \<open>sensor data fine\<close>
  "t2_env_tail =
   [37, 82, 72, 65292, 29615, 22659, 20256, 24863, 22120, 25968, 25454, 27491,
    24120, 12290]"

definition t2_unlocked :: pytext where
  \<comment> \<open>lock is open\<close>
  "t2_unlocked =
   [38376, 38145, 26410, 38145]"

definition t2_jam :: pytext where
  \<comment> \<open>jammed\<close>
  "t2_jam =
   [21345, 28382]"

definition t2_door_risk :: pytext where
  \<comment> \<open>lock needs attention\<close>
  "t2_door_risk =
   [38376, 38145, 38656, 35201, 20851, 27880]"

definition t2_door_tail :: pytext where
  \<comment> \<open>page does not unlock\<close>
  "t2_door_tail =
   [12290, 36825, 20010, 39029, 38754, 21482, 29992, 20110, 26597, 30475, 21644,
    27979, 35797, 65292, 19981, 26367, 29992, 25143, 25191, 34892, 35299, 38145,
    12290]"

definition t2_door_safe :: pytext where
  \<comment> \<open>lock is fine\<close>
  "t2_door_safe =
   [38376, 38145, 29366, 24577, 27491, 24120]"

definition t2_door_safe_body :: pytext where
  \<comment> \<open>locked, battery fine\<close>
  "t2_door_safe_body =
   [20837, 25143, 38376, 38145, 24050, 38145, 23450, 65292, 30005, 37327, 27491,
    24120, 12290, 65, 112, 112, 32, 35299, 38145, 20173, 38656, 35201, 20108,
    27425, 30830, 35748, 12290]"

definition t2_alerts :: pytext where
  \<comment> \<open>there are alerts\<close>
  "t2_alerts =
   [23384, 22312, 21578, 35686, 35760, 24405]"

definition t2_alerts_tail :: pytext where
  \<comment> \<open>alerts\<close>
  "t2_alerts_tail =
   [32, 26465, 21578, 35686, 65292, 21487, 20197, 32467, 21512, 19979, 38754,
    30340, 21578, 35686, 34920, 21644, 23457, 35745, 35760, 24405, 19968, 36215,
    28436, 31034, 12290]"

definition t2_code_ends :: pytext where
  \<comment> \<open>code expires soon\<close>
  "t2_code_ends =
   [37197, 23545, 30721, 24555, 36807, 26399]"

definition t2_code_body :: pytext where
  \<comment> \<open>less than 60 s\<close>
  "t2_code_body =
   [19968, 27425, 24615, 37197, 23545, 30721, 21097, 20313, 19981, 36275, 32, 54,
    48, 32, 31186, 12290, 36807, 26399, 21518, 38656, 35201, 20351, 29992, 32593,
    20851, 26032, 29983, 25104, 30340, 37197, 23545, 30721, 12290]"

definition t2_audit :: pytext where
  \<comment> \<open>operations recorded\<close>
  "t2_audit =
   [24050, 26377, 25805, 20316, 35760, 24405]"

definition t2_audit_body :: pytext where
  \<comment> \<open>audit rows\<close>
  "t2_audit_body =
   [26368, 36817, 30340, 25511, 21046, 25110, 27979, 35797, 25805, 20316, 20250,
    26174, 31034, 22312, 23457, 35745, 35760, 24405, 20013, 65292, 26041, 20415,
    28436, 31034, 29366, 24577, 21464, 21270, 19981, 26159, 21482, 25913, 20102,
    30028, 38754, 12290]"

end
