(* ===== verification/Values.thy ===== *)
theory Values
  imports PyFloat Texts
begin

text \<open>
  Python values that cross an interface of the program: decoded JSON payloads, snapshot
  dictionaries, and the exceptions that code may raise. Identifiers are HOL strings (the
  UTF-8 bytes of the Python string); display texts are code-point lists.
\<close>

section \<open>Exceptions\<close>

record gateway_error =
  err_code :: string
  err_message :: pytext
  err_status :: int
  err_retry :: "int option"

datatype py_exc = ValueError | TypeError | KeyError | OverflowError | RuntimeError

datatype exn = Gateway gateway_error | Raised py_exc

definition AUTH_FAILED :: string where "AUTH_FAILED = ''AUTH_FAILED''"
definition DEVICE_PROOF_INVALID :: string where "DEVICE_PROOF_INVALID = ''DEVICE_PROOF_INVALID''"
definition DEVICE_OFFLINE :: string where "DEVICE_OFFLINE = ''DEVICE_OFFLINE''"
definition INVALID_COMMAND :: string where "INVALID_COMMAND = ''INVALID_COMMAND''"
definition COMMAND_TIMEOUT :: string where "COMMAND_TIMEOUT = ''COMMAND_TIMEOUT''"
definition STATE_CONFLICT :: string where "STATE_CONFLICT = ''STATE_CONFLICT''"
definition REPLAY_DETECTED :: string where "REPLAY_DETECTED = ''REPLAY_DETECTED''"
definition RATE_LIMITED :: string where "RATE_LIMITED = ''RATE_LIMITED''"
definition INTERNAL_ERROR :: string where "INTERNAL_ERROR = ''INTERNAL_ERROR''"

lemmas error_codes =
  AUTH_FAILED_def DEVICE_PROOF_INVALID_def DEVICE_OFFLINE_def INVALID_COMMAND_def
  COMMAND_TIMEOUT_def STATE_CONFLICT_def REPLAY_DETECTED_def RATE_LIMITED_def
  INTERNAL_ERROR_def

definition gw :: "string \<Rightarrow> pytext \<Rightarrow> gateway_error" where
  \<comment> \<open>\<open>GatewayError(code, message)\<close>, with the defaults of the other fields\<close>
  "gw c m = \<lparr>err_code = c, err_message = m, err_status = 400, err_retry = None\<rparr>"

definition gw_status :: "string \<Rightarrow> pytext \<Rightarrow> int \<Rightarrow> gateway_error" where
  "gw_status c m s = (gw c m)\<lparr>err_status := s\<rparr>"

definition invalid :: "pytext \<Rightarrow> exn" where
  "invalid m = Gateway (gw INVALID_COMMAND m)"

lemma gw_sel [simp]:
  "err_code (gw c m) = c" "err_message (gw c m) = m" "err_status (gw c m) = 400"
  "err_retry (gw c m) = None"
  by (simp_all add: gw_def)

lemma gw_status_sel [simp]:
  "err_code (gw_status c m s) = c" "err_message (gw_status c m s) = m"
  "err_status (gw_status c m s) = s" "err_retry (gw_status c m s) = None"
  by (simp_all add: gw_status_def)

lemma invalid_inject [simp]: "invalid m = Gateway e \<longleftrightarrow> e = gw INVALID_COMMAND m"
  by (auto simp: invalid_def)

section \<open>Values\<close>

datatype pyfloat = Fin rat | PInf | NInf | NaN

datatype pyval =
    PNone
  | PBool bool
  | PInt int
  | PFloat pyfloat
  | PStr string
  | PText pytext
  | PList "pyval list"
  | PDict "(string \<times> pyval) list"

type_synonym payload = "(string, pyval) dict"

definition py_get :: "payload \<Rightarrow> string \<Rightarrow> pyval" where
  \<comment> \<open>\<open>d.get(k)\<close>\<close>
  "py_get d k = (case dict_get d k of None \<Rightarrow> PNone | Some v \<Rightarrow> v)"

fun is_number :: "pyval \<Rightarrow> bool" where
  \<comment> \<open>\<open>not isinstance(v, bool) and isinstance(v, (int, float))\<close>\<close>
  "is_number (PInt _) = True"
| "is_number (PFloat _) = True"
| "is_number _ = False"

fun num_lt :: "pyval \<Rightarrow> int \<Rightarrow> bool" where
  \<comment> \<open>\<open>v < n\<close>; every comparison with a NaN is false\<close>
  "num_lt (PInt i) n = (i < n)"
| "num_lt (PFloat (Fin q)) n = (q < of_int n)"
| "num_lt (PFloat NInf) n = True"
| "num_lt _ n = False"

fun num_gt :: "pyval \<Rightarrow> int \<Rightarrow> bool" where
  "num_gt (PInt i) n = (i > n)"
| "num_gt (PFloat (Fin q)) n = (q > of_int n)"
| "num_gt (PFloat PInf) n = True"
| "num_gt _ n = False"

fun py_int :: "pyval \<Rightarrow> py_exc + int" where
  \<comment> \<open>\<open>int(v)\<close> on a number\<close>
  "py_int (PInt i) = Inr i"
| "py_int (PFloat (Fin q)) = Inr (trunc q)"
| "py_int (PFloat NaN) = Inl ValueError"
| "py_int (PFloat _) = Inl OverflowError"
| "py_int _ = Inl TypeError"

fun py_round :: "pyval \<Rightarrow> py_exc + int" where
  \<comment> \<open>\<open>int(round(v))\<close> on a number: ties go to the even neighbour\<close>
  "py_round (PInt i) = Inr i"
| "py_round (PFloat (Fin q)) = Inr (round_he q)"
| "py_round (PFloat NaN) = Inl ValueError"
| "py_round (PFloat _) = Inl OverflowError"
| "py_round _ = Inl TypeError"

definition num_in :: "pyval \<Rightarrow> int \<Rightarrow> int \<Rightarrow> bool" where
  \<comment> \<open>the range test the handlers write out: a number that is neither below nor above\<close>
  "num_in v lo hi \<longleftrightarrow> is_number v \<and> \<not> num_lt v lo \<and> \<not> num_gt v hi"

text \<open>A number inside integer bounds converts to an int inside them; only a NaN, which
  passes every range test, fails to convert.\<close>

lemma num_in_cases:
  assumes "num_in v lo hi"
  obtains i where "v = PInt i" "lo \<le> i" "i \<le> hi"
  | q where "v = PFloat (Fin q)" "of_int lo \<le> q" "q \<le> of_int hi"
  | "v = PFloat NaN"
  using assms by (cases v rule: py_int.cases) (auto simp: num_in_def not_less)

lemma py_int_in:
  assumes "num_in v lo hi"
  shows "(\<exists>i. py_int v = Inr i \<and> lo \<le> i \<and> i \<le> hi) \<or> (v = PFloat NaN \<and> py_int v = Inl ValueError)"
  using assms by (cases rule: num_in_cases) (auto simp: trunc_bounds)

lemma py_round_in:
  assumes "num_in v lo hi"
  shows "(\<exists>i. py_round v = Inr i \<and> lo \<le> i \<and> i \<le> hi) \<or> (v = PFloat NaN \<and> py_round v = Inl ValueError)"
  using assms by (cases rule: num_in_cases) (auto simp: round_he_ge round_he_le)

lemma py_int_in_Inr: "num_in v lo hi \<Longrightarrow> py_int v = Inr i \<Longrightarrow> lo \<le> i \<and> i \<le> hi"
  using py_int_in [of v lo hi] by auto

lemma py_round_in_Inr: "num_in v lo hi \<Longrightarrow> py_round v = Inr i \<Longrightarrow> lo \<le> i \<and> i \<le> hi"
  using py_round_in [of v lo hi] by auto

definition asc :: "string \<Rightarrow> pytext" where
  \<comment> \<open>the code points of an ASCII text\<close>
  "asc s = map of_char s"

section \<open>Outcomes\<close>

text \<open>
  Code that changes state may raise after it has changed some of it, and Python keeps
  the change: an outcome is the value or the exception together with the state reached.
\<close>

type_synonym ('a, 's) outcome = "(exn + 'a) \<times> 's"

definition to_dict :: "gateway_error \<Rightarrow> pyval" where
  "to_dict e = PDict [(''error'', PDict
     ([(''code'', PStr (err_code e)), (''message'', PText (err_message e))] @
      (case err_retry e of None \<Rightarrow> [] | Some n \<Rightarrow> [(''retryAfterSeconds'', PInt n)])))]"

definition num_pyval :: "rat \<Rightarrow> pyval" where
  "num_pyval q = PFloat (Fin q)"

definition opt_int :: "int option \<Rightarrow> pyval" where
  "opt_int x = (case x of None \<Rightarrow> PNone | Some n \<Rightarrow> PInt n)"

section \<open>Decimal text of integers\<close>

definition digit_char :: "nat \<Rightarrow> char" where
  "digit_char d = ''0123456789'' ! d"

fun show_nat :: "nat \<Rightarrow> string" where
  "show_nat n = (if n < 10 then [digit_char n] else show_nat (n div 10) @ [digit_char (n mod 10)])"

declare show_nat.simps [simp del]

definition show_int :: "int \<Rightarrow> string" where
  \<comment> \<open>\<open>str(i)\<close>\<close>
  "show_int i = (if i < 0 then ''-'' @ show_nat (nat (- i)) else show_nat (nat i))"

end
