(* ===== verification/Storage.thy ===== *)
theory Storage
  imports Values
begin

text \<open>
  \<open>storage.py\<close>: the SQLite tables behind the gateway. A table is the list of its rows in
  insertion order, each with its \<open>AUTOINCREMENT\<close> id, and the last id handed out. The SQL
  text of each method is translated: \<open>ORDER BY id DESC\<close> is a sort on the id reversed,
  \<open>LIMIT\<close> is \<open>take\<close>, \<open>WHERE\<close> is \<open>filter\<close>. SQLite itself (durability, the
  connection lock) is outside the model. The locale \<open>row_log\<close> is the contract of an
  append-only log; the audit and alert tables interpret it.
\<close>

section \<open>Tables\<close>

record 'r table =
  tb_rows :: "(int \<times> 'r) list"
  tb_last :: int

definition empty_table :: "'r table" where
  "empty_table = \<lparr>tb_rows = [], tb_last = 0\<rparr>"

definition insert_row :: "'r \<Rightarrow> 'r table \<Rightarrow> 'r table" where
  "insert_row r t = \<lparr>tb_rows = tb_rows t @ [(tb_last t + 1, r)], tb_last = tb_last t + 1\<rparr>"

definition table_ok :: "'r table \<Rightarrow> bool" where
  "table_ok t \<longleftrightarrow> sorted_wrt (<) (map fst (tb_rows t)) \<and> (\<forall>i \<in> set (map fst (tb_rows t)). 0 < i \<and> i \<le> tb_last t)
     \<and> 0 \<le> tb_last t"

lemma table_ok_empty [simp, keeps]: "table_ok empty_table"
  by (simp add: table_ok_def empty_table_def)

lemma table_ok_insert [simp, keeps]: "table_ok t \<Longrightarrow> table_ok (insert_row r t)"
  by (fastforce simp: table_ok_def insert_row_def sorted_wrt_append)

lemma table_ok_filter [keeps]: "table_ok t \<Longrightarrow> table_ok (t\<lparr>tb_rows := filter P (tb_rows t)\<rparr>)"
proof -
  assume ok: "table_ok t"
  have "map fst (filter P (tb_rows t)) = map fst (filter P (tb_rows t))" ..
  then show ?thesis
    using ok by (auto simp: table_ok_def sorted_wrt_map sorted_wrt_filter)
qed

lemma rows_insert [simp]: "tb_rows (insert_row r t) = tb_rows t @ [(tb_last t + 1, r)]"
  by (simp add: insert_row_def)

section \<open>The contract of an append-only log\<close>

locale row_log =
  fixes rows :: "'s \<Rightarrow> (int \<times> 'r) list"
    and append :: "'r \<Rightarrow> 's \<Rightarrow> 's"
    and inv :: "'s \<Rightarrow> bool"
  assumes inv_append: "inv s \<Longrightarrow> inv (append r s)"
    and rows_append: "inv s \<Longrightarrow> \<exists>k. rows (append r s) = rows s @ [(k, r)]"
    and ids_increase: "inv s \<Longrightarrow> sorted_wrt (<) (map fst (rows s))"
begin

lemma inv_run: "inv s \<Longrightarrow> inv (fold append rs s)"
  by (induction rs arbitrary: s) (auto intro: inv_append)

lemma run_rows:
  assumes "inv s"
  shows "map snd (rows (fold append rs s)) = map snd (rows s) @ rs"
  using assms
proof (induction rs arbitrary: s)
  case Nil
  then show ?case by simp
next
  case (Cons r rs)
  from rows_append [OF Cons.prems] obtain k where "rows (append r s) = rows s @ [(k, r)]" by blast
  with Cons.IH [OF inv_append [OF Cons.prems]] show ?case by simp
qed

lemma history_kept:
  assumes "inv s"
  shows "\<exists>new. rows (fold append rs s) = rows s @ new \<and> length new = length rs"
  using assms
proof (induction rs arbitrary: s)
  case Nil
  then show ?case by simp
next
  case (Cons r rs)
  from rows_append [OF Cons.prems] obtain k where k: "rows (append r s) = rows s @ [(k, r)]" by blast
  from Cons.IH [OF inv_append [OF Cons.prems]] obtain new
    where "rows (fold append rs (append r s)) = rows (append r s) @ new" "length new = length rs"
    by blast
  with k have "rows (fold append (r # rs) s) = rows s @ ((k, r) # new)
      \<and> length ((k, r) # new) = length (r # rs)" by simp
  then show ?case by blast
qed

lemma distinct_ids: "inv s \<Longrightarrow> distinct (map fst (rows s))"
  using ids_increase strict_sorted_iff by blast

lemma sorted_ids: "inv s \<Longrightarrow> sort_key fst (rows s) = rows s"
  by (intro sort_key_sorted_id) (use ids_increase strict_sorted_iff in blast)

lemma newest_first: "inv s \<Longrightarrow> rev (sort_key fst (rows (append r s))) = rev (rows (append r s))"
  by (simp add: sorted_ids inv_append)

end

section \<open>The database\<close>

record audit_row =
  ar_timestamp :: int
  ar_client :: string
  ar_device :: string
  ar_action :: string
  ar_result :: string
  ar_error :: "string option"
  ar_suffix :: string
  ar_details :: "string option"

record alert_row =
  al_timestamp :: int
  al_device :: string
  al_severity :: string
  al_code :: string
  al_description :: pytext

record env_row =
  er_timestamp :: int
  er_device :: string
  er_temperature :: rat
  er_humidity :: rat
  er_illuminance :: rat
  er_presence :: int

record storage =
  st_audit :: "audit_row table"
  st_alerts :: "alert_row table"
  st_env :: "env_row table"
  st_proofs :: "(string, int) dict"

definition new_storage :: storage where
  "new_storage = \<lparr>st_audit = empty_table, st_alerts = empty_table, st_env = empty_table,
     st_proofs = []\<rparr>"

definition storage_ok :: "storage \<Rightarrow> bool" where
  "storage_ok st \<longleftrightarrow> table_ok (st_audit st) \<and> table_ok (st_alerts st) \<and> table_ok (st_env st)
     \<and> dict_ok (st_proofs st)"

definition last8 :: "string \<Rightarrow> string" where
  \<comment> \<open>\<open>message_id[-8:]\<close>\<close>
  "last8 s = drop (length s - 8) s"

definition record_audit ::
  "int \<Rightarrow> string \<Rightarrow> string \<Rightarrow> string \<Rightarrow> string \<Rightarrow> string option \<Rightarrow> string \<Rightarrow> string option
   \<Rightarrow> storage \<Rightarrow> storage" where
  "record_audit timestamp_ms client_id device_id action result error_code message_id details st =
     st\<lparr>st_audit := insert_row
       \<lparr>ar_timestamp = timestamp_ms, ar_client = client_id, ar_device = device_id,
        ar_action = action, ar_result = result, ar_error = error_code,
        ar_suffix = last8 message_id, ar_details = details\<rparr> (st_audit st)\<rparr>"

definition record_alert_row ::
  "int \<Rightarrow> string \<Rightarrow> string \<Rightarrow> string \<Rightarrow> pytext \<Rightarrow> storage \<Rightarrow> storage" where
  "record_alert_row timestamp_ms device_id severity code description st =
     st\<lparr>st_alerts := insert_row
       \<lparr>al_timestamp = timestamp_ms, al_device = device_id, al_severity = severity,
        al_code = code, al_description = description\<rparr> (st_alerts st)\<rparr>"

definition record_environment ::
  "int \<Rightarrow> string \<Rightarrow> rat \<Rightarrow> rat \<Rightarrow> rat \<Rightarrow> bool \<Rightarrow> storage \<Rightarrow> storage" where
  "record_environment timestamp_ms device_id temperature humidity illuminance presence st =
     st\<lparr>st_env := insert_row
       \<lparr>er_timestamp = timestamp_ms, er_device = device_id, er_temperature = temperature,
        er_humidity = humidity, er_illuminance = illuminance,
        er_presence = (if presence then 1 else 0)\<rparr> (st_env st)\<rparr>"

record log_page =
  pg_items :: "(int \<times> audit_row) list"
  pg_next :: "int option"

definition get_logs :: "int option \<Rightarrow> int \<Rightarrow> storage \<Rightarrow> log_page" where
  "get_logs cursor limit st =
     (let effective_limit = min (max limit 1) 100;
          matching = (case cursor of None \<Rightarrow> tb_rows (st_audit st)
            | Some c \<Rightarrow> filter (\<lambda>(i, _). i < c) (tb_rows (st_audit st)));
          rows = take (nat (effective_limit + 1)) (rev (sort_key fst matching));
          has_more = int (length rows) > effective_limit;
          visible = take (nat effective_limit) rows
      in \<lparr>pg_items = visible,
          pg_next = (if has_more \<and> visible \<noteq> [] then Some (fst (last visible)) else None)\<rparr>)"

definition get_alerts :: "int \<Rightarrow> storage \<Rightarrow> (int \<times> alert_row) list" where
  "get_alerts limit st =
     (let effective_limit = min (max limit 1) 100
      in take (nat effective_limit) (rev (sort_key fst (tb_rows (st_alerts st)))))"

definition get_environment_history ::
  "string \<Rightarrow> int \<Rightarrow> int \<Rightarrow> int \<Rightarrow> storage \<Rightarrow> env_row list" where
  "get_environment_history device_id from_ms to_ms limit st =
     (let effective_limit = min (max limit 1) 50000;
          matching = filter (\<lambda>r. er_device r = device_id \<and> from_ms \<le> er_timestamp r
            \<and> er_timestamp r \<le> to_ms) (map snd (tb_rows (st_env st)))
      in take (nat effective_limit) (sort_key er_timestamp matching))"

definition prune_environment_history :: "int \<Rightarrow> storage \<Rightarrow> storage" where
  "prune_environment_history before_ms st =
     st\<lparr>st_env := (st_env st)\<lparr>tb_rows :=
       filter (\<lambda>(_, r). \<not> er_timestamp r < before_ms) (tb_rows (st_env st))\<rparr>\<rparr>"

definition registration_proof_is_consumed :: "string \<Rightarrow> int \<Rightarrow> storage \<Rightarrow> bool \<times> storage" where
  "registration_proof_is_consumed jti now st =
     (let kept = filter (\<lambda>(_, e). \<not> e < now) (st_proofs st)
      in (dict_get kept jti \<noteq> None, st\<lparr>st_proofs := kept\<rparr>))"

definition consume_registration_proof :: "string \<Rightarrow> int \<Rightarrow> storage \<Rightarrow> bool \<times> storage" where
  \<comment> \<open>\<open>INSERT OR IGNORE\<close>: the row count is 1 exactly when the key was absent\<close>
  "consume_registration_proof jti expires_at st =
     (if dict_get (st_proofs st) jti = None
      then (True, st\<lparr>st_proofs := st_proofs st @ [(jti, expires_at)]\<rparr>)
      else (False, st))"

section \<open>The tables keep their contracts\<close>

lemma storage_ok_new [simp]: "storage_ok new_storage"
  by (simp add: storage_ok_def new_storage_def)

lemma storage_ok_audit [keeps, simp]: "storage_ok st \<Longrightarrow> storage_ok (record_audit t c d a r e m x st)"
  by (simp add: storage_ok_def record_audit_def)

lemma storage_ok_alert [keeps, simp]: "storage_ok st \<Longrightarrow> storage_ok (record_alert_row t d v c x st)"
  by (simp add: storage_ok_def record_alert_row_def)

lemma storage_ok_env [keeps, simp]: "storage_ok st \<Longrightarrow> storage_ok (record_environment t d x y z p st)"
  by (simp add: storage_ok_def record_environment_def)

lemma storage_ok_prune [keeps, simp]: "storage_ok st \<Longrightarrow> storage_ok (prune_environment_history b st)"
  by (simp add: storage_ok_def prune_environment_history_def table_ok_filter)

lemma storage_ok_consume [keeps]: "storage_ok st \<Longrightarrow> storage_ok (snd (consume_registration_proof j e st))"
  by (auto simp: storage_ok_def consume_registration_proof_def dict_get_None_iff)

interpretation audit_log: row_log
  "\<lambda>st. tb_rows (st_audit st)" "\<lambda>r st. st\<lparr>st_audit := insert_row r (st_audit st)\<rparr>" storage_ok
  by unfold_locales (auto simp: storage_ok_def table_ok_def insert_row_def sorted_wrt_append)

interpretation alert_log: row_log
  "\<lambda>st. tb_rows (st_alerts st)" "\<lambda>r st. st\<lparr>st_alerts := insert_row r (st_alerts st)\<rparr>" storage_ok
  by unfold_locales (auto simp: storage_ok_def table_ok_def insert_row_def sorted_wrt_append)

lemma record_audit_sel [simp]:
  "tb_rows (st_audit (record_audit t c d a r e m x st)) = tb_rows (st_audit st) @
     [(tb_last (st_audit st) + 1, \<lparr>ar_timestamp = t, ar_client = c, ar_device = d, ar_action = a,
        ar_result = r, ar_error = e, ar_suffix = last8 m, ar_details = x\<rparr>)]"
  "st_alerts (record_audit t c d a r e m x st) = st_alerts st"
  "st_env (record_audit t c d a r e m x st) = st_env st"
  "st_proofs (record_audit t c d a r e m x st) = st_proofs st"
  by (simp_all add: record_audit_def)

lemma record_alert_sel [simp]:
  "st_audit (record_alert_row t d v c x st) = st_audit st"
  "st_env (record_alert_row t d v c x st) = st_env st"
  "st_proofs (record_alert_row t d v c x st) = st_proofs st"
  by (simp_all add: record_alert_row_def)

lemma record_environment_sel [simp]:
  "st_audit (record_environment t d x y z p st) = st_audit st"
  "st_alerts (record_environment t d x y z p st) = st_alerts st"
  "st_proofs (record_environment t d x y z p st) = st_proofs st"
  by (simp_all add: record_environment_def)

section \<open>Paging through the audit log\<close>

definition log_before :: "int option \<Rightarrow> storage \<Rightarrow> (int \<times> audit_row) list" where
  "log_before cursor st = (case cursor of None \<Rightarrow> tb_rows (st_audit st)
     | Some c \<Rightarrow> filter (\<lambda>(i, _). i < c) (tb_rows (st_audit st)))"

lemma sorted_log_before:
  assumes "storage_ok st"
  shows "sorted_wrt (<) (map fst (log_before cursor st))"
  using audit_log.ids_increase [OF assms]
  by (auto simp: log_before_def sorted_wrt_map sorted_wrt_filter split: option.split)

lemma last_take_nth: "0 < e \<Longrightarrow> e < length L \<Longrightarrow> last (take e L) = L ! (e - 1)"
  by (subst last_conv_nth) auto

lemma get_logs_eq:
  assumes "storage_ok st"
  shows "get_logs cursor limit st =
    (let e = nat (min (max limit 1) 100); L = rev (log_before cursor st)
     in \<lparr>pg_items = take e L,
         pg_next = (if e < length L then Some (fst (L ! (e - 1))) else None)\<rparr>)"
proof -
  define e where "e = nat (min (max limit 1) 100)"
  define L where "L = rev (log_before cursor st)"
  have e: "0 < e" "min (max limit 1) 100 = int e" by (simp_all add: e_def min_def max_def)
  have "sort_key fst (log_before cursor st) = log_before cursor st"
    using sorted_log_before [OF assms] strict_sorted_iff by (intro sort_key_sorted_id) blast
  then have g: "get_logs cursor limit st = (let rows = take (Suc e) L; visible = take e rows
      in \<lparr>pg_items = visible, pg_next = (if int e < int (length rows) \<and> visible \<noteq> []
            then Some (fst (last visible)) else None)\<rparr>)"
    by (simp add: get_logs_def e(2) L_def Let_def nat_add_distrib flip: log_before_def)
  show ?thesis
  proof (cases "e < length L")
    case True
    then have "take e L \<noteq> []" using e(1) by auto
    then show ?thesis
      using True e(1) by (simp add: g L_def [symmetric] e_def [symmetric] Let_def last_take_nth)
  next
    case False
    then show ?thesis by (simp add: g L_def [symmetric] e_def [symmetric] Let_def)
  qed
qed

text \<open>A client that starts without a cursor and follows \<open>nextCursor\<close>.\<close>

fun walk_logs :: "nat \<Rightarrow> int option \<Rightarrow> int \<Rightarrow> storage \<Rightarrow> (int \<times> audit_row) list option" where
  "walk_logs 0 cursor limit st = None"
| "walk_logs (Suc fuel) cursor limit st =
     (let page = get_logs cursor limit st
      in case pg_next page of None \<Rightarrow> Some (pg_items page)
         | Some c \<Rightarrow> map_option ((@) (pg_items page)) (walk_logs fuel (Some c) limit st))"

lemma filter_below_nth:
  fixes L :: "(int \<times> 'a) list"
  assumes "sorted_wrt (>) (map fst L)" "k < length L"
  shows "filter (\<lambda>(i, _). i < fst (L ! k)) L = drop (Suc k) L"
  using assms
proof (induction L arbitrary: k)
  case Nil
  then show ?case by simp
next
  case (Cons x xs)
  show ?case
  proof (cases k)
    case 0
    have "\<forall>y \<in> set xs. fst y < fst x" using Cons.prems(1) by auto
    then have "filter (\<lambda>(i, _). i < fst x) xs = xs" by (auto simp: filter_id_conv)
    then show ?thesis using 0 by (simp add: split_def)
  next
    case (Suc j)
    have "xs ! j \<in> set xs" using Cons.prems(2) Suc by simp
    then have lt: "fst (xs ! j) < fst x" using Cons.prems(1) by simp
    then have "\<not> fst x < fst (xs ! j)" by linarith
    then show ?thesis using Cons Suc by (simp add: split_def)
  qed
qed

lemma log_before_next:
  assumes "storage_ok st" "k < length (log_before cursor st)"
  shows "rev (log_before (Some (fst (rev (log_before cursor st) ! k))) st)
    = drop (Suc k) (rev (log_before cursor st))"
proof -
  let ?L = "rev (log_before cursor st)" and ?c = "fst (rev (log_before cursor st) ! k)"
  have s: "sorted_wrt (>) (map fst ?L)"
    using sorted_log_before [OF assms(1), of cursor] by (simp add: rev_map [symmetric] sorted_wrt_rev)
  have "?L ! k \<in> set ?L" using assms(2) by (intro nth_mem) simp
  then have below: "\<forall>c. cursor = Some c \<longrightarrow> ?c < c" by (auto simp: log_before_def)
  have "log_before (Some ?c) st = filter (\<lambda>(i, _). i < ?c) (log_before cursor st)"
  proof (cases cursor)
    case None
    then show ?thesis by (simp add: log_before_def)
  next
    case (Some c)
    with below have lt: "?c < c" by simp
    have "log_before (Some d) st = filter (\<lambda>(i, _). i < d) (log_before (Some c) st)" if "d < c" for d
      using that by (auto simp: log_before_def intro!: filter_cong)
    from this [OF lt] show ?thesis using Some by simp
  qed
  then have "rev (log_before (Some ?c) st) = filter (\<lambda>(i, _). i < ?c) ?L"
    by (simp add: rev_filter)
  also have "\<dots> = drop (Suc k) ?L" using s assms(2) by (intro filter_below_nth) simp_all
  finally show ?thesis .
qed

lemma walk_logs_from:
  assumes "storage_ok st" "length (log_before cursor st) < fuel"
  shows "walk_logs fuel cursor limit st = Some (rev (log_before cursor st))"
  using assms(2)
proof (induction fuel arbitrary: cursor)
  case 0
  then show ?case by simp
next
  case (Suc fuel)
  define e where "e = nat (min (max limit 1) 100)"
  have e: "0 < e" by (simp add: e_def)
  let ?L = "rev (log_before cursor st)"
  have page: "get_logs cursor limit st = \<lparr>pg_items = take e ?L,
      pg_next = (if e < length ?L then Some (fst (?L ! (e - 1))) else None)\<rparr>"
    by (simp add: get_logs_eq [OF assms(1)] e_def Let_def)
  show ?case
  proof (cases "e < length ?L")
    case False
    then show ?thesis by (simp add: page)
  next
    case True
    let ?c = "Some (fst (?L ! (e - 1)))"
    have rest: "rev (log_before ?c st) = drop e ?L"
      using log_before_next [OF assms(1), of "e - 1" cursor] True e by simp
    then have "length (log_before ?c st) = length ?L - e" by (metis length_drop length_rev)
    with Suc.prems True e have "walk_logs fuel ?c limit st = Some (rev (log_before ?c st))"
      by (intro Suc.IH) simp
    then have "walk_logs fuel ?c limit st = Some (drop e ?L)" by (simp only: rest)
    then show ?thesis using True by (simp add: page)
  qed
qed

section \<open>Properties\<close>

text \<open>C35: a client that pages through the audit log by following \<open>nextCursor\<close> reads every
  row exactly once, newest first, whatever page size it asks for, and the walk ends: any
  fuel above the number of rows is enough.\<close>

theorem log_paging_complete:
  assumes "storage_ok st" "length (tb_rows (st_audit st)) < fuel"
  shows "walk_logs fuel None limit st = Some (rev (tb_rows (st_audit st)))"
  using walk_logs_from [OF assms(1), of None fuel limit] assms(2) by (simp add: log_before_def)

theorem log_paging_complete_witness:
  "let st = record_audit 2 ''c'' ''d'' ''lock'' ''failed'' (Some ''X'') ''m2'' None
       (record_audit 1 ''c'' ''d'' ''open'' ''success'' None ''m1'' None new_storage)
   in storage_ok st \<and> walk_logs 3 None 1 st = Some (rev (tb_rows (st_audit st)))"
  unfolding Let_def
  by (intro conjI log_paging_complete storage_ok_audit storage_ok_new)
     (simp add: new_storage_def empty_table_def)

text \<open>A page read with a cursor does not move when the gateway goes on writing: rows
  audited later have larger ids, so the page and its next cursor are unchanged.\<close>

lemma log_page_stable:
  assumes "storage_ok st" "c \<le> tb_last (st_audit st)"
  shows "get_logs (Some c) limit (record_audit t cl d a r e m x st) = get_logs (Some c) limit st"
  using assms(2) by (simp add: get_logs_def)

text \<open>An environment-history query answers in time order, with rows of the asked
  device inside the asked interval only, as many as there are up to the (clamped) limit.\<close>

lemma environment_history_spec:
  "let out = get_environment_history dev from_ms to_ms limit st;
       wanted = filter (\<lambda>r. er_device r = dev \<and> from_ms \<le> er_timestamp r \<and> er_timestamp r \<le> to_ms)
         (map snd (tb_rows (st_env st)))
   in sorted (map er_timestamp out) \<and> set out \<subseteq> set wanted
      \<and> length out = min (nat (min (max limit 1) 50000)) (length wanted)"
proof -
  define wanted where "wanted = filter (\<lambda>r. er_device r = dev \<and> from_ms \<le> er_timestamp r
    \<and> er_timestamp r \<le> to_ms) (map snd (tb_rows (st_env st)))"
  define n where "n = nat (min (max limit 1) 50000)"
  define out where "out = get_environment_history dev from_ms to_ms limit st"
  have out: "out = take n (sort_key er_timestamp wanted)"
    by (simp add: out_def get_environment_history_def wanted_def n_def)
  have "sorted (map er_timestamp out)" unfolding out take_map [symmetric]
    by (intro sorted_wrt_take) simp
  moreover have "set out \<subseteq> set wanted" using set_take_subset [of n] by (force simp: out)
  moreover have "length out = min n (length wanted)" by (simp add: out min.commute)
  ultimately show ?thesis by (simp add: Let_def wanted_def out_def n_def)
qed

end
