(* ===== verification/Adapters.thy ===== *)
theory Adapters
  imports Values
begin

text \<open>
  \<open>adapters.py\<close>: the brand adapters that turn a normalised air-conditioner command into
  the frame of a simulated brand. The class hierarchy is the datatype \<open>adapter\<close>;
  \<open>ac_validate\<close> is the method all of them inherit.
\<close>

definition VALID_MODES :: "string set" where
  "VALID_MODES = {''auto'', ''cool'', ''heat'', ''dry'', ''fan''}"

definition VALID_FAN_SPEEDS :: "string set" where
  "VALID_FAN_SPEEDS = {''auto'', ''low'', ''medium'', ''high''}"

record ac_command =
  nc_action :: string
  nc_power :: "bool option"
  nc_mode :: "string option"
  nc_temperature :: "int option"
  nc_fan :: "string option"

definition ac_command_of :: "string \<Rightarrow> ac_command" where
  "ac_command_of action = \<lparr>nc_action = action, nc_power = None, nc_mode = None,
     nc_temperature = None, nc_fan = None\<rparr>"

definition in_opt :: "string option \<Rightarrow> string set \<Rightarrow> bool" where
  "in_opt x S = (case x of None \<Rightarrow> False | Some v \<Rightarrow> v \<in> S)"

definition ac_validate :: "ac_command \<Rightarrow> gateway_error + unit" where
  "ac_validate c =
     (if nc_action c = ''setMode'' \<and> \<not> in_opt (nc_mode c) VALID_MODES
      then Inl (gw INVALID_COMMAND m_ac_bad_mode)
      else if nc_action c = ''setTemperature'' \<and>
        (case nc_temperature c of None \<Rightarrow> True | Some t \<Rightarrow> t < 16 \<or> t > 30)
      then Inl (gw INVALID_COMMAND m_ac_bad_temp)
      else if nc_action c = ''setFanSpeed'' \<and> \<not> in_opt (nc_fan c) VALID_FAN_SPEEDS
      then Inl (gw INVALID_COMMAND m_ac_bad_fan)
      else Inr ())"

datatype adapter = GenericAdapter | HaierSimAdapter | GreeSimAdapter | MideaSimAdapter

definition str_or_empty :: "string option \<Rightarrow> string" where
  \<comment> \<open>\<open>x or ''\<close>\<close>
  "str_or_empty x = (case x of None \<Rightarrow> [] | Some s \<Rightarrow> s)"

definition int_or_empty :: "int option \<Rightarrow> string" where
  "int_or_empty x = (case x of None \<Rightarrow> [] | Some i \<Rightarrow> if i = 0 then [] else show_int i)"

definition truthy :: "bool option \<Rightarrow> bool" where
  "truthy x = (x = Some True)"

definition ac_frame_of :: "adapter \<Rightarrow> ac_command \<Rightarrow> string" where
  "ac_frame_of ad c =
     (let mode = str_or_empty (nc_mode c); temp = int_or_empty (nc_temperature c);
          fan = str_or_empty (nc_fan c) in
      case ad of
        GenericAdapter \<Rightarrow> ''GENERIC_SIM|'' @ nc_action c @ ''|'' @ mode @ ''|'' @ temp @ ''|'' @ fan
      | HaierSimAdapter \<Rightarrow> ''HAIER_SIM|POWER='' @ (if truthy (nc_power c) then ''ON'' else ''OFF'')
          @ ''|MODE='' @ mode @ ''|TEMP='' @ temp @ ''|FAN='' @ fan
      | GreeSimAdapter \<Rightarrow> ''GREE_SIM|PWR:'' @ (if truthy (nc_power c) then ''1'' else ''0'')
          @ ''|MODE:'' @ mode @ ''|T:'' @ temp @ ''|FAN:'' @ fan
      | MideaSimAdapter \<Rightarrow> ''MIDEA_SIM|'' @ (if truthy (nc_power c) then ''ON'' else ''OFF'') @ '';''
          @ mode @ '';'' @ temp @ '';'' @ fan)"

definition ac_encode :: "adapter \<Rightarrow> ac_command \<Rightarrow> gateway_error + string" where
  "ac_encode ad c = (case ac_validate c of Inl e \<Rightarrow> Inl e | Inr _ \<Rightarrow> Inr (ac_frame_of ad c))"

definition ADAPTERS :: "(string, adapter) dict" where
  "ADAPTERS = [(''generic'', GenericAdapter), (''haierSim'', HaierSimAdapter),
     (''greeSim'', GreeSimAdapter), (''mideaSim'', MideaSimAdapter)]"

definition get_adapter :: "string \<Rightarrow> gateway_error + adapter" where
  "get_adapter brand = (case dict_get ADAPTERS brand of
       None \<Rightarrow> Inl (gw INVALID_COMMAND m_unknown_brand) | Some ad \<Rightarrow> Inr ad)"

lemma get_adapter_known: "brand \<in> set (dict_keys ADAPTERS) \<Longrightarrow> \<exists>ad. get_adapter brand = Inr ad"
  by (auto simp: get_adapter_def dict_get_None_iff split: option.split)

lemma ac_encode_error: "ac_encode ad c = Inl e \<Longrightarrow> err_code e = INVALID_COMMAND"
  by (auto simp: ac_encode_def ac_validate_def split: sum.splits if_splits)

lemma ac_encode_Inr: "ac_encode ad c = Inr f \<longleftrightarrow> ac_validate c = Inr () \<and> f = ac_frame_of ad c"
  by (auto simp: ac_encode_def split: sum.splits)

end
