(* ===== verification/DeviceBase.thy ===== *)
theory DeviceBase
  imports Storage Adapters
begin

text \<open>
  The common part of \<open>drivers.py\<close>: what a device is, what a driver is, and the contract
  between the registry and its drivers.

  A device of the program is a dictionary whose keys are fixed by its family. Here it is
  a record of the common keys with one record per family in \<open>dev_body\<close>; \<open>device_items\<close>
  renders it back to the dictionary, key for key in the code's order, keys that the code
  starts with an underscore included. A driver is a record of the methods of the abstract
  class \<open>DeviceDriver\<close>. \<open>world\<close> holds what one driver call reads from the platform:
  \<open>time.time()\<close>, the ISO time stamp, \<open>math.sin\<close> and the two random samples.
\<close>

section \<open>Readings of the platform\<close>

record world =
  w_time :: rat
  w_iso :: string
  w_sin :: "rat \<Rightarrow> rat"
  w_rand_t :: rat
  w_rand_h :: rat

definition now_ms :: "world \<Rightarrow> int" where
  "now_ms w = trunc (fmul (w_time w) 1000)"

definition ms_after :: "world \<Rightarrow> int \<Rightarrow> int" where
  \<comment> \<open>\<open>int((time.time() + s) * 1000)\<close>\<close>
  "ms_after w s = trunc (fmul (fadd (w_time w) (of_int s)) 1000)"

lemma ms_after_mono: "0 \<le> s \<Longrightarrow> fl (w_time w) = w_time w \<Longrightarrow> now_ms w \<le> ms_after w s"
proof -
  assume s: "0 \<le> s" and t: "fl (w_time w) = w_time w"
  have "w_time w \<le> fadd (w_time w) (of_int s)"
    using fl_mono [of "w_time w" "w_time w + of_int s"] s t by (simp add: fadd_def)
  then show ?thesis by (simp add: now_ms_def ms_after_def fmul_def trunc_mono fl_mono)
qed

section \<open>Device state\<close>

record automation =
  au_enabled :: bool
  au_threshold :: int
  au_delay :: int
  au_override :: "int option"

record light_state =
  li_power :: bool
  li_brightness :: int
  li_last :: int
  li_auto :: automation
  li_no_presence_since :: "rat option"

record env_state =
  en_temperature :: rat
  en_humidity :: rat
  en_illuminance :: rat
  en_presence :: bool
  en_data_valid :: bool
  en_manual_until :: rat

record ac_state =
  ac_brand :: string
  ac_power :: bool
  ac_mode :: string
  ac_target :: int
  ac_fan :: string
  ac_running :: bool
  ac_frame :: string

record bath_state =
  ba_power :: bool
  ba_mode :: string

record humidifier_state =
  hu_power :: bool
  hu_target :: int

record door_state =
  do_locked :: bool
  do_jammed :: bool
  do_battery :: int
  do_auto_enabled :: bool
  do_auto_delay :: int
  do_auto_at :: "int option"

record curtain_state =
  cu_position :: int
  cu_target :: int
  cu_movement :: string

datatype family =
    Light light_state
  | Environment env_state
  | AirConditioner ac_state
  | BathHeater bath_state
  | Humidifier humidifier_state
  | DoorLock door_state
  | Curtain curtain_state

fun family_type :: "family \<Rightarrow> string" where
  "family_type (Light _) = ''light''"
| "family_type (Environment _) = ''environment''"
| "family_type (AirConditioner _) = ''airConditioner''"
| "family_type (BathHeater _) = ''bathHeater''"
| "family_type (Humidifier _) = ''humidifier''"
| "family_type (DoorLock _) = ''doorLock''"
| "family_type (Curtain _) = ''curtain''"

record device =
  dev_id :: string
  dev_name :: pytext
  dev_room :: string
  dev_type :: string
  dev_online :: bool
  dev_version :: int
  dev_updated :: string
  dev_delay_ms :: int
  dev_fail_next :: bool
  dev_category :: "string option"
  dev_removable :: bool
  dev_reg_caps :: "string list option"
  dev_body :: family

definition base_device :: "string \<Rightarrow> pytext \<Rightarrow> string \<Rightarrow> string \<Rightarrow> string \<Rightarrow> family \<Rightarrow> device" where
  "base_device device_id name room_id device_type stamp body =
     \<lparr>dev_id = device_id, dev_name = name, dev_room = room_id, dev_type = device_type,
      dev_online = True, dev_version = 1, dev_updated = stamp, dev_delay_ms = 0,
      dev_fail_next = False, dev_category = None, dev_removable = False, dev_reg_caps = None,
      dev_body = body\<rparr>"

section \<open>The context of a driver call\<close>

record alert_event =
  ae_timestamp :: int
  ae_device :: string
  ae_severity :: string
  ae_code :: string
  ae_description :: pytext

record driver_context =
  cx_storage :: storage
  cx_pending :: "alert_event list"

definition record_alert :: "world \<Rightarrow> string \<Rightarrow> string \<Rightarrow> string \<Rightarrow> pytext \<Rightarrow> driver_context \<Rightarrow> driver_context" where
  "record_alert w device_id severity code description cx =
     (let timestamp = now_ms w
      in cx\<lparr>cx_storage := record_alert_row timestamp device_id severity code description (cx_storage cx),
           cx_pending := cx_pending cx @ [\<lparr>ae_timestamp = timestamp, ae_device = device_id,
             ae_severity = severity, ae_code = code, ae_description = description\<rparr>]\<rparr>)"

definition context_ok :: "driver_context \<Rightarrow> bool" where
  "context_ok cx \<longleftrightarrow> storage_ok (cx_storage cx)"

definition empty_context :: driver_context where
  "empty_context = \<lparr>cx_storage = new_storage, cx_pending = []\<rparr>"

lemma context_ok_alert [keeps, simp]: "context_ok cx \<Longrightarrow> context_ok (record_alert w i s c x cx)"
  by (simp add: context_ok_def record_alert_def Let_def)

lemma alert_context_sel [simp]:
  "st_audit (cx_storage (record_alert w i s c x cx)) = st_audit (cx_storage cx)"
  "st_env (cx_storage (record_alert w i s c x cx)) = st_env (cx_storage cx)"
  by (simp_all add: record_alert_def Let_def)

type_synonym lookup = "string \<Rightarrow> string option \<Rightarrow> device option"

section \<open>Drivers\<close>

record category =
  cat_id :: string
  cat_title :: pytext
  cat_icon :: pytext
  cat_home_only :: bool

record driver =
  dr_type :: string
  dr_priority :: int
  dr_requires_category :: bool
  dr_categories :: "category list"
  dr_devices :: "string \<Rightarrow> device list"
  dr_execute :: "world \<Rightarrow> device \<Rightarrow> string \<Rightarrow> payload \<Rightarrow> driver_context \<Rightarrow> (unit, device \<times> driver_context) outcome"
  dr_attest :: "string \<Rightarrow> string \<Rightarrow> pytext \<Rightarrow> string \<Rightarrow> string \<Rightarrow> string list \<Rightarrow> exn + device"
  dr_tick :: "world \<Rightarrow> lookup \<Rightarrow> device \<Rightarrow> driver_context \<Rightarrow> (bool, device \<times> driver_context) outcome"

text \<open>The methods of the base class, which a family may leave as they are.\<close>

definition no_execute :: "world \<Rightarrow> device \<Rightarrow> string \<Rightarrow> payload \<Rightarrow> driver_context \<Rightarrow> (unit, device \<times> driver_context) outcome" where
  "no_execute w d action p cx = (Inl (invalid m_no_commands), d, cx)"

definition no_attest :: "string \<Rightarrow> string \<Rightarrow> pytext \<Rightarrow> string \<Rightarrow> string \<Rightarrow> string list \<Rightarrow> exn + device" where
  "no_attest stamp device_id name room_id category_id capabilities = Inl (invalid m_no_attest)"

definition no_tick :: "world \<Rightarrow> lookup \<Rightarrow> device \<Rightarrow> driver_context \<Rightarrow> (bool, device \<times> driver_context) outcome" where
  "no_tick w look d cx = (Inr False, d, cx)"

section \<open>Well-formed devices\<close>

definition light_ok :: "light_state \<Rightarrow> bool" where
  "light_ok l \<longleftrightarrow> 0 \<le> li_brightness l \<and> li_brightness l \<le> 100 \<and> 1 \<le> li_last l \<and> li_last l \<le> 100
     \<and> (li_power l \<longrightarrow> 0 < li_brightness l)
     \<and> 10 \<le> au_threshold (li_auto l) \<and> au_threshold (li_auto l) \<le> 500
     \<and> 5 \<le> au_delay (li_auto l) \<and> au_delay (li_auto l) \<le> 600"

definition env_ok :: "env_state \<Rightarrow> bool" where
  "env_ok e \<longleftrightarrow> 0 \<le> en_humidity e \<and> en_humidity e \<le> 100 \<and> 0 \<le> en_illuminance e"



definition ac_ok :: "ac_state \<Rightarrow> bool" where
  "ac_ok a \<longleftrightarrow> ac_brand a \<in> set (dict_keys ADAPTERS) \<and> ac_running a = ac_power a"

definition bath_ok :: "bath_state \<Rightarrow> bool" where
  "bath_ok b \<longleftrightarrow> ba_mode b \<in> {''warm'', ''ventilate'', ''dry''}"

definition humidifier_ok :: "humidifier_state \<Rightarrow> bool" where
  "humidifier_ok h \<longleftrightarrow> 35 \<le> hu_target h \<and> hu_target h \<le> 75"

definition door_ok :: "door_state \<Rightarrow> bool" where
  "door_ok d \<longleftrightarrow> 5 \<le> do_auto_delay d \<and> do_auto_delay d \<le> 60 \<and> 0 \<le> do_battery d \<and> do_battery d \<le> 100
     \<and> (do_auto_at d \<noteq> None \<longrightarrow> \<not> do_locked d \<and> do_auto_enabled d)"

definition heading :: "int \<Rightarrow> int \<Rightarrow> string" where
  "heading target current =
     (if target > current then ''opening'' else if target < current then ''closing'' else ''stopped'')"

definition curtain_ok :: "curtain_state \<Rightarrow> bool" where
  "curtain_ok c \<longleftrightarrow> 0 \<le> cu_position c \<and> cu_position c \<le> 100 \<and> 0 \<le> cu_target c \<and> cu_target c \<le> 100
     \<and> cu_movement c = heading (cu_target c) (cu_position c)"

fun family_ok :: "family \<Rightarrow> bool" where
  "family_ok (Light l) = light_ok l"
| "family_ok (Environment e) = env_ok e"
| "family_ok (AirConditioner a) = ac_ok a"
| "family_ok (BathHeater b) = bath_ok b"
| "family_ok (Humidifier h) = humidifier_ok h"
| "family_ok (DoorLock d) = door_ok d"
| "family_ok (Curtain c) = curtain_ok c"

definition device_ok :: "device \<Rightarrow> bool" where
  "device_ok d \<longleftrightarrow> dev_type d = family_type (dev_body d) \<and> family_ok (dev_body d)"

text \<open>What a snapshot shows of a family: everything but the keys with an underscore.\<close>

fun public_body :: "family \<Rightarrow> family" where
  "public_body (Light l) = Light (l\<lparr>li_no_presence_since := None\<rparr>)"
| "public_body (Environment e) = Environment (e\<lparr>en_manual_until := 0\<rparr>)"
| "public_body b = b"

definition lookup_ok :: "lookup \<Rightarrow> bool" where
  "lookup_ok look \<longleftrightarrow> (\<forall>t room d. look t room = Some d \<longrightarrow> dev_type d = t \<and> device_ok d)"

definition world_ok :: "world \<Rightarrow> bool" where
  \<comment> \<open>what the platform promises: clock readings are doubles, \<open>sin\<close> stays in \<open>[-1, 1]\<close>,
     \<open>random.uniform(a, b)\<close> in \<open>[a, b]\<close>\<close>
  "world_ok w \<longleftrightarrow> fl (w_time w) = w_time w \<and> 0 \<le> w_time w \<and> (\<forall>x. - 1 \<le> w_sin w x \<and> w_sin w x \<le> 1)
     \<and> \<bar>w_rand_t w\<bar> \<le> 1 / 50 \<and> \<bar>w_rand_h w\<bar> \<le> 1 / 20"

lemmas family_simps = light_ok_def env_ok_def ac_ok_def bath_ok_def humidifier_ok_def door_ok_def
  curtain_ok_def

text \<open>The type of a well-formed device tells its family.\<close>

lemma device_ok_body:
  assumes "device_ok d"
  shows "dev_type d = ''light'' \<Longrightarrow> \<exists>x. dev_body d = Light x \<and> light_ok x"
    "dev_type d = ''environment'' \<Longrightarrow> \<exists>x. dev_body d = Environment x \<and> env_ok x"
    "dev_type d = ''airConditioner'' \<Longrightarrow> \<exists>x. dev_body d = AirConditioner x \<and> ac_ok x"
    "dev_type d = ''bathHeater'' \<Longrightarrow> \<exists>x. dev_body d = BathHeater x \<and> bath_ok x"
    "dev_type d = ''humidifier'' \<Longrightarrow> \<exists>x. dev_body d = Humidifier x \<and> humidifier_ok x"
    "dev_type d = ''doorLock'' \<Longrightarrow> \<exists>x. dev_body d = DoorLock x \<and> door_ok x"
    "dev_type d = ''curtain'' \<Longrightarrow> \<exists>x. dev_body d = Curtain x \<and> curtain_ok x"
  using assms by (cases "dev_body d"; simp add: device_ok_def)+

lemma device_ok_set_body [simp]:
  "device_ok (d\<lparr>dev_body := b\<rparr>) \<longleftrightarrow> dev_type d = family_type b \<and> family_ok b"
  by (simp add: device_ok_def)

lemma dev_body_same [simp]: "dev_body d = b \<Longrightarrow> d\<lparr>dev_body := b\<rparr> = d"
  by (cases d) simp

section \<open>The contract between the registry and a driver\<close>

text \<open>
  The registry hands a device of the driver's type to the driver. The driver may write
  the family part of it and nothing else, keeps the family's invariant even when it
  raises, never writes the audit log while it executes a command, and reports a command
  error as \<open>INVALID_COMMAND\<close> or \<open>INTERNAL_ERROR\<close>; only the conversion of a NaN escapes
  as a \<open>ValueError\<close>. A tick raises nothing but the \<open>OverflowError\<close> of \<open>float(i)\<close>, and what
  it does not announce is not visible in a snapshot.
\<close>

locale driver_exec =
  fixes D :: driver
  assumes exec_frame:
      "device_ok d \<Longrightarrow> dev_type d = dr_type D \<Longrightarrow> dr_execute D w d a p cx = (r, d', cx') \<Longrightarrow>
       d' = d\<lparr>dev_body := dev_body d'\<rparr> \<and> device_ok d'"
    and exec_context:
      "device_ok d \<Longrightarrow> dev_type d = dr_type D \<Longrightarrow> context_ok cx \<Longrightarrow>
       dr_execute D w d a p cx = (r, d', cx') \<Longrightarrow>
       context_ok cx' \<and> st_audit (cx_storage cx') = st_audit (cx_storage cx)"
    and exec_errors:
      "device_ok d \<Longrightarrow> dev_type d = dr_type D \<Longrightarrow> dr_execute D w d a p cx = (Inl e, d', cx') \<Longrightarrow>
       (\<exists>g. e = Gateway g \<and> err_code g \<in> {INVALID_COMMAND, INTERNAL_ERROR}) \<or> e = Raised ValueError"
begin

lemma exec_identity:
  assumes "device_ok d" "dev_type d = dr_type D" "dr_execute D w d a p cx = (r, d', cx')"
  shows "dev_id d' = dev_id d \<and> dev_type d' = dev_type d \<and> dev_version d' = dev_version d
    \<and> dev_category d' = dev_category d \<and> dev_room d' = dev_room d \<and> dev_online d' = dev_online d"
proof -
  have "d' = d\<lparr>dev_body := dev_body d'\<rparr>" using exec_frame assms by blast
  then obtain b where "d' = d\<lparr>dev_body := b\<rparr>" by blast
  then show ?thesis by simp
qed

end

locale driver_tick =
  fixes D :: driver
  assumes tick_frame:
      "device_ok d \<Longrightarrow> dev_type d = dr_type D \<Longrightarrow> world_ok w \<Longrightarrow> lookup_ok look \<Longrightarrow>
       dr_tick D w look d cx = (q, d', cx') \<Longrightarrow>
       d' = d\<lparr>dev_body := dev_body d'\<rparr> \<and> device_ok d'
       \<and> ((\<exists>changed. q = Inr changed) \<or> q = Inl (Raised OverflowError))"
    and tick_silent:
      "device_ok d \<Longrightarrow> dev_type d = dr_type D \<Longrightarrow> world_ok w \<Longrightarrow> lookup_ok look \<Longrightarrow>
       dr_tick D w look d cx = (Inr False, d', cx') \<Longrightarrow> public_body (dev_body d') = public_body (dev_body d)"
    and tick_context:
      "device_ok d \<Longrightarrow> dev_type d = dr_type D \<Longrightarrow> context_ok cx \<Longrightarrow>
       dr_tick D w look d cx = (q, d', cx') \<Longrightarrow> context_ok cx' \<and> cx_pending cx' = cx_pending cx"
begin

lemma tick_identity:
  assumes "device_ok d" "dev_type d = dr_type D" "world_ok w" "lookup_ok look"
    "dr_tick D w look d cx = (q, d', cx')"
  shows "dev_id d' = dev_id d \<and> dev_type d' = dev_type d \<and> dev_version d' = dev_version d
    \<and> dev_category d' = dev_category d \<and> dev_room d' = dev_room d \<and> dev_online d' = dev_online d"
proof -
  have "d' = d\<lparr>dev_body := dev_body d'\<rparr>" using tick_frame assms by blast
  then obtain b where "d' = d\<lparr>dev_body := b\<rparr>" by blast
  then show ?thesis by simp
qed

end

locale driver_make =
  fixes D :: driver
  assumes created:
      "d \<in> set (dr_devices D stamp) \<Longrightarrow> device_ok d \<and> dev_type d = dr_type D"
    and attested:
      "dr_attest D stamp i n room cat caps = Inr d \<Longrightarrow>
       device_ok d \<and> dev_id d = i \<and> dev_name d = n \<and> dev_room d = room \<and> dev_type d = dr_type D
       \<and> dev_category d = Some cat \<and> dev_online d \<and> dev_removable d \<and> dev_version d = 1"
    and attest_again:
      "dr_attest D stamp i n room cat caps = Inr d \<Longrightarrow> \<exists>d'. dr_attest D stamp' i n room cat caps = Inr d'"

locale device_driver = driver_exec D + driver_tick D + driver_make D for D

text \<open>A driver that validates before it writes leaves the device alone when it refuses.\<close>

locale atomic_driver = device_driver D for D +
  assumes rejected_unchanged:
    "device_ok d \<Longrightarrow> dev_type d = dr_type D \<Longrightarrow> dr_execute D w d a p cx = (Inl e, d', cx') \<Longrightarrow> d' = d"

text \<open>
  Most families execute a command on their own keys alone. For them the contract follows
  from a fact about the step on the family's state.
\<close>

locale stepped_driver =
  fixes D :: driver
    and inj :: "'s \<Rightarrow> family"
    and step :: "world \<Rightarrow> 's \<Rightarrow> string \<Rightarrow> payload \<Rightarrow> (exn + unit) \<times> 's"
    and good :: "'s \<Rightarrow> bool"
  assumes family_state: "device_ok d \<Longrightarrow> dev_type d = dr_type D \<Longrightarrow> \<exists>s. dev_body d = inj s \<and> good s"
    and state_family: "good s \<Longrightarrow> family_type (inj s) = dr_type D \<and> family_ok (inj s)"
    and execute_step: "dev_body d = inj s \<Longrightarrow> step w s a p = (r, s') \<Longrightarrow>
      dr_execute D w d a p cx = (r, d\<lparr>dev_body := inj s'\<rparr>, cx)"
    and step_good: "good s \<Longrightarrow> step w s a p = (r, s') \<Longrightarrow> good s'"
    and step_errors: "good s \<Longrightarrow> step w s a p = (Inl e, s') \<Longrightarrow>
      (\<exists>g. e = Gateway g \<and> err_code g \<in> {INVALID_COMMAND, INTERNAL_ERROR}) \<or> e = Raised ValueError"
begin

lemma executed:
  assumes "device_ok d" "dev_type d = dr_type D" "dr_execute D w d a p cx = (r, d', cx')"
  obtains s s' where "dev_body d = inj s" "good s" "step w s a p = (r, s')" "good s'"
    "d' = d\<lparr>dev_body := inj s'\<rparr>" "cx' = cx"
proof -
  obtain s where s: "dev_body d = inj s" "good s" using family_state assms(1,2) by blast
  obtain r1 s1 where st: "step w s a p = (r1, s1)" by (cases "step w s a p")
  from execute_step [OF s(1) st, of cx] assms(3) that s st step_good [OF s(2) st] show ?thesis by simp
qed

sublocale driver_exec D
proof
  fix d w a p cx r d' cx'
  assume d: "device_ok d" "dev_type d = dr_type D" "dr_execute D w d a p cx = (r, d', cx')"
  then show "d' = d\<lparr>dev_body := dev_body d'\<rparr> \<and> device_ok d'"
    by (rule executed) (use d(2) in \<open>auto simp: state_family\<close>)
next
  fix d w a p cx r d' cx'
  assume "device_ok d" "dev_type d = dr_type D" "context_ok cx" "dr_execute D w d a p cx = (r, d', cx')"
  then show "context_ok cx' \<and> st_audit (cx_storage cx') = st_audit (cx_storage cx)"
    by (auto elim: executed)
next
  fix d w a p cx e d' cx'
  assume "device_ok d" "dev_type d = dr_type D" "dr_execute D w d a p cx = (Inl e, d', cx')"
  then show "(\<exists>g. e = Gateway g \<and> err_code g \<in> {INVALID_COMMAND, INTERNAL_ERROR}) \<or> e = Raised ValueError"
    by (rule executed) (rule step_errors)
qed

lemma refused_unchanged:
  assumes "\<And>s w a p e s'. good s \<Longrightarrow> step w s a p = (Inl e, s') \<Longrightarrow> s' = s"
    and "device_ok d" "dev_type d = dr_type D" "dr_execute D w d a p cx = (Inl e, d', cx')"
  shows "d' = d"
  using assms(2-) by (rule executed) (metis assms(1) dev_body_same)

end

text \<open>A family without a tick of its own.\<close>

locale idle_driver =
  fixes D :: driver
  assumes idle: "dr_tick D = no_tick"
begin

sublocale driver_tick D
  by unfold_locales (auto simp: idle no_tick_def)

end

end
