(* ===== verification/Lights.thy ===== *)
theory Lights
  imports DeviceBase
begin

text \<open>
  \<open>LightDriver\<close> of \<open>drivers.py\<close>: a lamp with power, brightness and an automation that
  follows the presence and illuminance of the sensor in the same room. \<open>light_step\<close> is
  the body of \<open>execute\<close> on the lamp's own keys, \<open>light_auto\<close> the body of \<open>tick\<close> once the
  sensor is found.
\<close>

section \<open>The driver\<close>

definition light_categories :: "category list" where
  "light_categories = [\<lparr>cat_id = ''lighting'', cat_title = t_lighting, cat_icon = t_icon_light,
     cat_home_only = False\<rparr>]"

definition make_light :: "string \<Rightarrow> string \<Rightarrow> pytext \<Rightarrow> string \<Rightarrow> int \<Rightarrow> device" where
  "make_light stamp device_id name room_id brightness =
     (base_device device_id name room_id ''light'' stamp
       (Light \<lparr>li_power = False, li_brightness = brightness, li_last = brightness,
          li_auto = \<lparr>au_enabled = False, au_threshold = 100, au_delay = 60, au_override = None\<rparr>,
          li_no_presence_since = None\<rparr>))\<lparr>dev_category := Some ''lighting''\<rparr>"

definition light_devices :: "string \<Rightarrow> device list" where
  "light_devices stamp =
     [make_light stamp ''light-living-01'' t_light_living ''living'' 60,
      make_light stamp ''light-master-01'' t_light_master ''masterBedroom'' 60,
      make_light stamp ''light-bedroom-01'' t_light_bedroom ''bedroom'' 50]"

definition light_capabilities :: "string set" where
  "light_capabilities = {''setPower'', ''setBrightness'', ''setAutomationConfig''}"

definition light_attest :: "string \<Rightarrow> string \<Rightarrow> pytext \<Rightarrow> string \<Rightarrow> string \<Rightarrow> string list \<Rightarrow> exn + device" where
  "light_attest stamp device_id name room_id category_id capabilities =
     (if category_id \<noteq> ''lighting'' \<or> set capabilities \<noteq> light_capabilities
      then Inl (invalid m_light_decl)
      else Inr ((make_light stamp device_id name room_id 60)\<lparr>dev_removable := True\<rparr>))"

definition set_override :: "world \<Rightarrow> light_state \<Rightarrow> light_state" where
  "set_override w l = l\<lparr>li_auto := (li_auto l)\<lparr>au_override := Some (ms_after w 300)\<rparr>\<rparr>"

definition light_power :: "world \<Rightarrow> light_state \<Rightarrow> payload \<Rightarrow> (exn + unit) \<times> light_state" where
  "light_power w l p = (case py_get p ''power'' of
       PBool pw \<Rightarrow>
         (let l1 = l\<lparr>li_power := pw\<rparr>;
              l2 = (if pw \<and> li_brightness l1 = 0
                    then l1\<lparr>li_brightness := max 1 (li_last l1)\<rparr> else l1)
          in (Inr (), set_override w l2))
     | _ \<Rightarrow> (Inl (invalid m_light_power), l))"

definition light_brightness :: "world \<Rightarrow> light_state \<Rightarrow> payload \<Rightarrow> (exn + unit) \<times> light_state" where
  "light_brightness w l p = (let brightness = py_get p ''brightness'' in
     if \<not> num_in brightness 0 100 then (Inl (invalid m_light_brightness), l)
     else case py_int brightness of Inl x \<Rightarrow> (Inl (Raised x), l)
       | Inr value \<Rightarrow>
           (let l1 = l\<lparr>li_brightness := value, li_power := value > 0\<rparr>;
                l2 = (if value > 0 then l1\<lparr>li_last := value\<rparr> else l1)
            in (Inr (), set_override w l2)))"

definition light_config :: "light_state \<Rightarrow> payload \<Rightarrow> (exn + unit) \<times> light_state" where
  "light_config l p = (let threshold = py_get p ''illuminanceThresholdLux'';
         delay = py_get p ''noPresenceDelaySeconds'' in
     case py_get p ''enabled'' of
       PBool enabled \<Rightarrow>
         if \<not> num_in threshold 10 500 then (Inl (invalid m_light_threshold), l)
         else if \<not> num_in delay 5 600 then (Inl (invalid m_light_delay), l)
         else (case py_int threshold of Inl x \<Rightarrow> (Inl (Raised x), l) | Inr t \<Rightarrow>
               case py_int delay of Inl x \<Rightarrow> (Inl (Raised x), l) | Inr s \<Rightarrow>
                 (Inr (), l\<lparr>li_auto := \<lparr>au_enabled = enabled, au_threshold = t, au_delay = s,
                    au_override = None\<rparr>, li_no_presence_since := None\<rparr>))
     | _ \<Rightarrow> (Inl (invalid m_light_auto), l))"

definition light_step :: "world \<Rightarrow> light_state \<Rightarrow> string \<Rightarrow> payload \<Rightarrow> (exn + unit) \<times> light_state" where
  "light_step w l action p =
     (if action = ''setPower'' then light_power w l p
      else if action = ''setBrightness'' then light_brightness w l p
      else if action = ''setAutomationConfig'' then light_config l p
      else (Inl (invalid m_light_action), l))"

definition light_execute ::
  "world \<Rightarrow> device \<Rightarrow> string \<Rightarrow> payload \<Rightarrow> driver_context \<Rightarrow> (unit, device \<times> driver_context) outcome" where
  "light_execute w d action p cx = (case dev_body d of
       Light l \<Rightarrow> (case light_step w l action p of (r, l') \<Rightarrow> (r, d\<lparr>dev_body := Light l'\<rparr>, cx))
     | _ \<Rightarrow> (Inl (Raised KeyError), d, cx))"

definition light_auto :: "world \<Rightarrow> light_state \<Rightarrow> env_state \<Rightarrow> bool \<times> light_state" where
  "light_auto w l e = (let au = li_auto l in
     if (case au_override au of None \<Rightarrow> False | Some u \<Rightarrow> now_ms w < u) then (False, l)
     else if en_presence e \<and> en_illuminance e < of_int (au_threshold au) then
       (let l1 = l\<lparr>li_no_presence_since := None\<rparr> in
        if \<not> li_power l1 then (True, l1\<lparr>li_power := True, li_brightness := max 1 (li_last l1)\<rparr>)
        else (False, l1))
     else if \<not> en_presence e then
       (case li_no_presence_since l of
          None \<Rightarrow> (False, l\<lparr>li_no_presence_since := Some (w_time w)\<rparr>)
        | Some since \<Rightarrow>
            if li_power l \<and> fsub (w_time w) since \<ge> of_int (au_delay au)
            then (True, l\<lparr>li_power := False\<rparr>) else (False, l))
     else (False, l))"

definition light_tick :: "world \<Rightarrow> lookup \<Rightarrow> device \<Rightarrow> driver_context \<Rightarrow> (bool, device \<times> driver_context) outcome" where
  "light_tick w look d cx = (case dev_body d of
       Light l \<Rightarrow>
         if \<not> dev_online d \<or> \<not> au_enabled (li_auto l) then (Inr False, d, cx)
         else (case look ''environment'' (Some (dev_room d)) of
             None \<Rightarrow> (Inr False, d, cx)
           | Some env \<Rightarrow>
               if \<not> dev_online env then (Inr False, d, cx)
               else (case dev_body env of
                   Environment e \<Rightarrow>
                     (case light_auto w l e of (changed, l') \<Rightarrow> (Inr changed, d\<lparr>dev_body := Light l'\<rparr>, cx))
                 | _ \<Rightarrow> (Inl (Raised KeyError), d, cx)))
     | _ \<Rightarrow> (Inl (Raised KeyError), d, cx))"

definition light_driver :: driver where
  "light_driver = \<lparr>dr_type = ''light'', dr_priority = 30, dr_requires_category = True,
     dr_categories = light_categories, dr_devices = light_devices, dr_execute = light_execute,
     dr_attest = light_attest, dr_tick = light_tick\<rparr>"

section \<open>The lamp\<close>

lemma light_auto_ok: "light_ok l \<Longrightarrow> light_ok (snd (light_auto w l e))"
  by (auto simp: light_auto_def light_ok_def Let_def split: option.splits)

lemma light_auto_silent:
  "light_auto w l e = (False, l') \<Longrightarrow> l'\<lparr>li_no_presence_since := None\<rparr> = l\<lparr>li_no_presence_since := None\<rparr>"
  by (auto simp: light_auto_def Let_def split: if_splits option.splits)

lemma light_power_cases:
  assumes "light_power w l p = (r, l')" "light_ok l"
  shows "light_ok l' \<and> (r = Inr () \<or> (\<exists>m. r = Inl (invalid m)) \<and> l' = l)"
  using assms by (auto simp: light_power_def set_override_def light_ok_def Let_def max_def
      split: pyval.splits if_splits)

lemma light_brightness_cases:
  assumes "light_brightness w l p = (r, l')" "light_ok l"
  shows "light_ok l' \<and> (r = Inr () \<or> ((\<exists>m. r = Inl (invalid m)) \<or> r = Inl (Raised ValueError)) \<and> l' = l)"
proof (cases "num_in (py_get p ''brightness'') 0 100")
  case True
  with py_int_in [OF True] show ?thesis using assms
    by (auto simp: light_brightness_def set_override_def light_ok_def Let_def)
next
  case False
  with assms show ?thesis by (auto simp: light_brightness_def Let_def)
qed

lemma light_config_cases:
  assumes "light_config l p = (r, l')" "light_ok l"
  shows "light_ok l' \<and> (r = Inr () \<or> ((\<exists>m. r = Inl (invalid m)) \<or> r = Inl (Raised ValueError)) \<and> l' = l)"
proof (cases "num_in (py_get p ''illuminanceThresholdLux'') 10 500
    \<and> num_in (py_get p ''noPresenceDelaySeconds'') 5 600")
  case True
  then show ?thesis
    using assms py_int_in [of "py_get p ''illuminanceThresholdLux''" 10 500]
      py_int_in [of "py_get p ''noPresenceDelaySeconds''" 5 600]
    by (auto simp: light_config_def light_ok_def Let_def split: pyval.splits)
next
  case False
  with assms show ?thesis
    by (auto simp: light_config_def Let_def split: pyval.splits if_splits)
qed

lemma light_step_cases:
  assumes "light_step w l a p = (r, l')" "light_ok l"
  shows "light_ok l' \<and> (r = Inr () \<or> ((\<exists>m. r = Inl (invalid m)) \<or> r = Inl (Raised ValueError)) \<and> l' = l)"
  using assms light_power_cases light_brightness_cases light_config_cases
  unfolding light_step_def by (metis Pair_inject)

lemma make_light_ok: "1 \<le> b \<Longrightarrow> b \<le> 100 \<Longrightarrow> device_ok (make_light stamp i n r b)"
  by (simp add: make_light_def base_device_def device_ok_def light_ok_def)

lemma make_light_sel [simp]:
  "dev_type (make_light stamp i n r b) = ''light''" "dev_id (make_light stamp i n r b) = i"
  "dev_name (make_light stamp i n r b) = n" "dev_room (make_light stamp i n r b) = r"
  "dev_online (make_light stamp i n r b)" "dev_version (make_light stamp i n r b) = 1"
  "dev_category (make_light stamp i n r b) = Some ''lighting''"
  "\<not> dev_removable (make_light stamp i n r b)" "dev_reg_caps (make_light stamp i n r b) = None"
  by (simp_all add: make_light_def base_device_def)

lemma light_driver_sel [simp]:
  "dr_type light_driver = ''light''" "dr_execute light_driver = light_execute"
  "dr_tick light_driver = light_tick" "dr_attest light_driver = light_attest"
  "dr_devices light_driver = light_devices" "dr_categories light_driver = light_categories"
  "dr_requires_category light_driver = True" "dr_priority light_driver = 30"
  by (simp_all add: light_driver_def)

section \<open>The driver keeps its contract\<close>

lemma light_tick_body:
  assumes "dev_body d = Light l" "lookup_ok look" "light_tick w look d cx = (q, d', cx')"
  shows "cx' = cx \<and> (q = Inr False \<and> d' = d \<or>
    (\<exists>e changed l'. light_auto w l e = (changed, l') \<and> q = Inr changed \<and> d' = d\<lparr>dev_body := Light l'\<rparr>))"
proof (cases "look ''environment'' (Some (dev_room d))")
  case None
  then show ?thesis using assms(1,3) by (simp add: light_tick_def split: if_splits)
next
  case (Some env)
  with assms(2) have "device_ok env" "dev_type env = ''environment''" by (simp_all add: lookup_ok_def)
  then obtain e where e: "dev_body env = Environment e" using device_ok_body(2) by blast
  obtain changed l' where "light_auto w l e = (changed, l')" by (cases "light_auto w l e")
  then show ?thesis using assms(1,3) Some e by (auto simp: light_tick_def split: if_split_asm)
qed

interpretation light_steps: stepped_driver light_driver Light light_step light_ok
proof (unfold_locales, goal_cases)
  case (1 d)
  then show ?case using device_ok_body(1) by simp
next
  case (5 s w a p e s')
  then show ?case by (auto dest!: light_step_cases simp: invalid_def)
qed (auto simp: light_execute_def dest: light_step_cases)

interpretation light_ticks: driver_tick light_driver
proof (unfold_locales, goal_cases)
  case (1 d w look cx q d' cx')
  then obtain l where l: "dev_body d = Light l" "light_ok l" using device_ok_body(1) by auto
  have t: "light_tick w look d cx = (q, d', cx')" using 1(5) by simp
  have "family_ok (Light l')" if "light_auto w l e = (c, l')" for c l' e
    using light_auto_ok [OF l(2), of w e] that by simp
  with light_tick_body [OF l(1) 1(4) t] 1 show ?case by auto
next
  case (2 d w look cx d' cx')
  then obtain l where l: "dev_body d = Light l" using device_ok_body(1) by auto
  have t: "light_tick w look d cx = (Inr False, d', cx')" using 2(5) by simp
  from light_tick_body [OF l 2(4) t] l show ?case by (auto dest: light_auto_silent)
next
  case (3 d cx w look q d' cx')
  then show ?case
    by (auto simp: light_tick_def split: family.splits if_splits option.splits prod.splits)
qed

interpretation light_makes: driver_make light_driver
proof (unfold_locales, goal_cases)
  case (1 d stamp)
  then consider "d = make_light stamp ''light-living-01'' t_light_living ''living'' 60"
    | "d = make_light stamp ''light-master-01'' t_light_master ''masterBedroom'' 60"
    | "d = make_light stamp ''light-bedroom-01'' t_light_bedroom ''bedroom'' 50"
    unfolding light_driver_sel light_devices_def by fastforce
  then show ?case by cases (simp_all add: make_light_ok)
next
  case (2 stamp i n room cat caps d)
  then show ?case
    by (auto simp: light_attest_def make_light_def base_device_def device_ok_def light_ok_def
        split: if_split_asm)
next
  case (3 stamp i n room cat caps d stamp')
  then show ?case by (auto simp: light_attest_def split: if_split_asm)
qed

interpretation light_contract: atomic_driver light_driver
  by unfold_locales (rule light_steps.refused_unchanged, auto dest: light_step_cases)

section \<open>Properties\<close>

fun light_run :: "light_state \<Rightarrow> (world \<times> string \<times> payload) list \<Rightarrow> light_state" where
  "light_run l [] = l"
| "light_run l ((w, a, p) # cs) = light_run (snd (light_step w l a p)) cs"

definition dimming :: "(world \<times> string \<times> payload) \<Rightarrow> bool" where
  \<comment> \<open>the commands that switch the lamp or dim it to zero\<close>
  "dimming c = (case c of (w, a, p) \<Rightarrow> a = ''setPower'' \<or>
     a = ''setBrightness'' \<and> py_get p ''brightness'' = PInt 0)"

lemma dimming_keeps_last:
  assumes "dimming (w, a, p)" "li_last l = n" "li_brightness l \<in> {0, n}" "1 \<le> n"
  shows "li_last (snd (light_step w l a p)) = n \<and> li_brightness (snd (light_step w l a p)) \<in> {0, n}"
proof (cases "a = ''setPower''")
  case True
  then have "light_step w l a p = light_power w l p" by (simp add: light_step_def)
  then show ?thesis using assms(2-)
    by (cases "py_get p ''power''") (auto simp: light_power_def set_override_def Let_def)
next
  case False
  with assms(1) have "py_get p ''brightness'' = PInt 0" "light_step w l a p = light_brightness w l p"
    by (simp_all add: dimming_def light_step_def)
  then show ?thesis using assms(2-)
    by (simp add: light_brightness_def num_in_def set_override_def Let_def)
qed

lemma dimming_run:
  assumes "\<forall>c \<in> set cs. dimming c" "li_last l = n" "li_brightness l \<in> {0, n}" "1 \<le> n"
  shows "li_last (light_run l cs) = n \<and> li_brightness (light_run l cs) \<in> {0, n}"
  using assms
proof (induction cs arbitrary: l)
  case Nil
  then show ?case by simp
next
  case (Cons c cs)
  obtain w a p where c: "c = (w, a, p)" by (cases c)
  with Cons.prems dimming_keeps_last [of w a p l n]
  have "li_last (snd (light_step w l a p)) = n" "li_brightness (snd (light_step w l a p)) \<in> {0, n}"
    by auto
  with Cons c show ?case by simp
qed

lemma light_run_snoc: "light_run l (cs @ [(w, a, p)]) = snd (light_step w (light_run l cs) a p)"
  by (induction l cs rule: light_run.induct) simp_all

text \<open>A lamp remembers its level. After an accepted \<open>setBrightness n\<close> with \<open>n\<close> from 1
  to 100, any sequence of \<open>setPower\<close> and \<open>setBrightness 0\<close> commands, refused ones included,
  followed by switching on leaves the lamp lit at level \<open>n\<close>.\<close>

lemma light_restores_level:
  assumes "1 \<le> n" "n \<le> 100" "\<forall>c \<in> set cs. dimming c"
  shows "let l' = light_run l (((w, ''setBrightness'', [(''brightness'', PInt n)]) # cs)
               @ [(w', ''setPower'', [(''power'', PBool True)])])
         in li_power l' \<and> li_brightness l' = n"
proof -
  define l1 where "l1 = snd (light_step w l ''setBrightness'' [(''brightness'', PInt n)])"
  have "li_last l1 = n" "li_brightness l1 = n"
    using assms(1,2) by (simp_all add: l1_def light_step_def light_brightness_def num_in_def
        py_get_def set_override_def Let_def)
  with dimming_run [OF assms(3), of l1 n] assms(1)
  have last: "li_last (light_run l1 cs) = n" "li_brightness (light_run l1 cs) \<in> {0, n}" by simp_all
  then show ?thesis using assms(1) unfolding light_run_snoc Let_def
    by (auto simp: l1_def light_step_def light_power_def py_get_def set_override_def Let_def)
qed

definition demo_world :: "rat \<Rightarrow> world" where
  "demo_world t = \<lparr>w_time = t, w_iso = ''2026-01-01T00:00:00+00:00'', w_sin = (\<lambda>x. 0), w_rand_t = 0,
     w_rand_h = 0\<rparr>"

definition demo_light :: light_state where
  "demo_light = \<lparr>li_power = True, li_brightness = 60, li_last = 60,
     li_auto = \<lparr>au_enabled = True, au_threshold = 100, au_delay = 60, au_override = None\<rparr>,
     li_no_presence_since = None\<rparr>"

text \<open>Manual control wins. After an accepted \<open>setPower\<close> or \<open>setBrightness\<close> no tick of
  the automation touches the lamp until the clock has reached the millisecond the code
  computes for 300 seconds later.\<close>

lemma light_manual_override:
  assumes "light_step w l a p = (Inr (), l')" "a = ''setPower'' \<or> a = ''setBrightness''"
    and "dev_body d = Light l'" "lookup_ok look" "now_ms w' < ms_after w 300"
  shows "light_tick w' look d cx = (Inr False, d, cx)"
proof -
  have "au_override (li_auto l') = Some (ms_after w 300)"
    using assms(1,2) by (auto simp: light_step_def light_power_def light_brightness_def
        set_override_def Let_def split: pyval.splits sum.splits if_splits)
  then have auto: "light_auto w' l' e = (False, l')" for e
    using assms(5) by (simp add: light_auto_def)
  have "\<exists>e. dev_body env = Environment e" if "look ''environment'' room = Some env" for env room
    using device_ok_body(2) [of env] assms(4) that by (force simp: lookup_ok_def)
  then show ?thesis
    using assms(3) auto by (fastforce simp: light_tick_def split: option.splits)
qed


definition demo_sensor :: "bool \<Rightarrow> rat \<Rightarrow> env_state" where
  "demo_sensor present lux = \<lparr>en_temperature = 24, en_humidity = 55, en_illuminance = lux,
     en_presence = present, en_data_valid = True, en_manual_until = 0\<rparr>"


text \<open>The absence timer survives a return. A tick that sees somebody in a bright room
  leaves \<open>_noPresenceSince\<close> alone, so when the room empties again the old start counts:
  the lamp goes dark at the first tick, not after the configured delay.\<close>

lemma light_stale_absence:
  assumes "li_power l" "li_no_presence_since l = Some since" "au_override (li_auto l) = None"
    and "en_presence back" "of_int (au_threshold (li_auto l)) \<le> en_illuminance back"
    and "\<not> en_presence gone" "of_int (au_delay (li_auto l)) \<le> fsub (w_time w2) since"
  shows "light_auto w1 l back = (False, l) \<and> light_auto w2 l gone = (True, l\<lparr>li_power := False\<rparr>)"
  using assms by (simp add: light_auto_def Let_def)

end
