(* ===== verification/Sensors.thy ===== *)
theory Sensors
  imports DeviceBase
begin

text \<open>
  \<open>EnvironmentDriver\<close> of \<open>drivers.py\<close>: the simulated room sensor. A tick lets the readings
  drift towards the room's air conditioner (or a slow sine), records a history row while
  the sensor is online and keeps the \<open>dataValid\<close> flag. The arithmetic is the double
  arithmetic of \<open>PyFloat\<close>, operation by operation.
\<close>

section \<open>The driver\<close>

definition env_categories :: "category list" where
  "env_categories = [\<lparr>cat_id = ''environment'', cat_title = t_environment, cat_icon = t_icon_env,
     cat_home_only = False\<rparr>]"

definition make_sensor :: "string \<Rightarrow> string \<Rightarrow> pytext \<Rightarrow> string \<Rightarrow> rat \<Rightarrow> rat \<Rightarrow> rat \<Rightarrow> device" where
  "make_sensor stamp device_id name room_id temperature humidity illuminance =
     (base_device device_id name room_id ''environment'' stamp
       (Environment \<lparr>en_temperature = temperature, en_humidity = humidity,
          en_illuminance = illuminance, en_presence = True, en_data_valid = True,
          en_manual_until = 0\<rparr>))\<lparr>dev_category := Some ''environment''\<rparr>"

definition sensor_devices :: "string \<Rightarrow> device list" where
  "sensor_devices stamp =
     [make_sensor stamp ''env-living-01'' t_env_living ''living'' 24 55 80,
      make_sensor stamp ''env-master-01'' t_env_master ''masterBedroom'' (fl (234 / 10)) 52 130,
      make_sensor stamp ''env-bedroom-01'' t_env_bedroom ''bedroom'' (fl (242 / 10)) 54 95]"

definition sensor_capabilities :: "string set" where
  "sensor_capabilities = {''reportTemperature'', ''reportHumidity'', ''reportIlluminance'', ''reportPresence''}"

definition sensor_attest :: "string \<Rightarrow> string \<Rightarrow> pytext \<Rightarrow> string \<Rightarrow> string \<Rightarrow> string list \<Rightarrow> exn + device" where
  "sensor_attest stamp device_id name room_id category_id capabilities =
     (if category_id \<noteq> ''environment'' \<or> set capabilities \<noteq> sensor_capabilities
      then Inl (invalid m_env_decl)
      else (let sensor = make_sensor stamp device_id name room_id 24 62 95 in
        case dev_body sensor of
          Environment e \<Rightarrow> Inr (sensor\<lparr>dev_body := Environment (e\<lparr>en_presence := False\<rparr>), dev_removable := True\<rparr>)
        | _ \<Rightarrow> Inl (Raised KeyError)))"

definition ac_influence :: "device option \<Rightarrow> rat \<Rightarrow> rat \<Rightarrow> exn + (rat \<times> rat)" where
  \<comment> \<open>the targets after the room's air conditioner has been looked at\<close>
  "ac_influence air_conditioner target_temp target_humidity =
     (case air_conditioner of None \<Rightarrow> Inr (target_temp, target_humidity)
      | Some d \<Rightarrow> (case dev_body d of
          AirConditioner a \<Rightarrow>
            if dev_online d \<and> ac_power a then
              (let humidity = (if ac_mode a = ''dry'' then 50 else target_humidity) in
               if ac_mode a \<in> {''cool'', ''heat'', ''auto''} then
                 (case float_of_int (ac_target a) of
                    None \<Rightarrow> Inl (Raised OverflowError) | Some t \<Rightarrow> Inr (t, humidity))
               else Inr (target_temp, humidity))
            else Inr (target_temp, target_humidity)
        | _ \<Rightarrow> Inl (Raised KeyError)))"

definition approach :: "rat \<Rightarrow> rat \<Rightarrow> rat \<Rightarrow> rat \<Rightarrow> rat" where
  \<comment> \<open>\<open>round(old + (target - old) * rate + noise, 1)\<close>\<close>
  "approach old target rate noise = round1 (fadd (fadd old (fmul (fsub target old) rate)) noise)"

definition sensor_drift :: "world \<Rightarrow> device option \<Rightarrow> env_state \<Rightarrow> exn + env_state" where
  "sensor_drift w air_conditioner e =
     (let now = w_time w;
          phase = fdiv now 180;
          target_temp = fadd 24 (fmul (w_sin w phase) (fl (4 / 10)));
          target_humidity = fadd 55 (fmul (w_sin w (fdiv phase 2)) (3 / 2))
      in case ac_influence air_conditioner target_temp target_humidity of
           Inl x \<Rightarrow> Inl x
         | Inr (tt, th) \<Rightarrow> Inr (e\<lparr>
             en_temperature := approach (en_temperature e) tt (fl (8 / 100)) (w_rand_t w),
             en_humidity := approach (en_humidity e) th (fl (6 / 100)) (w_rand_h w),
             en_illuminance := round1 (max 0 (fadd 120 (fmul (w_sin w (fdiv now 60)) 80)))\<rparr>))"

definition data_valid :: "env_state \<Rightarrow> bool" where
  "data_valid e \<longleftrightarrow> \<not> (en_temperature e < - 10 \<or> en_temperature e > 45
     \<or> en_humidity e < 0 \<or> en_humidity e > 100)"

definition sensor_tick :: "world \<Rightarrow> lookup \<Rightarrow> device \<Rightarrow> driver_context \<Rightarrow> (bool, device \<times> driver_context) outcome" where
  "sensor_tick w look d cx = (case dev_body d of
       Environment e \<Rightarrow>
         (let drifts = dev_online d \<and> w_time w \<ge> en_manual_until e in
          case (if drifts then sensor_drift w (look ''airConditioner'' (Some (dev_room d))) e else Inr e) of
            Inl x \<Rightarrow> (Inl x, d, cx)
          | Inr e1 \<Rightarrow>
              (let cx1 = (if dev_online d
                     then cx\<lparr>cx_storage := record_environment (now_ms w) (dev_id d) (en_temperature e1)
                            (en_humidity e1) (en_illuminance e1) (en_presence e1) (cx_storage cx)\<rparr>
                     else cx);
                   valid = data_valid e1;
                   e2 = (if valid \<noteq> en_data_valid e1 then e1\<lparr>en_data_valid := valid\<rparr> else e1)
               in (Inr (drifts \<or> valid \<noteq> en_data_valid e1), d\<lparr>dev_body := Environment e2\<rparr>, cx1)))
     | _ \<Rightarrow> (Inl (Raised KeyError), d, cx))"

definition sensor_driver :: driver where
  "sensor_driver = \<lparr>dr_type = ''environment'', dr_priority = 10, dr_requires_category = True,
     dr_categories = env_categories, dr_devices = sensor_devices, dr_execute = no_execute,
     dr_attest = sensor_attest, dr_tick = sensor_tick\<rparr>"

lemma sensor_driver_sel [simp]:
  "dr_type sensor_driver = ''environment''" "dr_execute sensor_driver = no_execute"
  "dr_tick sensor_driver = sensor_tick" "dr_attest sensor_driver = sensor_attest"
  "dr_devices sensor_driver = sensor_devices" "dr_categories sensor_driver = env_categories"
  "dr_requires_category sensor_driver = True" "dr_priority sensor_driver = 10"
  by (simp_all add: sensor_driver_def)

section \<open>Bounds of the drift\<close>

lemma fl_near: "\<bar>x\<bar> < 1024 \<Longrightarrow> x - 1 / 1000000 \<le> fl x \<and> fl x \<le> x + 1 / 1000000"
  using fl_error [of x] by linarith

lemma approach_humidity:
  assumes old: "0 \<le> old" "old \<le> 100" and target: "50 \<le> target" "target \<le> 57"
    and noise: "\<bar>noise\<bar> \<le> 1 / 20"
  shows "0 \<le> approach old target (fl (6 / 100)) noise \<and> approach old target (fl (6 / 100)) noise \<le> 100"
proof -
  let ?eps = "1 / 1000000 :: rat"
  define r where "r = fl (6 / 100)"
  have r: "6 / 100 - ?eps \<le> r" "r \<le> 6 / 100 + ?eps" using fl_near [of "6 / 100"] by (simp_all add: r_def)
  define s where "s = fsub target old"
  have s: "target - old - ?eps \<le> s" "s \<le> target - old + ?eps"
    using fl_near [of "target - old"] old target by (simp_all add: s_def fsub_def abs_less_iff)
  have "\<bar>s\<bar> \<le> 101" "\<bar>r - 6 / 100\<bar> \<le> ?eps" unfolding abs_le_iff using r s old target by linarith+
  then have small: "\<bar>s * (r - 6 / 100)\<bar> \<le> 101 * ?eps"
    unfolding abs_mult by (intro mult_mono) simp_all
  define z where "z = s * (r - 6 / 100)"
  have split: "s * r = s * (6 / 100) + z" by (simp add: z_def algebra_simps)
  have z: "z \<le> 101 * ?eps" "- z \<le> 101 * ?eps" using small by (simp_all only: abs_le_iff z_def)
  define u where "u = target - old"
  have u: "u * (6 / 100) = target * (6 / 100) - old * (6 / 100)" by (simp add: u_def left_diff_distrib)
  have s': "u - ?eps \<le> s" "s \<le> u + ?eps" using s by (simp_all only: u_def)
  have "u * (6 / 100) - 1 / 1000 \<le> s * r" unfolding split using z s' by linarith
  moreover have "s * r \<le> u * (6 / 100) + 1 / 1000" unfolding split using z s' by linarith
  ultimately have p: "target * (6 / 100) - old * (6 / 100) - 1 / 1000 \<le> s * r"
    "s * r \<le> target * (6 / 100) - old * (6 / 100) + 1 / 1000" by (simp_all only: u)
  define m where "m = fmul s r"
  have m: "s * r - ?eps \<le> m" "m \<le> s * r + ?eps"
    using fl_near [of "s * r"] p old target by (simp_all add: m_def fmul_def abs_less_iff)
  define b where "b = fadd old m"
  have b: "old + m - ?eps \<le> b" "b \<le> old + m + ?eps"
    using fl_near [of "old + m"] m p old target by (simp_all add: b_def fadd_def abs_less_iff)
  have mid: "0 \<le> b + noise" "b + noise \<le> 99"
    using b m p old target noise by (simp_all add: abs_le_iff)
  have "0 \<le> fl (b + noise)" "fl (b + noise) \<le> 99"
    using fl_between [of 0 "b + noise" 99] mid by simp_all
  then have "0 \<le> round1 (fl (b + noise)) \<and> round1 (fl (b + noise)) \<le> 100"
    using round1_between [of 0 "fl (b + noise)" 100] by simp
  then show ?thesis by (simp add: approach_def b_def m_def s_def r_def fadd_def)
qed

lemma target_humidity_bounds:
  assumes "- 1 \<le> (x::rat)" "x \<le> 1"
  shows "50 \<le> fadd 55 (fmul x (3 / 2)) \<and> fadd 55 (fmul x (3 / 2)) \<le> 57"
proof -
  have "- 2 \<le> fmul x (3 / 2) \<and> fmul x (3 / 2) \<le> 2"
    using fl_between [of "- 2" "x * (3 / 2)" 2] assms by (simp add: fmul_def)
  then show ?thesis
    using fl_between [of 53 "55 + fmul x (3 / 2)" 57] by (simp add: fadd_def)
qed

section \<open>The driver keeps its contract\<close>

lemma make_sensor_sel [simp]:
  "dev_type (make_sensor stamp i n r t h l) = ''environment''" "dev_id (make_sensor stamp i n r t h l) = i"
  "dev_name (make_sensor stamp i n r t h l) = n" "dev_room (make_sensor stamp i n r t h l) = r"
  "dev_online (make_sensor stamp i n r t h l)" "dev_version (make_sensor stamp i n r t h l) = 1"
  "dev_category (make_sensor stamp i n r t h l) = Some ''environment''"
  "\<not> dev_removable (make_sensor stamp i n r t h l)" "dev_reg_caps (make_sensor stamp i n r t h l) = None"
  by (simp_all add: make_sensor_def base_device_def)

lemma make_sensor_ok: "0 \<le> h \<Longrightarrow> h \<le> 100 \<Longrightarrow> 0 \<le> l \<Longrightarrow> device_ok (make_sensor stamp i n r t h l)"
  by (simp add: make_sensor_def base_device_def device_ok_def env_ok_def)

lemma ac_influence_cases:
  assumes "lookup_ok look" "50 \<le> th" "th \<le> 57"
  shows "case ac_influence (look ''airConditioner'' room) tt th of
      Inl x \<Rightarrow> x = Raised OverflowError
    | Inr (tt', th') \<Rightarrow> 50 \<le> th' \<and> th' \<le> 57"
proof (cases "look ''airConditioner'' room")
  case None
  with assms show ?thesis by (simp add: ac_influence_def)
next
  case (Some d)
  with assms(1) have "device_ok d" "dev_type d = ''airConditioner''" by (simp_all add: lookup_ok_def)
  then obtain a where "dev_body d = AirConditioner a" using device_ok_body(3) by blast
  with Some assms(2,3) show ?thesis by (auto simp: ac_influence_def Let_def split: option.split)
qed

lemma sensor_drift_cases:
  assumes "world_ok w" "lookup_ok look" "env_ok e"
  shows "case sensor_drift w (look ''airConditioner'' room) e of
      Inl x \<Rightarrow> x = Raised OverflowError
    | Inr e' \<Rightarrow> env_ok e' \<and> en_data_valid e' = en_data_valid e \<and> en_presence e' = en_presence e
        \<and> en_manual_until e' = en_manual_until e"
proof -
  define th where "th = fadd 55 (fmul (w_sin w (fdiv (fdiv (w_time w) 180) 2)) (3 / 2))"
  define tt where "tt = fadd 24 (fmul (w_sin w (fdiv (w_time w) 180)) (fl (4 / 10)))"
  have "50 \<le> th" "th \<le> 57"
    using target_humidity_bounds assms(1) by (simp_all add: th_def world_ok_def)
  note inf = ac_influence_cases [OF assms(2) this, of room tt]
  have noise: "\<bar>w_rand_h w\<bar> \<le> 1 / 20" using assms(1) by (simp add: world_ok_def)
  show ?thesis
  proof (cases "ac_influence (look ''airConditioner'' room) tt th")
    case (Inl x)
    with inf show ?thesis by (simp add: sensor_drift_def Let_def tt_def th_def)
  next
    case (Inr targets)
    obtain tt' th' where t: "targets = (tt', th')" by (cases targets)
    with inf Inr have "50 \<le> th'" "th' \<le> 57" by simp_all
    with approach_humidity [OF _ _ this noise, of "en_humidity e"] assms(3) Inr t
    show ?thesis
      by (simp add: sensor_drift_def Let_def tt_def th_def env_ok_def round1_nonneg)
  qed
qed

lemma sensor_tick_body:
  assumes "dev_body d = Environment e" "env_ok e" "world_ok w" "lookup_ok look"
    "sensor_tick w look d cx = (q, d', cx')"
  shows "q = Inl (Raised OverflowError) \<and> d' = d \<and> cx' = cx \<or>
    (\<exists>e2 changed. q = Inr changed \<and> d' = d\<lparr>dev_body := Environment e2\<rparr> \<and> env_ok e2
       \<and> (\<not> changed \<longrightarrow> e2 = e))"
proof (cases "dev_online d \<and> en_manual_until e \<le> w_time w")
  case True
  note drift = sensor_drift_cases [OF assms(3,4,2), of "Some (dev_room d)"]
  show ?thesis
  proof (cases "sensor_drift w (look ''airConditioner'' (Some (dev_room d))) e")
    case (Inl x)
    with drift True assms(1,5) show ?thesis by (simp add: sensor_tick_def Let_def)
  next
    case (Inr e1)
    from Inr drift have ok: "env_ok e1" by simp
    define e2 where "e2 = (if data_valid e1 \<noteq> en_data_valid e1 then e1\<lparr>en_data_valid := data_valid e1\<rparr> else e1)"
    have "env_ok e2" using ok by (simp add: e2_def env_ok_def)
    moreover have "q = Inr True" "d' = d\<lparr>dev_body := Environment e2\<rparr>"
      using Inr True assms(1,5) by (simp_all add: sensor_tick_def Let_def e2_def)
    ultimately show ?thesis by blast
  qed
next
  case False
  define e2 where "e2 = (if data_valid e \<noteq> en_data_valid e then e\<lparr>en_data_valid := data_valid e\<rparr> else e)"
  have "env_ok e2" using assms(2) by (simp add: e2_def env_ok_def)
  moreover have "q = Inr (data_valid e \<noteq> en_data_valid e)" "d' = d\<lparr>dev_body := Environment e2\<rparr>"
    using False assms(1,5) by (auto simp: sensor_tick_def Let_def e2_def)
  moreover have "data_valid e = en_data_valid e \<longrightarrow> e2 = e" by (simp add: e2_def)
  ultimately show ?thesis by blast
qed

interpretation sensor_execs: driver_exec sensor_driver
  by unfold_locales (auto simp: no_execute_def invalid_def)

interpretation sensor_ticks: driver_tick sensor_driver
proof (unfold_locales, goal_cases)
  case (1 d w look cx q d' cx')
  then obtain e where e: "dev_body d = Environment e" "env_ok e" using device_ok_body(2) by auto
  have t: "sensor_tick w look d cx = (q, d', cx')" using 1(5) by simp
  from sensor_tick_body [OF e 1(3,4) t] 1 show ?case by auto
next
  case (2 d w look cx d' cx')
  then obtain e where e: "dev_body d = Environment e" "env_ok e" using device_ok_body(2) by auto
  have t: "sensor_tick w look d cx = (Inr False, d', cx')" using 2(5) by simp
  from sensor_tick_body [OF e 2(3,4) t] e show ?case by auto
next
  case (3 d cx w look q d' cx')
  then obtain e where e: "dev_body d = Environment e" using device_ok_body(2) by auto
  with 3 show ?case
    by (auto simp: sensor_tick_def context_ok_def Let_def split: sum.splits if_splits)
qed

interpretation sensor_makes: driver_make sensor_driver
proof (unfold_locales, goal_cases)
  case (1 d stamp)
  then consider "d = make_sensor stamp ''env-living-01'' t_env_living ''living'' 24 55 80"
    | "d = make_sensor stamp ''env-master-01'' t_env_master ''masterBedroom'' (fl (234 / 10)) 52 130"
    | "d = make_sensor stamp ''env-bedroom-01'' t_env_bedroom ''bedroom'' (fl (242 / 10)) 54 95"
    unfolding sensor_driver_sel sensor_devices_def by fastforce
  then show ?case by cases (simp_all add: make_sensor_ok)
next
  case (2 stamp i n room cat caps d)
  then show ?case
    by (auto simp: sensor_attest_def make_sensor_def base_device_def device_ok_def env_ok_def
        split: if_split_asm)
next
  case (3 stamp i n room cat caps d stamp')
  then show ?case by (auto simp: sensor_attest_def make_sensor_def base_device_def split: if_split_asm)
qed

interpretation sensor_contract: atomic_driver sensor_driver
  by unfold_locales (auto simp: no_execute_def)

section \<open>Properties\<close>

text \<open>The simulated climate stays physical. Whatever the room's air conditioner is set to
  and whatever the sine and the random noise are within their documented ranges, one
  drift keeps the relative humidity within 0 and 100 percent, in double arithmetic.\<close>

lemma sensor_humidity_bounded:
  assumes "world_ok w" "lookup_ok look" "env_ok e"
    and "sensor_drift w (look ''airConditioner'' room) e = Inr e'"
  shows "0 \<le> en_humidity e' \<and> en_humidity e' \<le> 100 \<and> 0 \<le> en_illuminance e'"
  using sensor_drift_cases [OF assms(1-3), of room] assms(4) by (simp add: env_ok_def)

definition calm_world :: world where
  "calm_world = \<lparr>w_time = 0, w_iso = [], w_sin = (\<lambda>x. 0), w_rand_t = 0, w_rand_h = 0\<rparr>"

definition damp_sensor :: env_state where
  "damp_sensor = \<lparr>en_temperature = 24, en_humidity = 100, en_illuminance = 80, en_presence = True,
     en_data_valid = True, en_manual_until = 0\<rparr>"

text \<open>C39: a refused temperature can stop the simulation. When the room's air conditioner is on
  in cooling, heating or automatic mode and holds a target outside the range of a double
  (which the device keeps although the command that set it was refused), the sensor's
  tick raises \<open>OverflowError\<close> and changes nothing.\<close>

theorem sensor_tick_overflow:
  assumes "dev_body d = Environment e" "dev_online d" "en_manual_until e \<le> w_time w"
    and "look ''airConditioner'' (Some (dev_room d)) = Some ac" "dev_body ac = AirConditioner a"
    and "dev_online ac" "ac_power a" "ac_mode a \<in> {''cool'', ''heat'', ''auto''}"
    and "float_limit \<le> ac_target a"
  shows "sensor_tick w look d cx = (Inl (Raised OverflowError), d, cx)"
proof -
  have "0 \<le> float_limit" by (simp add: float_limit_def)
  then have "float_of_int (ac_target a) = None" using assms(9) by (simp add: float_of_int_def)
  then show ?thesis
    using assms by (auto simp: sensor_tick_def sensor_drift_def ac_influence_def Let_def)
qed

theorem sensor_tick_overflow_witness:
  "let d = make_sensor [] ''env-1'' [] ''living'' 24 55 80;
       ac = base_device ''ac-1'' [] ''living'' ''airConditioner'' [] (AirConditioner
         \<lparr>ac_brand = ''generic'', ac_power = True, ac_mode = ''cool'', ac_target = 2 ^ 1024,
          ac_fan = ''auto'', ac_running = True, ac_frame = []\<rparr>)
   in sensor_tick calm_world (\<lambda>t r. Some ac) d empty_context = (Inl (Raised OverflowError), d, empty_context)"
  unfolding Let_def
  by (rule sensor_tick_overflow)
     (auto simp: make_sensor_def base_device_def calm_world_def float_limit_def)

end
