(* ===== verification/AirConditioners.thy ===== *)
theory AirConditioners
  imports DeviceBase
begin

text \<open>
  \<open>AirConditionerDriver\<close> of \<open>drivers.py\<close>. Each action writes the device first and lets
  the brand adapter validate the normalised command afterwards, in that order; \<open>ac_step\<close>
  keeps the order, so a refused command returns the error with the state already written.
\<close>

section \<open>The driver\<close>

definition make_ac :: "string \<Rightarrow> string \<Rightarrow> pytext \<Rightarrow> string \<Rightarrow> string \<Rightarrow> int \<Rightarrow> device" where
  "make_ac stamp device_id name room_id brand temperature =
     (base_device device_id name room_id ''airConditioner'' stamp
       (AirConditioner \<lparr>ac_brand = brand, ac_power = False, ac_mode = ''auto'', ac_target = temperature,
          ac_fan = ''auto'', ac_running = False, ac_frame = []\<rparr>))\<lparr>dev_category := Some ''environment''\<rparr>"

definition ac_devices :: "string \<Rightarrow> device list" where
  "ac_devices stamp =
     [make_ac stamp ''ac-living-01'' t_ac_living ''living'' ''haierSim'' 24,
      make_ac stamp ''ac-master-01'' t_ac_master ''masterBedroom'' ''greeSim'' 26,
      make_ac stamp ''ac-bedroom-01'' t_ac_bedroom ''bedroom'' ''mideaSim'' 25]"

definition ac_capabilities :: "string set" where
  "ac_capabilities = {''setPower'', ''setMode'', ''setTemperature'', ''setFanSpeed'',
     ''setDehumidify'', ''setBrand''}"

definition ac_attest :: "string \<Rightarrow> string \<Rightarrow> pytext \<Rightarrow> string \<Rightarrow> string \<Rightarrow> string list \<Rightarrow> exn + device" where
  "ac_attest stamp device_id name room_id category_id capabilities =
     (if category_id \<noteq> ''environment'' \<or> set capabilities \<noteq> ac_capabilities
      then Inl (invalid m_ac_decl)
      else Inr ((make_ac stamp device_id name room_id ''generic'' 24)\<lparr>dev_removable := True\<rparr>))"

definition ac_finish :: "ac_state \<Rightarrow> ac_command \<Rightarrow> (exn + unit) \<times> ac_state" where
  \<comment> \<open>the last two lines of \<open>execute\<close>: encode for the brand, store the frame\<close>
  "ac_finish a c = (case get_adapter (ac_brand a) of
       Inl e \<Rightarrow> (Inl (Gateway e), a)
     | Inr ad \<Rightarrow> (case ac_encode ad c of
           Inl e \<Rightarrow> (Inl (Gateway e), a)
         | Inr frame \<Rightarrow> (Inr (), a\<lparr>ac_frame := frame\<rparr>)))"

definition ac_step :: "ac_state \<Rightarrow> string \<Rightarrow> payload \<Rightarrow> (exn + unit) \<times> ac_state" where
  "ac_step a action p =
     (if action = ''setPower'' then
        (case py_get p ''power'' of
           PBool pw \<Rightarrow> ac_finish (a\<lparr>ac_power := pw, ac_running := pw\<rparr>)
             ((ac_command_of action)\<lparr>nc_power := Some pw\<rparr>)
         | _ \<Rightarrow> (Inl (invalid m_ac_power), a))
      else if action = ''setMode'' then
        (case py_get p ''mode'' of
           PStr mode \<Rightarrow> ac_finish (a\<lparr>ac_mode := mode\<rparr>) ((ac_command_of action)\<lparr>nc_mode := Some mode\<rparr>)
         | _ \<Rightarrow> (Inl (invalid m_ac_mode), a))
      else if action = ''setTemperature'' then
        (case py_get p ''temperatureCelsius'' of
           PInt t \<Rightarrow> ac_finish (a\<lparr>ac_target := t\<rparr>) ((ac_command_of action)\<lparr>nc_temperature := Some t\<rparr>)
         | _ \<Rightarrow> (Inl (invalid m_ac_temp), a))
      else if action = ''setFanSpeed'' then
        (case py_get p ''fanSpeed'' of
           PStr fan \<Rightarrow> ac_finish (a\<lparr>ac_fan := fan\<rparr>) ((ac_command_of action)\<lparr>nc_fan := Some fan\<rparr>)
         | _ \<Rightarrow> (Inl (invalid m_ac_fan), a))
      else if action = ''setDehumidify'' then
        (case py_get p ''enabled'' of
           PBool enabled \<Rightarrow> ac_finish (a\<lparr>ac_mode := ''dry'', ac_power := enabled, ac_running := enabled\<rparr>)
             ((ac_command_of ''setMode'')\<lparr>nc_mode := Some ''dry''\<rparr>)
         | _ \<Rightarrow> (Inl (invalid (asc ''Invalid dehumidify switch'')), a))
      else if action = ''setBrand'' then
        (case py_get p ''brand'' of
           PStr brand \<Rightarrow>
             if dict_get ADAPTERS brand = None then (Inl (invalid m_ac_brand), a)
             else ac_finish (a\<lparr>ac_brand := brand\<rparr>)
               ((ac_command_of ''setPower'')\<lparr>nc_power := Some (ac_power a)\<rparr>)
         | _ \<Rightarrow> (Inl (invalid m_ac_brand), a))
      else (Inl (invalid m_ac_action), a))"

definition ac_execute ::
  "world \<Rightarrow> device \<Rightarrow> string \<Rightarrow> payload \<Rightarrow> driver_context \<Rightarrow> (unit, device \<times> driver_context) outcome" where
  "ac_execute w d action p cx = (case dev_body d of
       AirConditioner a \<Rightarrow>
         (case ac_step a action p of (r, a') \<Rightarrow> (r, d\<lparr>dev_body := AirConditioner a'\<rparr>, cx))
     | _ \<Rightarrow> (Inl (Raised KeyError), d, cx))"

definition ac_driver :: driver where
  "ac_driver = \<lparr>dr_type = ''airConditioner'', dr_priority = 20, dr_requires_category = True,
     dr_categories = [], dr_devices = ac_devices, dr_execute = ac_execute,
     dr_attest = ac_attest, dr_tick = no_tick\<rparr>"

section \<open>The driver keeps its contract\<close>

lemma make_ac_sel [simp]:
  "dev_type (make_ac stamp i n r b t) = ''airConditioner''" "dev_id (make_ac stamp i n r b t) = i"
  "dev_name (make_ac stamp i n r b t) = n" "dev_room (make_ac stamp i n r b t) = r"
  "dev_online (make_ac stamp i n r b t)" "dev_version (make_ac stamp i n r b t) = 1"
  "dev_category (make_ac stamp i n r b t) = Some ''environment''"
  "\<not> dev_removable (make_ac stamp i n r b t)" "dev_reg_caps (make_ac stamp i n r b t) = None"
  by (simp_all add: make_ac_def base_device_def)

lemma make_ac_ok: "b \<in> set (dict_keys ADAPTERS) \<Longrightarrow> device_ok (make_ac stamp i n r b t)"
  by (simp add: make_ac_def base_device_def device_ok_def ac_ok_def)

lemma ac_driver_sel [simp]:
  "dr_type ac_driver = ''airConditioner''" "dr_execute ac_driver = ac_execute"
  "dr_tick ac_driver = no_tick" "dr_attest ac_driver = ac_attest"
  "dr_devices ac_driver = ac_devices" "dr_categories ac_driver = []"
  "dr_requires_category ac_driver = True" "dr_priority ac_driver = 20"
  by (simp_all add: ac_driver_def)

text \<open>The outcome of \<open>ac_finish\<close> on a known brand: the frame is stored, or the command was
  invalid and nothing more is written.\<close>

lemma ac_finish_known:
  assumes "ac_brand a \<in> set (dict_keys ADAPTERS)"
  shows "(\<exists>ad. get_adapter (ac_brand a) = Inr ad \<and>
     ac_finish a c = (case ac_validate c of Inl e \<Rightarrow> (Inl (Gateway e), a)
       | Inr _ \<Rightarrow> (Inr (), a\<lparr>ac_frame := ac_frame_of ad c\<rparr>)))"
  using get_adapter_known [OF assms] by (auto simp: ac_finish_def ac_encode_def split: sum.split)

lemma ac_finish_ok:
  assumes "ac_finish a c = (r, a')" "ac_ok a"
  shows "ac_ok a' \<and> (r = Inr () \<or> (\<exists>e. r = Inl (Gateway e) \<and> err_code e = INVALID_COMMAND))"
proof -
  have "ac_brand a \<in> set (dict_keys ADAPTERS)" using assms(2) by (simp add: ac_ok_def)
  from ac_finish_known [OF this, of c] show ?thesis using assms
    by (auto simp: ac_ok_def ac_validate_def split: sum.splits if_splits)
qed

lemma ac_step_ok:
  assumes "ac_step a action p = (r, a')" "ac_ok a"
  shows "ac_ok a' \<and> (r = Inr () \<or> (\<exists>e. r = Inl (Gateway e) \<and> err_code e = INVALID_COMMAND))"
proof -
  have inv: "\<exists>e. Inl (invalid m) = (Inl (Gateway e) :: exn + unit) \<and> err_code e = INVALID_COMMAND" for m
    by (simp add: invalid_def)
  consider "(\<exists>m. r = Inl (invalid m)) \<and> a' = a"
    | a1 c where "ac_finish a1 c = (r, a')" "ac_ok a1"
    using assms unfolding ac_step_def ac_ok_def
    by (auto simp: dict_get_None_iff split: if_split_asm pyval.split_asm)
  then show ?thesis using ac_finish_ok assms(2) inv by cases blast+
qed

interpretation ac_steps: stepped_driver ac_driver AirConditioner "\<lambda>w. ac_step" ac_ok
proof (unfold_locales, goal_cases)
  case (1 d)
  then show ?case using device_ok_body(3) by simp
next
  case (5 s w a p e s')
  then show ?case by (auto dest!: ac_step_ok)
qed (auto simp: ac_execute_def dest: ac_step_ok)

interpretation ac_idle: idle_driver ac_driver
  by unfold_locales simp

interpretation ac_makes: driver_make ac_driver
proof (unfold_locales, goal_cases)
  case (1 d stamp)
  then consider "d = make_ac stamp ''ac-living-01'' t_ac_living ''living'' ''haierSim'' 24"
    | "d = make_ac stamp ''ac-master-01'' t_ac_master ''masterBedroom'' ''greeSim'' 26"
    | "d = make_ac stamp ''ac-bedroom-01'' t_ac_bedroom ''bedroom'' ''mideaSim'' 25"
    unfolding ac_driver_sel ac_devices_def by fastforce
  then show ?case by cases (simp_all add: make_ac_ok ADAPTERS_def)
next
  case (2 stamp i n room cat caps d)
  then show ?case
    by (auto simp: ac_attest_def make_ac_def base_device_def device_ok_def ac_ok_def ADAPTERS_def
        split: if_split_asm)
next
  case (3 stamp i n room cat caps d stamp')
  then show ?case by (auto simp: ac_attest_def split: if_split_asm)
qed

interpretation ac_contract: device_driver ac_driver
  by unfold_locales

section \<open>Properties\<close>

definition ac_settings_ok :: "ac_state \<Rightarrow> bool" where
  "ac_settings_ok a \<longleftrightarrow> ac_mode a \<in> VALID_MODES \<and> 16 \<le> ac_target a \<and> ac_target a \<le> 30
     \<and> ac_fan a \<in> VALID_FAN_SPEEDS"

lemma ac_finish_accepted:
  "ac_finish a c = (Inr (), a') \<Longrightarrow> ac_validate c = Inr () \<and> (\<exists>f. a' = a\<lparr>ac_frame := f\<rparr>)"
  by (auto simp: ac_finish_def ac_encode_def split: sum.splits)

lemma ac_finish_valid:
  "get_adapter (ac_brand a) = Inr ad \<Longrightarrow> ac_validate c = Inr () \<Longrightarrow>
   ac_finish a c = (Inr (), a\<lparr>ac_frame := ac_frame_of ad c\<rparr>)"
  by (simp add: ac_finish_def ac_encode_def)

lemma ac_validate_Inr:
  "ac_validate ((ac_command_of ''setMode'')\<lparr>nc_mode := Some m\<rparr>) = Inr () \<longleftrightarrow> m \<in> VALID_MODES"
  "ac_validate ((ac_command_of ''setTemperature'')\<lparr>nc_temperature := Some t\<rparr>) = Inr () \<longleftrightarrow> 16 \<le> t \<and> t \<le> 30"
  "ac_validate ((ac_command_of ''setFanSpeed'')\<lparr>nc_fan := Some f\<rparr>) = Inr () \<longleftrightarrow> f \<in> VALID_FAN_SPEEDS"
  by (auto simp: ac_validate_def ac_command_of_def in_opt_def not_less)

lemma dry_valid [simp]: "''dry'' \<in> VALID_MODES"
  by (simp add: VALID_MODES_def)

text \<open>What an accepted air-conditioner command leaves behind is inside the adapter's
  limits: a supported mode and fan speed and a target of 16 to 30 degrees stay supported
  under every accepted command.\<close>

lemma ac_accepted_in_range:
  assumes "ac_step a action p = (Inr (), a')" "ac_settings_ok a"
  shows "ac_settings_ok a'"
proof -
  consider pw where "action = ''setPower''" "py_get p ''power'' = PBool pw"
      "ac_finish (a\<lparr>ac_power := pw, ac_running := pw\<rparr>) ((ac_command_of action)\<lparr>nc_power := Some pw\<rparr>) = (Inr (), a')"
    | m where "ac_finish (a\<lparr>ac_mode := m\<rparr>) ((ac_command_of ''setMode'')\<lparr>nc_mode := Some m\<rparr>) = (Inr (), a')"
    | t where "ac_finish (a\<lparr>ac_target := t\<rparr>)
        ((ac_command_of ''setTemperature'')\<lparr>nc_temperature := Some t\<rparr>) = (Inr (), a')"
    | f where "ac_finish (a\<lparr>ac_fan := f\<rparr>) ((ac_command_of ''setFanSpeed'')\<lparr>nc_fan := Some f\<rparr>) = (Inr (), a')"
    | e where "ac_finish (a\<lparr>ac_mode := ''dry'', ac_power := e, ac_running := e\<rparr>)
        ((ac_command_of ''setMode'')\<lparr>nc_mode := Some ''dry''\<rparr>) = (Inr (), a')"
    | b where "ac_finish (a\<lparr>ac_brand := b\<rparr>)
        ((ac_command_of ''setPower'')\<lparr>nc_power := Some (ac_power a)\<rparr>) = (Inr (), a')"
    using assms(1) unfolding ac_step_def by (auto split: if_split_asm pyval.split_asm)
  then show ?thesis
    using assms(2) by cases (auto dest!: ac_finish_accepted simp: ac_validate_Inr ac_settings_ok_def)
qed

definition demo_ac :: ac_state where
  "demo_ac = \<lparr>ac_brand = ''haierSim'', ac_power = True, ac_mode = ''cool'', ac_target = 24,
     ac_fan = ''auto'', ac_running = True, ac_frame = []\<rparr>"

lemma demo_ac_brand: "get_adapter (ac_brand demo_ac) = Inr HaierSimAdapter"
  by (simp add: demo_ac_def get_adapter_def ADAPTERS_def)

text \<open>C38: a refused command is not undone. With a known brand, an out-of-range target or an
  unsupported mode is answered with \<open>INVALID_COMMAND\<close>, yet the device keeps the value: the
  driver writes before the adapter validates.\<close>

theorem ac_refusal_keeps_value:
  assumes "ac_brand a \<in> set (dict_keys ADAPTERS)" "t < 16 \<or> 30 < t" "m \<notin> VALID_MODES"
  shows "ac_step a ''setTemperature'' [(''temperatureCelsius'', PInt t)]
           = (Inl (invalid m_ac_bad_temp), a\<lparr>ac_target := t\<rparr>)
       \<and> ac_step a ''setMode'' [(''mode'', PStr m)] = (Inl (invalid m_ac_bad_mode), a\<lparr>ac_mode := m\<rparr>)"
  using get_adapter_known [OF assms(1)] assms(2,3)
  by (auto simp: ac_step_def py_get_def ac_finish_def ac_encode_def ac_validate_def
      ac_command_of_def in_opt_def invalid_def)

theorem ac_refusal_keeps_value_witness:
  "ac_step demo_ac ''setTemperature'' [(''temperatureCelsius'', PInt 100)]
     = (Inl (invalid m_ac_bad_temp), demo_ac\<lparr>ac_target := 100\<rparr>)
   \<and> ac_step demo_ac ''setMode'' [(''mode'', PStr ''turbo'')]
     = (Inl (invalid m_ac_bad_mode), demo_ac\<lparr>ac_mode := ''turbo''\<rparr>)"
  by (rule ac_refusal_keeps_value) (simp_all add: demo_ac_def ADAPTERS_def VALID_MODES_def)

text \<open>The frame of a mode change tells a Haier, Gree or Midea unit to switch off. The
  normalised command carries no power, which the adapters print as \<open>OFF\<close> (or \<open>0\<close>), while
  the device record stays switched on.\<close>

lemma ac_mode_frame_says_off:
  assumes "get_adapter (ac_brand a) = Inr HaierSimAdapter" "m \<in> VALID_MODES"
  shows "ac_step a ''setMode'' [(''mode'', PStr m)] =
    (Inr (), a\<lparr>ac_mode := m, ac_frame := ''HAIER_SIM|POWER=OFF|MODE='' @ m @ ''|TEMP=|FAN=''\<rparr>)"
  using assms
  by (simp add: ac_step_def py_get_def ac_finish_valid [where ad = HaierSimAdapter] ac_validate_Inr)
     (simp add: ac_frame_of_def ac_command_of_def truthy_def str_or_empty_def int_or_empty_def)

end
