(* ===== verification/Climate.thy ===== *)
theory Climate
  imports DeviceBase
begin

text \<open>
  \<open>BathHeaterDriver\<close> and \<open>HumidifierDriver\<close> of \<open>drivers.py\<close>: two families of the
  environment category that describe themselves to the App by a list of controls. The
  controls are part of the snapshot; the properties show that what a control offers is
  what \<open>execute\<close> accepts.
\<close>

section \<open>The bathroom heater\<close>

definition bath_controls :: pyval where
  "bath_controls = PList
    [PDict [(''id'', PStr ''power''), (''kind'', PStr ''toggle''), (''label'', PText l_switch),
       (''action'', PStr ''setPower''), (''stateKey'', PStr ''power''), (''payloadKey'', PStr ''power''),
       (''primary'', PBool True)],
     PDict [(''id'', PStr ''mode''), (''kind'', PStr ''enum''), (''label'', PText l_work_mode),
       (''action'', PStr ''setMode''), (''stateKey'', PStr ''mode''), (''payloadKey'', PStr ''mode''),
       (''options'', PList
         [PDict [(''value'', PStr ''warm''), (''label'', PText l_warm)],
          PDict [(''value'', PStr ''ventilate''), (''label'', PText l_ventilate)],
          PDict [(''value'', PStr ''dry''), (''label'', PText l_dry)]])]]"

definition bath_devices :: "string \<Rightarrow> device list" where
  "bath_devices stamp =
     [(base_device ''bath-heater-bathroom-01'' t_bath ''bathroom'' ''bathHeater'' stamp
        (BathHeater \<lparr>ba_power = False, ba_mode = ''warm''\<rparr>))\<lparr>dev_category := Some ''environment''\<rparr>]"

definition bath_step :: "bath_state \<Rightarrow> string \<Rightarrow> payload \<Rightarrow> (exn + unit) \<times> bath_state" where
  "bath_step b action p =
     (if action = ''setPower'' then
        (case py_get p ''power'' of
           PBool pw \<Rightarrow> (Inr (), b\<lparr>ba_power := pw\<rparr>)
         | _ \<Rightarrow> (Inl (invalid m_bath_power), b))
      else if action = ''setMode'' then
        (case py_get p ''mode'' of
           PStr mode \<Rightarrow>
             if mode \<notin> {''warm'', ''ventilate'', ''dry''} then (Inl (invalid m_bath_mode), b)
             else (Inr (), b\<lparr>ba_mode := mode\<rparr>)
         | _ \<Rightarrow> (Inl (invalid m_bath_mode), b))
      else (Inl (invalid m_bath_action), b))"

definition bath_execute ::
  "world \<Rightarrow> device \<Rightarrow> string \<Rightarrow> payload \<Rightarrow> driver_context \<Rightarrow> (unit, device \<times> driver_context) outcome" where
  "bath_execute w d action p cx = (case dev_body d of
       BathHeater b \<Rightarrow> (case bath_step b action p of (r, b') \<Rightarrow> (r, d\<lparr>dev_body := BathHeater b'\<rparr>, cx))
     | _ \<Rightarrow> (Inl (Raised KeyError), d, cx))"

definition bath_driver :: driver where
  "bath_driver = \<lparr>dr_type = ''bathHeater'', dr_priority = 25, dr_requires_category = True,
     dr_categories = [], dr_devices = bath_devices, dr_execute = bath_execute,
     dr_attest = no_attest, dr_tick = no_tick\<rparr>"

section \<open>The humidifier\<close>

definition humidifier_controls :: pyval where
  "humidifier_controls = PList
    [PDict [(''id'', PStr ''power''), (''kind'', PStr ''toggle''), (''label'', PText l_switch),
       (''action'', PStr ''setPower''), (''stateKey'', PStr ''power''), (''payloadKey'', PStr ''power''),
       (''primary'', PBool True)],
     PDict [(''id'', PStr ''targetHumidity''), (''kind'', PStr ''slider''),
       (''label'', PText l_target_humidity), (''action'', PStr ''setTargetHumidity''),
       (''stateKey'', PStr ''targetHumidityPercent''), (''payloadKey'', PStr ''targetHumidityPercent''),
       (''minimum'', PInt 35), (''maximum'', PInt 75), (''step'', PInt 1), (''unit'', PStr ''%'')]]"

definition make_humidifier :: "string \<Rightarrow> string \<Rightarrow> pytext \<Rightarrow> string \<Rightarrow> device" where
  "make_humidifier stamp device_id name room_id =
     (base_device device_id name room_id ''humidifier'' stamp
       (Humidifier \<lparr>hu_power = False, hu_target = 55\<rparr>))\<lparr>dev_category := Some ''environment''\<rparr>"

definition humidifier_devices :: "string \<Rightarrow> device list" where
  "humidifier_devices stamp = [make_humidifier stamp ''humidifier-living-01'' t_humidifier ''living'']"

definition humidifier_capabilities :: "string set" where
  "humidifier_capabilities = {''setPower'', ''setTargetHumidity''}"

definition humidifier_attest :: "string \<Rightarrow> string \<Rightarrow> pytext \<Rightarrow> string \<Rightarrow> string \<Rightarrow> string list \<Rightarrow> exn + device" where
  "humidifier_attest stamp device_id name room_id category_id capabilities =
     (if category_id \<noteq> ''environment'' \<or> set capabilities \<noteq> humidifier_capabilities
      then Inl (invalid m_hum_decl)
      else Inr ((make_humidifier stamp device_id name room_id)\<lparr>dev_removable := True\<rparr>))"

definition humidifier_step :: "humidifier_state \<Rightarrow> string \<Rightarrow> payload \<Rightarrow> (exn + unit) \<times> humidifier_state" where
  "humidifier_step h action p =
     (if action = ''setPower'' then
        (case py_get p ''power'' of
           PBool pw \<Rightarrow> (Inr (), h\<lparr>hu_power := pw\<rparr>)
         | _ \<Rightarrow> (Inl (invalid m_hum_power), h))
      else if action = ''setTargetHumidity'' then
        (let target = py_get p ''targetHumidityPercent'' in
         if \<not> num_in target 35 75 then (Inl (invalid m_hum_target), h)
         else case py_round target of Inl x \<Rightarrow> (Inl (Raised x), h)
           | Inr t \<Rightarrow> (Inr (), h\<lparr>hu_target := t\<rparr>))
      else (Inl (invalid m_hum_action), h))"

definition humidifier_execute ::
  "world \<Rightarrow> device \<Rightarrow> string \<Rightarrow> payload \<Rightarrow> driver_context \<Rightarrow> (unit, device \<times> driver_context) outcome" where
  "humidifier_execute w d action p cx = (case dev_body d of
       Humidifier h \<Rightarrow>
         (case humidifier_step h action p of (r, h') \<Rightarrow> (r, d\<lparr>dev_body := Humidifier h'\<rparr>, cx))
     | _ \<Rightarrow> (Inl (Raised KeyError), d, cx))"

definition humidifier_driver :: driver where
  "humidifier_driver = \<lparr>dr_type = ''humidifier'', dr_priority = 24, dr_requires_category = True,
     dr_categories = [], dr_devices = humidifier_devices, dr_execute = humidifier_execute,
     dr_attest = humidifier_attest, dr_tick = no_tick\<rparr>"

section \<open>The drivers keep their contract\<close>

lemma bath_driver_sel [simp]:
  "dr_type bath_driver = ''bathHeater''" "dr_execute bath_driver = bath_execute"
  "dr_tick bath_driver = no_tick" "dr_attest bath_driver = no_attest"
  "dr_devices bath_driver = bath_devices" "dr_categories bath_driver = []"
  "dr_requires_category bath_driver = True" "dr_priority bath_driver = 25"
  by (simp_all add: bath_driver_def)

lemma humidifier_driver_sel [simp]:
  "dr_type humidifier_driver = ''humidifier''" "dr_execute humidifier_driver = humidifier_execute"
  "dr_tick humidifier_driver = no_tick" "dr_attest humidifier_driver = humidifier_attest"
  "dr_devices humidifier_driver = humidifier_devices" "dr_categories humidifier_driver = []"
  "dr_requires_category humidifier_driver = True" "dr_priority humidifier_driver = 24"
  by (simp_all add: humidifier_driver_def)

lemma bath_step_cases:
  assumes "bath_step b a p = (r, b')" "bath_ok b"
  shows "bath_ok b' \<and> (r = Inr () \<or> (\<exists>m. r = Inl (invalid m)) \<and> b' = b)"
  using assms unfolding bath_step_def bath_ok_def
  by (auto split: if_split_asm pyval.split_asm)

lemma humidifier_step_cases:
  assumes "humidifier_step h a p = (r, h')" "humidifier_ok h"
  shows "humidifier_ok h' \<and>
    (r = Inr () \<or> ((\<exists>m. r = Inl (invalid m)) \<or> r = Inl (Raised ValueError)) \<and> h' = h)"
proof (cases "num_in (py_get p ''targetHumidityPercent'') 35 75")
  case True
  from py_round_in [OF True] show ?thesis using assms True
    by (auto simp: humidifier_step_def humidifier_ok_def Let_def split: if_split_asm pyval.split_asm)
next
  case False
  then show ?thesis using assms
    by (auto simp: humidifier_step_def humidifier_ok_def Let_def split: if_split_asm pyval.split_asm)
qed

interpretation bath_steps: stepped_driver bath_driver BathHeater "\<lambda>w. bath_step" bath_ok
proof (unfold_locales, goal_cases)
  case (1 d)
  then show ?case using device_ok_body(4) by simp
next
  case (5 s w a p e s')
  then show ?case by (auto dest!: bath_step_cases simp: invalid_def)
qed (auto simp: bath_execute_def dest: bath_step_cases)

interpretation bath_idle: idle_driver bath_driver
  by unfold_locales simp

interpretation bath_makes: driver_make bath_driver
  by unfold_locales
     (auto simp: bath_devices_def base_device_def device_ok_def bath_ok_def no_attest_def)

interpretation bath_contract: atomic_driver bath_driver
  by unfold_locales (rule bath_steps.refused_unchanged, auto dest: bath_step_cases)

interpretation humidifier_steps: stepped_driver humidifier_driver Humidifier "\<lambda>w. humidifier_step" humidifier_ok
proof (unfold_locales, goal_cases)
  case (1 d)
  then show ?case using device_ok_body(5) by simp
next
  case (5 s w a p e s')
  then show ?case by (auto dest!: humidifier_step_cases simp: invalid_def)
qed (auto simp: humidifier_execute_def dest: humidifier_step_cases)

interpretation humidifier_idle: idle_driver humidifier_driver
  by unfold_locales simp

interpretation humidifier_makes: driver_make humidifier_driver
  by unfold_locales
     (auto simp: humidifier_devices_def humidifier_attest_def make_humidifier_def base_device_def
       device_ok_def humidifier_ok_def split: if_split_asm)

interpretation humidifier_contract: atomic_driver humidifier_driver
  by unfold_locales (rule humidifier_steps.refused_unchanged, auto dest: humidifier_step_cases)

end
