(* ===== verification/Doors.thy ===== *)
theory Doors
  imports DeviceBase
begin

text \<open>
  \<open>DoorLockDriver\<close> of \<open>drivers.py\<close>: a lock that can jam, reports the jam as an alert, and
  locks itself again a configured time after it was unlocked. \<open>door_step\<close> is \<open>execute\<close> on
  the lock's keys and the context it writes alerts to.
\<close>

section \<open>The driver\<close>

definition door_devices :: "string \<Rightarrow> device list" where
  "door_devices stamp =
     [base_device ''door-entry-01'' t_door ''entry'' ''doorLock'' stamp
        (DoorLock \<lparr>do_locked = True, do_jammed = False, do_battery = 92, do_auto_enabled = True,
           do_auto_delay = 10, do_auto_at = None\<rparr>)]"

definition door_step :: "world \<Rightarrow> string \<Rightarrow> door_state \<Rightarrow> string \<Rightarrow> payload \<Rightarrow> driver_context
    \<Rightarrow> (exn + unit) \<times> door_state \<times> driver_context" where
  "door_step w device_id s action p cx =
     (if do_jammed s \<and> action \<in> {''lock'', ''unlock''} then
        (Inl (Gateway (gw INTERNAL_ERROR m_door_jammed)), s,
         record_alert w device_id ''critical'' ''DOOR_JAMMED'' m_door_jam_alert cx)
      else if action = ''lock'' then (Inr (), s\<lparr>do_locked := True, do_auto_at := None\<rparr>, cx)
      else if action = ''unlock'' then
        (let s1 = s\<lparr>do_locked := False\<rparr> in
         (Inr (), if do_auto_enabled s1
                  then s1\<lparr>do_auto_at := Some (ms_after w (do_auto_delay s1))\<rparr> else s1, cx))
      else if action = ''setAutoLockConfig'' then
        (case py_get p ''enabled'' of
           PBool enabled \<Rightarrow>
             (case py_get p ''delaySeconds'' of
                PInt delay \<Rightarrow>
                  if delay < 5 \<or> delay > 60 then (Inl (invalid m_door_delay), s, cx)
                  else (let s1 = s\<lparr>do_auto_enabled := enabled, do_auto_delay := delay\<rparr> in
                    (Inr (), if \<not> enabled then s1\<lparr>do_auto_at := None\<rparr> else s1, cx))
              | _ \<Rightarrow> (Inl (invalid m_door_delay), s, cx))
         | _ \<Rightarrow> (Inl (invalid m_door_auto), s, cx))
      else (Inl (invalid m_door_action), s, cx))"

definition door_execute ::
  "world \<Rightarrow> device \<Rightarrow> string \<Rightarrow> payload \<Rightarrow> driver_context \<Rightarrow> (unit, device \<times> driver_context) outcome" where
  "door_execute w d action p cx = (case dev_body d of
       DoorLock s \<Rightarrow> (case door_step w (dev_id d) s action p cx of
           (r, s', cx') \<Rightarrow> (r, d\<lparr>dev_body := DoorLock s'\<rparr>, cx'))
     | _ \<Rightarrow> (Inl (Raised KeyError), d, cx))"

definition door_tick :: "world \<Rightarrow> lookup \<Rightarrow> device \<Rightarrow> driver_context \<Rightarrow> (bool, device \<times> driver_context) outcome" where
  "door_tick w look d cx = (case dev_body d of
       DoorLock s \<Rightarrow>
         (case do_auto_at s of
            None \<Rightarrow> (Inr False, d, cx)
          | Some auto_lock_at \<Rightarrow>
              if dev_online d \<and> \<not> do_locked s \<and> do_auto_enabled s \<and> now_ms w \<ge> auto_lock_at
              then (Inr True, d\<lparr>dev_body := DoorLock (s\<lparr>do_locked := True, do_auto_at := None\<rparr>)\<rparr>,
                cx\<lparr>cx_storage := record_audit (now_ms w) ''gateway-rule'' (dev_id d) ''autoLock''
                     ''success'' None ''auto-lock'' None (cx_storage cx)\<rparr>)
              else (Inr False, d, cx))
     | _ \<Rightarrow> (Inl (Raised KeyError), d, cx))"

definition door_driver :: driver where
  "door_driver = \<lparr>dr_type = ''doorLock'', dr_priority = 40, dr_requires_category = False,
     dr_categories = [], dr_devices = door_devices, dr_execute = door_execute,
     dr_attest = no_attest, dr_tick = door_tick\<rparr>"

lemma door_driver_sel [simp]:
  "dr_type door_driver = ''doorLock''" "dr_execute door_driver = door_execute"
  "dr_tick door_driver = door_tick" "dr_attest door_driver = no_attest"
  "dr_devices door_driver = door_devices" "dr_categories door_driver = []"
  "\<not> dr_requires_category door_driver" "dr_priority door_driver = 40"
  by (simp_all add: door_driver_def)

section \<open>The driver keeps its contract\<close>

lemma door_step_cases:
  assumes "door_step w i s a p cx = (r, s', cx')" "door_ok s"
  shows "door_ok s' \<and> (r = Inr () \<and> cx' = cx
    \<or> s' = s \<and> ((\<exists>m. r = Inl (invalid m)) \<and> cx' = cx
        \<or> r = Inl (Gateway (gw INTERNAL_ERROR m_door_jammed)) \<and> do_jammed s
          \<and> cx' = record_alert w i ''critical'' ''DOOR_JAMMED'' m_door_jam_alert cx))"
  using assms unfolding door_step_def Let_def
  by (auto simp: door_ok_def split: if_split_asm pyval.split_asm)

lemma door_executed:
  assumes "device_ok d" "dev_type d = ''doorLock''" "door_execute w d a p cx = (r, d', cx')"
  obtains s s' where "dev_body d = DoorLock s" "door_ok s" "door_step w (dev_id d) s a p cx = (r, s', cx')"
    "d' = d\<lparr>dev_body := DoorLock s'\<rparr>"
proof -
  obtain s where s: "dev_body d = DoorLock s" "door_ok s" using device_ok_body(6) assms(1,2) by blast
  obtain r1 s1 c1 where "door_step w (dev_id d) s a p cx = (r1, s1, c1)"
    by (cases "door_step w (dev_id d) s a p cx")
  with s assms(3) that show ?thesis by (simp add: door_execute_def)
qed

interpretation door_execs: driver_exec door_driver
proof (unfold_locales, goal_cases)
  case (1 d w a p cx r d' cx')
  then have "door_execute w d a p cx = (r, d', cx')" "dev_type d = ''doorLock''" by simp_all
  with 1(1) show ?case by (auto elim!: door_executed dest: door_step_cases)
next
  case (2 d cx w a p r d' cx')
  then have "door_execute w d a p cx = (r, d', cx')" "dev_type d = ''doorLock''" by simp_all
  with 2(1,3) show ?case by (fastforce elim!: door_executed dest: door_step_cases)
next
  case (3 d w a p cx e d' cx')
  then have "door_execute w d a p cx = (Inl e, d', cx')" "dev_type d = ''doorLock''" by simp_all
  with 3(1) show ?case by (fastforce elim!: door_executed dest: door_step_cases simp: invalid_def)
qed

interpretation door_ticks: driver_tick door_driver
proof (unfold_locales, goal_cases)
  case (1 d w look cx q d' cx')
  then obtain s where "dev_body d = DoorLock s" "door_ok s" using device_ok_body(6) by auto
  with 1 show ?case by (auto simp: door_tick_def door_ok_def split: option.splits if_split_asm)
next
  case (2 d w look cx d' cx')
  then obtain s where "dev_body d = DoorLock s" using device_ok_body(6) by auto
  with 2 show ?case by (auto simp: door_tick_def split: option.splits if_split_asm)
next
  case (3 d cx w look q d' cx')
  then obtain s where "dev_body d = DoorLock s" using device_ok_body(6) by auto
  with 3 show ?case
    by (auto simp: door_tick_def context_ok_def split: option.splits if_split_asm)
qed

interpretation door_makes: driver_make door_driver
  by unfold_locales
     (auto simp: door_devices_def base_device_def device_ok_def door_ok_def no_attest_def)

interpretation door_contract: atomic_driver door_driver
proof (unfold_locales, goal_cases)
  case (1 d w a p cx e d' cx')
  then have "door_execute w d a p cx = (Inl e, d', cx')" "dev_type d = ''doorLock''" by simp_all
  then obtain s s' where "door_ok s" "dev_body d = DoorLock s" "d' = d\<lparr>dev_body := DoorLock s'\<rparr>"
    "door_step w (dev_id d) s a p cx = (Inl e, s', cx')" using 1(1) by (blast elim: door_executed)
  then show ?case by (auto dest: door_step_cases)
qed

section \<open>Properties\<close>

text \<open>The door locks itself. After an accepted \<open>unlock\<close> with auto-lock enabled, the first
  tick of the online lock whose clock has reached the computed deadline locks the door,
  disarms the timer and writes one \<open>autoLock\<close> audit row.\<close>

lemma door_auto_lock:
  assumes "door_step w i s ''unlock'' p cx0 = (Inr (), s1, cx1)" "do_auto_enabled s"
    and "dev_body d = DoorLock s1" "dev_online d" "ms_after w (do_auto_delay s) \<le> now_ms w'"
  shows "door_tick w' look d cx = (Inr True, d\<lparr>dev_body := DoorLock (s1\<lparr>do_locked := True, do_auto_at := None\<rparr>)\<rparr>,
    cx\<lparr>cx_storage := record_audit (now_ms w') ''gateway-rule'' (dev_id d) ''autoLock'' ''success'' None
         ''auto-lock'' None (cx_storage cx)\<rparr>)"
  using assms by (auto simp: door_step_def door_tick_def Let_def split: if_split_asm)

definition demo_door :: door_state where
  "demo_door = \<lparr>do_locked = True, do_jammed = False, do_battery = 92, do_auto_enabled = True,
     do_auto_delay = 10, do_auto_at = None\<rparr>"

definition clock_at :: "rat \<Rightarrow> world" where
  "clock_at t = \<lparr>w_time = t, w_iso = [], w_sin = (\<lambda>x. 0), w_rand_t = 0, w_rand_h = 0\<rparr>"

lemma clock_at_deadline: "ms_after (clock_at 100) 10 \<le> now_ms (clock_at 110)"
  using fl_int [of 110] fl_int [of 110000] by (simp add: ms_after_def now_ms_def clock_at_def fadd_def fmul_def)

text \<open>A jammed lock refuses \<open>lock\<close> and \<open>unlock\<close>: the state is untouched, the error is
  \<open>INTERNAL_ERROR\<close>, and one critical alert is stored and queued.\<close>

lemma door_jam_refused:
  assumes "do_jammed s" "a = ''lock'' \<or> a = ''unlock''"
  shows "door_step w i s a p cx = (Inl (Gateway (gw INTERNAL_ERROR m_door_jammed)), s,
      record_alert w i ''critical'' ''DOOR_JAMMED'' m_door_jam_alert cx)
    \<and> map snd (tb_rows (st_alerts (cx_storage (snd (snd (door_step w i s a p cx)))))) =
      map snd (tb_rows (st_alerts (cx_storage cx))) @ [\<lparr>al_timestamp = now_ms w, al_device = i,
        al_severity = ''critical'', al_code = ''DOOR_JAMMED'', al_description = m_door_jam_alert\<rparr>]"
  using assms by (simp add: door_step_def record_alert_def record_alert_row_def Let_def)

text \<open>The automation overrides a jam. The tick never looks at \<open>jammed\<close>: an armed, open,
  jammed lock is reported locked at its deadline, with a success row in the audit log,
  although a \<open>lock\<close> command in the same state is refused.\<close>

lemma door_auto_lock_ignores_jam:
  assumes "dev_body d = DoorLock s" "do_jammed s" "dev_online d" "\<not> do_locked s" "do_auto_enabled s"
    and "do_auto_at s = Some t" "t \<le> now_ms w"
  shows "fst (door_execute w d ''lock'' p cx) = Inl (Gateway (gw INTERNAL_ERROR m_door_jammed))
    \<and> fst (snd (door_tick w look d cx)) = d\<lparr>dev_body := DoorLock (s\<lparr>do_locked := True, do_auto_at := None\<rparr>)\<rparr>
    \<and> fst (door_tick w look d cx) = Inr True"
  using assms by (simp add: door_execute_def door_step_def door_tick_def)

end
