(* ===== verification/Curtains.thy ===== *)
theory Curtains
  imports DeviceBase
begin

text \<open>
  \<open>CurtainDriver\<close> of \<open>drivers.py\<close>: a motor that a command gives a target and that moves at
  most ten percent towards it at every tick. \<open>curtain_step\<close> is \<open>execute\<close> and
  \<open>curtain_move\<close> is \<open>tick\<close> on the curtain's \<open>state\<close> dictionary.
\<close>

section \<open>The driver\<close>

definition curtain_categories :: "category list" where
  "curtain_categories = [\<lparr>cat_id = ''curtains'', cat_title = t_curtains, cat_icon = asc ''curtain'',
     cat_home_only = False\<rparr>]"

definition curtain_controls :: pyval where
  "curtain_controls = PList
    [PDict [(''id'', PStr ''position''), (''kind'', PStr ''slider''), (''label'', PText l_position),
       (''action'', PStr ''setPosition''), (''stateKey'', PStr ''positionPercent''),
       (''payloadKey'', PStr ''positionPercent''), (''minimum'', PInt 0), (''maximum'', PInt 100),
       (''step'', PInt 1), (''unit'', PStr ''%''), (''primary'', PBool True),
       (''requiresConfirmation'', PBool False)],
     PDict [(''id'', PStr ''open''), (''kind'', PStr ''button''), (''label'', PText l_open),
       (''action'', PStr ''open'')],
     PDict [(''id'', PStr ''stop''), (''kind'', PStr ''button''), (''label'', PText l_stop),
       (''action'', PStr ''stop'')],
     PDict [(''id'', PStr ''close''), (''kind'', PStr ''button''), (''label'', PText l_close),
       (''action'', PStr ''close'')]]"

definition make_curtain :: "string \<Rightarrow> string \<Rightarrow> pytext \<Rightarrow> string \<Rightarrow> device" where
  "make_curtain stamp device_id name room_id =
     (base_device device_id name room_id ''curtain'' stamp
       (Curtain \<lparr>cu_position = 0, cu_target = 0, cu_movement = ''stopped''\<rparr>))\<lparr>dev_category := Some ''curtains''\<rparr>"

definition curtain_devices :: "string \<Rightarrow> device list" where
  "curtain_devices stamp =
     [make_curtain stamp ''curtain-living-01'' t_curtain_living ''living'',
      make_curtain stamp ''curtain-master-01'' t_curtain_master ''masterBedroom'',
      make_curtain stamp ''curtain-bedroom-01'' t_curtain_bedroom ''bedroom'']"

definition curtain_target :: "curtain_state \<Rightarrow> string \<Rightarrow> payload \<Rightarrow> exn + int" where
  "curtain_target c action p =
     (if action = ''open'' then Inr 100
      else if action = ''close'' then Inr 0
      else if action = ''stop'' then Inr (cu_position c)
      else if action = ''setPosition'' then
        (case py_get p ''positionPercent'' of
           PInt v \<Rightarrow> if v < 0 \<or> v > 100 then Inl (invalid m_curtain_position) else Inr v
         | _ \<Rightarrow> Inl (invalid m_curtain_position))
      else Inl (invalid m_curtain_action))"

definition curtain_step :: "curtain_state \<Rightarrow> string \<Rightarrow> payload \<Rightarrow> (exn + unit) \<times> curtain_state" where
  "curtain_step c action p =
     (case curtain_target c action p of
        Inl x \<Rightarrow> (Inl x, c)
      | Inr target \<Rightarrow> (let c1 = c\<lparr>cu_target := target\<rparr> in
          (Inr (), if target > cu_position c then c1\<lparr>cu_movement := ''opening''\<rparr>
             else if target < cu_position c then c1\<lparr>cu_movement := ''closing''\<rparr>
             else c1\<lparr>cu_movement := ''stopped''\<rparr>)))"

definition curtain_execute ::
  "world \<Rightarrow> device \<Rightarrow> string \<Rightarrow> payload \<Rightarrow> driver_context \<Rightarrow> (unit, device \<times> driver_context) outcome" where
  "curtain_execute w d action p cx = (case dev_body d of
       Curtain c \<Rightarrow> (case curtain_step c action p of (r, c') \<Rightarrow> (r, d\<lparr>dev_body := Curtain c'\<rparr>, cx))
     | _ \<Rightarrow> (Inl (Raised KeyError), d, cx))"

definition curtain_move :: "curtain_state \<Rightarrow> bool \<times> curtain_state" where
  "curtain_move c =
     (let current = cu_position c; target = cu_target c in
      if current = target then
        (if cu_movement c \<noteq> ''stopped'' then (True, c\<lparr>cu_movement := ''stopped''\<rparr>) else (False, c))
      else
        (let stride = min 10 \<bar>target - current\<bar>;
             moved = (if target > current then current + stride else current - stride);
             c1 = c\<lparr>cu_position := moved,
                    cu_movement := (if target > current then ''opening'' else ''closing'')\<rparr>
         in (True, if moved = target then c1\<lparr>cu_movement := ''stopped''\<rparr> else c1)))"

definition curtain_tick :: "world \<Rightarrow> lookup \<Rightarrow> device \<Rightarrow> driver_context \<Rightarrow> (bool, device \<times> driver_context) outcome" where
  "curtain_tick w look d cx =
     (if \<not> dev_online d then (Inr False, d, cx)
      else case dev_body d of
        Curtain c \<Rightarrow> (case curtain_move c of (changed, c') \<Rightarrow> (Inr changed, d\<lparr>dev_body := Curtain c'\<rparr>, cx))
      | _ \<Rightarrow> (Inl (Raised KeyError), d, cx))"

definition curtain_driver :: driver where
  "curtain_driver = \<lparr>dr_type = ''curtain'', dr_priority = 50, dr_requires_category = True,
     dr_categories = curtain_categories, dr_devices = curtain_devices, dr_execute = curtain_execute,
     dr_attest = no_attest, dr_tick = curtain_tick\<rparr>"

lemma curtain_driver_sel [simp]:
  "dr_type curtain_driver = ''curtain''" "dr_execute curtain_driver = curtain_execute"
  "dr_tick curtain_driver = curtain_tick" "dr_attest curtain_driver = no_attest"
  "dr_devices curtain_driver = curtain_devices" "dr_categories curtain_driver = curtain_categories"
  "dr_requires_category curtain_driver = True" "dr_priority curtain_driver = 50"
  by (simp_all add: curtain_driver_def)

section \<open>The driver keeps its contract\<close>

lemma curtain_target_range:
  "curtain_target c a p = Inr t \<Longrightarrow> curtain_ok c \<Longrightarrow> 0 \<le> t \<and> t \<le> 100"
  by (auto simp: curtain_target_def curtain_ok_def split: if_split_asm pyval.split_asm)

lemma curtain_target_error: "curtain_target c a p = Inl x \<Longrightarrow> \<exists>m. x = invalid m"
  by (auto simp: curtain_target_def split: if_split_asm pyval.split_asm)

lemma curtain_step_cases:
  assumes "curtain_step c a p = (r, c')" "curtain_ok c"
  shows "curtain_ok c' \<and> (r = Inr () \<or> (\<exists>m. r = Inl (invalid m)) \<and> c' = c)"
proof (cases "curtain_target c a p")
  case (Inl x)
  with curtain_target_error [OF Inl] assms show ?thesis by (auto simp: curtain_step_def)
next
  case (Inr t)
  consider "t > cu_position c" | "t < cu_position c" | "t = cu_position c" by linarith
  then show ?thesis using curtain_target_range [OF Inr assms(2)] assms Inr
    by cases (auto simp: curtain_step_def curtain_ok_def heading_def Let_def)
qed

lemma curtain_move_position:
  "cu_position (snd (curtain_move c)) = (if cu_target c > cu_position c
     then min (cu_target c) (cu_position c + 10) else max (cu_target c) (cu_position c - 10))"
  "cu_target (snd (curtain_move c)) = cu_target c"
  by (auto simp: curtain_move_def Let_def min_def max_def)

lemma curtain_move_ok: "curtain_ok c \<Longrightarrow> curtain_ok (snd (curtain_move c))"
  by (auto simp: curtain_move_def Let_def curtain_ok_def heading_def min_def)

lemma curtain_move_silent: "curtain_move c = (False, c') \<Longrightarrow> c' = c"
  by (auto simp: curtain_move_def Let_def split: if_split_asm)

interpretation curtain_steps: stepped_driver curtain_driver Curtain "\<lambda>w. curtain_step" curtain_ok
proof (unfold_locales, goal_cases)
  case (1 d)
  then show ?case using device_ok_body(7) by simp
next
  case (5 s w a p e s')
  then show ?case by (auto dest!: curtain_step_cases simp: invalid_def)
qed (auto simp: curtain_execute_def dest: curtain_step_cases)

interpretation curtain_ticks: driver_tick curtain_driver
proof (unfold_locales, goal_cases)
  case (1 d w look cx q d' cx')
  then obtain c where "dev_body d = Curtain c" "curtain_ok c" using device_ok_body(7) by auto
  moreover obtain b c' where "curtain_move c = (b, c')" by (cases "curtain_move c")
  ultimately show ?case using 1 curtain_move_ok [of c]
    by (auto simp: curtain_tick_def split: if_split_asm)
next
  case (2 d w look cx d' cx')
  then obtain c where "dev_body d = Curtain c" using device_ok_body(7) by auto
  with 2 show ?case
    by (auto simp: curtain_tick_def dest: curtain_move_silent split: if_split_asm prod.split_asm)
next
  case (3 d cx w look q d' cx')
  then obtain c where "dev_body d = Curtain c" using device_ok_body(7) by auto
  with 3 show ?case by (auto simp: curtain_tick_def split: if_split_asm prod.split_asm)
qed

interpretation curtain_makes: driver_make curtain_driver
  by unfold_locales
     (auto simp: curtain_devices_def make_curtain_def base_device_def device_ok_def curtain_ok_def
       heading_def no_attest_def)

interpretation curtain_contract: atomic_driver curtain_driver
  by unfold_locales (rule curtain_steps.refused_unchanged, auto dest: curtain_step_cases)

section \<open>Properties\<close>

abbreviation curtain_after :: "nat \<Rightarrow> curtain_state \<Rightarrow> curtain_state" where
  "curtain_after n \<equiv> (\<lambda>c. snd (curtain_move c)) ^^ n"

lemma curtain_after_position:
  "cu_target (curtain_after n c) = cu_target c \<and>
   cu_position (curtain_after n c) = (if cu_target c > cu_position c
     then min (cu_target c) (cu_position c + 10 * int n) else max (cu_target c) (cu_position c - 10 * int n))"
  by (induction n) (auto simp: curtain_move_position)

lemma curtain_after_ok: "curtain_ok c \<Longrightarrow> curtain_ok (curtain_after n c)"
  by (induction n) (simp_all add: curtain_move_ok)

text \<open>C36: the curtain arrives. From a well-formed state, after an accepted command the motor
  stands still exactly at the target after \<open>n\<close> ticks, for every \<open>n\<close> with \<open>10 n\<close> at least
  the distance, and before that it is strictly on its way with the movement flag set: no
  overshoot, no early stop.\<close>

theorem curtain_arrives:
  assumes "curtain_ok c0" "curtain_step c0 a p = (Inr (), c)"
  shows "let m = curtain_after n c in
    (if \<bar>cu_target c - cu_position c\<bar> \<le> 10 * int n
     then cu_position m = cu_target c \<and> cu_movement m = ''stopped'' \<and> \<not> fst (curtain_move m)
     else cu_position m = cu_position c + sgn (cu_target c - cu_position c) * (10 * int n)
       \<and> cu_movement m = (if cu_target c > cu_position c then ''opening'' else ''closing'')
       \<and> fst (curtain_move m))"
proof -
  have ok: "curtain_ok (curtain_after n c)"
    using curtain_step_cases [OF assms(2,1)] curtain_after_ok by blast
  then have mv: "cu_movement (curtain_after n c) = heading (cu_target c) (cu_position (curtain_after n c))"
    using curtain_after_position [of n c] by (simp add: curtain_ok_def)
  have "fst (curtain_move m) \<longleftrightarrow> cu_position m \<noteq> cu_target m \<or> cu_movement m \<noteq> ''stopped''" for m
    by (simp add: curtain_move_def Let_def)
  then show ?thesis
    using curtain_after_position [of n c] mv
    by (auto simp: Let_def heading_def min_def max_def sgn_if)
qed

theorem curtain_arrives_witness:
  "let c0 = \<lparr>cu_position = 25, cu_target = 25, cu_movement = ''stopped''\<rparr>;
       c = snd (curtain_step c0 ''open'' [])
   in cu_position (curtain_after 8 c) = 100 \<and> cu_movement (curtain_after 7 c) = ''opening''"
proof -
  let ?start = "\<lparr>cu_position = 25, cu_target = 25, cu_movement = ''stopped''\<rparr>"
  let ?c = "\<lparr>cu_position = 25, cu_target = 100, cu_movement = ''opening''\<rparr>"
  have ok: "curtain_ok ?start" by (simp add: curtain_ok_def heading_def)
  have st: "curtain_step ?start ''open'' [] = (Inr (), ?c)"
    by (simp add: curtain_step_def curtain_target_def Let_def)
  have c: "snd (curtain_step ?start ''open'' []) = ?c" unfolding st by simp
  from curtain_arrives [OF ok st, of 8] curtain_arrives [OF ok st, of 7] show ?thesis
    unfolding Let_def c by simp
qed

text \<open>A stop is immediate: after \<open>stop\<close> every further tick leaves the curtain where it
  was, whatever it was doing.\<close>

lemma curtain_stop_holds:
  assumes "curtain_step c ''stop'' p = (r, c')"
  shows "r = Inr () \<and> curtain_after n c' = c' \<and> cu_position c' = cu_position c"
proof -
  have c': "r = Inr ()" "c' = c\<lparr>cu_target := cu_position c, cu_movement := ''stopped''\<rparr>"
    using assms by (simp_all add: curtain_step_def curtain_target_def Let_def)
  then have "snd (curtain_move c') = c'" by (simp add: curtain_move_def Let_def)
  then have "curtain_after n c' = c'" by (induction n) simp_all
  with c' show ?thesis by simp
qed

end
