(* ===== verification/Snapshot.thy ===== *)
theory Snapshot
  imports Lights Sensors AirConditioners Climate Doors Curtains
begin

text \<open>
  \<open>DeviceRegistry.public_device\<close>: the dictionary of a device as the App sees it.
  \<open>device_items\<close> renders a device to the dictionary the code keeps, in the code's key
  order; \<open>public_device\<close> drops the keys with an underscore and adds the category and the
  \<open>removable\<close> flag. The properties say that the snapshot shows exactly the public part of
  a device and that every control it advertises is accepted by the driver as advertised.
\<close>

section \<open>Rendering\<close>

definition automation_items :: "automation \<Rightarrow> payload" where
  "automation_items au = [(''enabled'', PBool (au_enabled au)),
     (''illuminanceThresholdLux'', PInt (au_threshold au)),
     (''noPresenceDelaySeconds'', PInt (au_delay au)),
     (''manualOverrideUntil'', opt_int (au_override au))]"

fun body_items :: "family \<Rightarrow> payload" where
  "body_items (Light l) =
     [(''power'', PBool (li_power l)), (''brightness'', PInt (li_brightness l)),
      (''lastNonZeroBrightness'', PInt (li_last l)),
      (''automation'', PDict (automation_items (li_auto l))),
      (''_noPresenceSince'', case li_no_presence_since l of None \<Rightarrow> PNone | Some q \<Rightarrow> num_pyval q)]"
| "body_items (Environment e) =
     [(''temperatureCelsius'', num_pyval (en_temperature e)),
      (''humidityPercent'', num_pyval (en_humidity e)),
      (''illuminanceLux'', num_pyval (en_illuminance e)), (''presence'', PBool (en_presence e)),
      (''dataValid'', PBool (en_data_valid e)), (''_manualInjectionUntil'', num_pyval (en_manual_until e))]"
| "body_items (AirConditioner a) =
     [(''brand'', PStr (ac_brand a)), (''power'', PBool (ac_power a)), (''mode'', PStr (ac_mode a)),
      (''targetTemperatureCelsius'', PInt (ac_target a)), (''fanSpeed'', PStr (ac_fan a)),
      (''running'', PBool (ac_running a)), (''lastAdapterFrame'', PStr (ac_frame a))]"
| "body_items (BathHeater b) =
     [(''state'', PDict [(''power'', PBool (ba_power b)), (''mode'', PStr (ba_mode b))]),
      (''controls'', bath_controls)]"
| "body_items (Humidifier h) =
     [(''state'', PDict [(''power'', PBool (hu_power h)), (''targetHumidityPercent'', PInt (hu_target h))]),
      (''controls'', humidifier_controls)]"
| "body_items (DoorLock d) =
     [(''locked'', PBool (do_locked d)), (''jammed'', PBool (do_jammed d)),
      (''batteryPercent'', PInt (do_battery d)), (''autoLockEnabled'', PBool (do_auto_enabled d)),
      (''autoLockDelaySeconds'', PInt (do_auto_delay d)), (''autoLockAt'', opt_int (do_auto_at d))]"
| "body_items (Curtain c) =
     [(''state'', PDict [(''positionPercent'', PInt (cu_position c)),
        (''targetPositionPercent'', PInt (cu_target c)), (''movement'', PStr (cu_movement c))]),
      (''controls'', curtain_controls)]"

definition device_items :: "device \<Rightarrow> payload" where
  "device_items d =
     [(''id'', PStr (dev_id d)), (''name'', PText (dev_name d)), (''roomId'', PStr (dev_room d)),
      (''type'', PStr (dev_type d)), (''online'', PBool (dev_online d)),
      (''stateVersion'', PInt (dev_version d)), (''updatedAt'', PStr (dev_updated d)),
      (''_commandDelayMs'', PInt (dev_delay_ms d)), (''_failNextCommand'', PBool (dev_fail_next d))]
     @ (case dev_category d of None \<Rightarrow> [] | Some c \<Rightarrow> [(''_categoryId'', PStr c)])
     @ body_items (dev_body d)
     @ (if dev_removable d then [(''_removable'', PBool True)] else [])
     @ (case dev_reg_caps d of None \<Rightarrow> []
        | Some cs \<Rightarrow> [(''_registrationCapabilities'', PList (map PStr cs))])"

definition category_items :: "category \<Rightarrow> payload" where
  "category_items c = [(''id'', PStr (cat_id c)), (''title'', PText (cat_title c)),
     (''icon'', PText (cat_icon c)), (''homeOnly'', PBool (cat_home_only c))]"

definition hidden :: "string \<Rightarrow> bool" where
  \<comment> \<open>\<open>key.startswith("_")\<close>\<close>
  "hidden k \<longleftrightarrow> take 1 k = ''_''"

definition public_device :: "(string, category) dict \<Rightarrow> device \<Rightarrow> exn + payload" where
  "public_device categories d =
     (let public = filter (\<lambda>(k, v). \<not> hidden k) (device_items d) in
      case (case dev_category d of
          None \<Rightarrow> Inr public
        | Some c \<Rightarrow> (case dict_get categories c of
              None \<Rightarrow> Inl (Raised KeyError)
            | Some cat \<Rightarrow> Inr (dict_set ''category'' (PDict (category_items cat)) public))) of
        Inl x \<Rightarrow> Inl x
      | Inr p \<Rightarrow> Inr (dict_set ''removable'' (PBool (dev_removable d)) p))"

section \<open>What a snapshot shows\<close>

definition public_part :: "device \<Rightarrow> device" where
  "public_part d = d\<lparr>dev_delay_ms := 0, dev_fail_next := False, dev_reg_caps := None,
     dev_body := public_body (dev_body d)\<rparr>"

definition visible_items :: "device \<Rightarrow> payload" where
  "visible_items d =
     [(''id'', PStr (dev_id d)), (''name'', PText (dev_name d)), (''roomId'', PStr (dev_room d)),
      (''type'', PStr (dev_type d)), (''online'', PBool (dev_online d)),
      (''stateVersion'', PInt (dev_version d)), (''updatedAt'', PStr (dev_updated d))]
     @ filter (\<lambda>(k, v). \<not> hidden k) (body_items (dev_body d))"

lemma hidden_simps [simp]: "hidden (c # cs) \<longleftrightarrow> c = CHR ''_''" "\<not> hidden []"
  by (simp_all add: hidden_def)

lemma visible_filter: "filter (\<lambda>(k, v). \<not> hidden k) (device_items d) = visible_items d"
  by (simp add: device_items_def visible_items_def split: option.split)

lemma visible_keys: "''category'' \<notin> set (dict_keys (visible_items d))"
  "''removable'' \<notin> set (dict_keys (visible_items d))"
  by (cases "dev_body d"; simp add: visible_items_def)+

lemma public_device_cases:
  "public_device categories d = (case dev_category d of
      None \<Rightarrow> Inr (visible_items d @ [(''removable'', PBool (dev_removable d))])
    | Some c \<Rightarrow> (case dict_get categories c of None \<Rightarrow> Inl (Raised KeyError)
        | Some cat \<Rightarrow> Inr (visible_items d @ [(''category'', PDict (category_items cat)),
             (''removable'', PBool (dev_removable d))])))"
  using visible_keys [of d]
  by (simp add: public_device_def visible_filter dict_set_fresh Let_def split: option.split)

lemma visible_body_inj:
  "map snd (filter (\<lambda>(k, v). \<not> hidden k) (body_items a)) = map snd (filter (\<lambda>(k, v). \<not> hidden k) (body_items b))
   \<Longrightarrow> family_type a = family_type b \<Longrightarrow> public_body a = public_body b"
  by (cases a; cases b; simp add: automation_items_def num_pyval_def opt_int_def split: option.splits)

lemma visible_body_public:
  "filter (\<lambda>(k, v). \<not> hidden k) (body_items (public_body b)) = filter (\<lambda>(k, v). \<not> hidden k) (body_items b)"
  by (cases b) simp_all

lemma public_part_iff:
  "public_part a = public_part b \<longleftrightarrow>
     dev_id a = dev_id b \<and> dev_name a = dev_name b \<and> dev_room a = dev_room b \<and> dev_type a = dev_type b
     \<and> dev_online a = dev_online b \<and> dev_version a = dev_version b \<and> dev_updated a = dev_updated b
     \<and> dev_category a = dev_category b \<and> dev_removable a = dev_removable b
     \<and> public_body (dev_body a) = public_body (dev_body b)"
  by (cases a; cases b) (auto simp: public_part_def)

lemma visible_iff:
  assumes "device_ok a" "device_ok b"
  shows "visible_items a = visible_items b \<longleftrightarrow>
     dev_id a = dev_id b \<and> dev_name a = dev_name b \<and> dev_room a = dev_room b \<and> dev_type a = dev_type b
     \<and> dev_online a = dev_online b \<and> dev_version a = dev_version b \<and> dev_updated a = dev_updated b
     \<and> public_body (dev_body a) = public_body (dev_body b)" (is "?l \<longleftrightarrow> ?r")
proof
  assume l: ?l
  then have "dev_type a = dev_type b" by (simp add: visible_items_def)
  then have "family_type (dev_body a) = family_type (dev_body b)" using assms by (simp add: device_ok_def)
  with l show ?r by (auto simp: visible_items_def intro: visible_body_inj)
next
  assume r: ?r
  then have "filter (\<lambda>(k, v). \<not> hidden k) (body_items (dev_body a)) = filter (\<lambda>(k, v). \<not> hidden k) (body_items (dev_body b))"
    by (metis visible_body_public)
  with r show ?l by (simp add: visible_items_def)
qed

lemma category_items_inj: "category_items a = category_items b \<Longrightarrow> a = b"
  by (cases a; cases b) (simp add: category_items_def)

definition categories_ok :: "(string, category) dict \<Rightarrow> bool" where
  "categories_ok categories \<longleftrightarrow> dict_all (\<lambda>k c. cat_id c = k \<and> k \<noteq> []) categories"

lemma public_tail_iff:
  assumes "categories_ok categories"
    and "public_device categories a = Inr x" "public_device categories b = Inr y"
  shows "x = y \<longleftrightarrow> visible_items a = visible_items b \<and> dev_category a = dev_category b
    \<and> dev_removable a = dev_removable b"
proof -
  have key: "k = k'" if "dict_get categories k = Some c" "dict_get categories k' = Some c" for k k' c
    using dict_all_get [OF assms(1) [unfolded categories_ok_def]] that by metis
  have cat: "visible_items d \<noteq> vs @ [(''category'', v)]" for d vs v
    using visible_keys(1) [of d] by auto
  have snoc: "us @ [p] = vs @ [q, r] \<longleftrightarrow> us = vs @ [q] \<and> p = r" for us vs and p q r :: "string \<times> pyval"
    by (metis append.assoc append_Cons append_Nil append1_eq_conv)
  have snoc': "vs @ [q, r] = us @ [p] \<longleftrightarrow> us = vs @ [q] \<and> p = r" for us vs and p q r :: "string \<times> pyval"
    using snoc by metis
  show ?thesis
    using assms(2,3) cat key
    by (auto simp: public_device_cases snoc snoc' dest!: category_items_inj split: option.split_asm)
qed

section \<open>Properties\<close>

text \<open>C32: the App sees the public part of a device and nothing else. Two devices have the same
  snapshot exactly when they agree on everything but the simulated delay, the armed
  failure, the registration record and the driver's timers; no key of a snapshot starts
  with an underscore.\<close>

theorem snapshot_shows_public_part:
  assumes "device_ok a" "device_ok b" "categories_ok categories"
    and "public_device categories a = Inr x" "public_device categories b = Inr y"
  shows "(x = y \<longleftrightarrow> public_part a = public_part b) \<and> \<not> list_ex hidden (dict_keys x)"
proof
  show "x = y \<longleftrightarrow> public_part a = public_part b"
    unfolding public_tail_iff [OF assms(3-5)] visible_iff [OF assms(1,2)] public_part_iff by blast
  have "\<not> list_ex hidden (dict_keys (visible_items a))"
    by (auto simp: list_ex_iff visible_items_def)
  then show "\<not> list_ex hidden (dict_keys x)"
    using assms(4) by (auto simp: public_device_cases split: option.split_asm)
qed

theorem snapshot_shows_public_part_witness:
  "let d = make_light [] ''light-1'' [] ''living'' 60; cats = [(''lighting'', hd light_categories)];
       x = public_device cats d; y = public_device cats (d\<lparr>dev_fail_next := True\<rparr>)
   in x = y \<and> (\<exists>p. x = Inr p \<and> \<not> list_ex hidden (dict_keys p))"
proof -
  let ?d = "make_light [] ''light-1'' [] ''living'' 60" and ?e = "(make_light [] ''light-1'' [] ''living'' 60)\<lparr>dev_fail_next := True\<rparr>"
  let ?cats = "[(''lighting'', hd light_categories)]"
  have ok: "device_ok ?d" "device_ok ?e" "categories_ok ?cats"
    by (simp_all add: make_light_def base_device_def device_ok_def light_ok_def categories_ok_def
        dict_all_def light_categories_def)
  obtain p where p: "public_device ?cats ?d = Inr p"
    by (simp add: public_device_cases make_light_def base_device_def)
  obtain q where q: "public_device ?cats ?e = Inr q"
    by (simp add: public_device_cases make_light_def base_device_def)
  have "public_part ?d = public_part ?e" by (simp add: public_part_def make_light_def base_device_def)
  with snapshot_shows_public_part [OF ok p q] p q show ?thesis by (auto simp: Let_def)
qed

section \<open>Advertised controls\<close>

definition controls_of :: "family \<Rightarrow> payload list" where
  "controls_of b = (case py_get (body_items b) ''controls'' of
       PList cs \<Rightarrow> map (\<lambda>c. case c of PDict items \<Rightarrow> items | _ \<Rightarrow> []) cs | _ \<Rightarrow> [])"

definition state_keys :: "family \<Rightarrow> string list" where
  "state_keys b = (case py_get (body_items b) ''state'' of PDict items \<Rightarrow> dict_keys items | _ \<Rightarrow> [])"

definition str_of :: "pyval \<Rightarrow> string" where
  "str_of v = (case v of PStr s \<Rightarrow> s | _ \<Rightarrow> [])"

definition int_of :: "pyval \<Rightarrow> int" where
  "int_of v = (case v of PInt i \<Rightarrow> i | _ \<Rightarrow> 0)"

definition option_values :: "payload \<Rightarrow> pyval list" where
  "option_values c = (case py_get c ''options'' of
       PList os \<Rightarrow> map (\<lambda>x. case x of PDict items \<Rightarrow> py_get items ''value'' | _ \<Rightarrow> PNone) os | _ \<Rightarrow> [])"

definition offers :: "payload \<Rightarrow> pyval \<Rightarrow> bool" where
  \<comment> \<open>the values a control lets the user send\<close>
  "offers c v = (let kind = py_get c ''kind'' in
     if kind = PStr ''toggle'' then v \<in> {PBool True, PBool False}
     else if kind = PStr ''enum'' then v \<in> set (option_values c)
     else if kind = PStr ''slider'' then
       (case v of PInt i \<Rightarrow> int_of (py_get c ''minimum'') \<le> i \<and> i \<le> int_of (py_get c ''maximum'')
          \<and> (i - int_of (py_get c ''minimum'')) mod int_of (py_get c ''step'') = 0 | _ \<Rightarrow> False)
     else kind = PStr ''button'')"

definition message_of :: "payload \<Rightarrow> pyval \<Rightarrow> payload" where
  "message_of c v = (case py_get c ''payloadKey'' of PStr k \<Rightarrow> [(k, v)] | _ \<Rightarrow> [])"

lemmas control_simps = controls_of_def state_keys_def str_of_def int_of_def option_values_def offers_def
  message_of_def py_get_def

definition honoured :: "driver \<Rightarrow> world \<Rightarrow> device \<Rightarrow> driver_context \<Rightarrow> payload \<Rightarrow> pyval \<Rightarrow> bool" where
  "honoured drv w d cx c v \<longleftrightarrow>
     (fst (dr_execute drv w d (str_of (py_get c ''action'')) (message_of c v) cx) = Inr () \<longleftrightarrow> offers c v)
     \<and> (case dict_get c ''stateKey'' of None \<Rightarrow> py_get c ''kind'' = PStr ''button''
        | Some k \<Rightarrow> str_of k \<in> set (state_keys (dev_body d)))"

lemma bath_mode_accepted:
  "fst (bath_step b ''setMode'' [(''mode'', PStr x)]) = Inr () \<longleftrightarrow> x \<in> {''warm'', ''ventilate'', ''dry''}"
  by (simp add: bath_step_def py_get_def del: insert_iff)

lemma fst_bath_execute:
  "dev_body d = BathHeater b \<Longrightarrow> fst (bath_execute w d a p cx) = fst (bath_step b a p)"
  by (simp add: bath_execute_def split: prod.split)

lemma bath_honoured:
  assumes "dev_body d = BathHeater b" "c \<in> set (controls_of (BathHeater b))"
    and "(\<exists>x. v = PBool x) \<or> (\<exists>x. v = PInt x) \<or> (\<exists>x. v = PStr x)"
  shows "honoured bath_driver w d cx c v"
proof -
  consider "c = [(''id'', PStr ''power''), (''kind'', PStr ''toggle''), (''label'', PText l_switch),
       (''action'', PStr ''setPower''), (''stateKey'', PStr ''power''), (''payloadKey'', PStr ''power''),
       (''primary'', PBool True)]"
    | "c = [(''id'', PStr ''mode''), (''kind'', PStr ''enum''), (''label'', PText l_work_mode),
       (''action'', PStr ''setMode''), (''stateKey'', PStr ''mode''), (''payloadKey'', PStr ''mode''),
       (''options'', PList
         [PDict [(''value'', PStr ''warm''), (''label'', PText l_warm)],
          PDict [(''value'', PStr ''ventilate''), (''label'', PText l_ventilate)],
          PDict [(''value'', PStr ''dry''), (''label'', PText l_dry)]])]"
    using assms(2) by (auto simp: controls_of_def py_get_def bath_controls_def)
  then show ?thesis
  proof cases
    case 1
    with assms(1,3) show ?thesis
      by (auto simp: honoured_def control_simps fst_bath_execute bath_step_def)
  next
    case 2
    with assms(1) have h: "honoured bath_driver w d cx c v \<longleftrightarrow>
        (fst (bath_step b ''setMode'' [(''mode'', v)]) = Inr () \<longleftrightarrow> v \<in> {PStr ''warm'', PStr ''ventilate'', PStr ''dry''})"
      by (simp add: honoured_def control_simps fst_bath_execute)
    from assms(3) show ?thesis
      unfolding h by (elim disjE exE) (simp_all add: bath_mode_accepted, simp_all add: bath_step_def py_get_def)
  qed
qed

lemma humidifier_steps_accept:
  "fst (humidifier_step h ''setPower'' [(''power'', v)]) = Inr () \<longleftrightarrow> (\<exists>b. v = PBool b)"
  "fst (humidifier_step h ''setTargetHumidity'' [(''targetHumidityPercent'', PInt i)]) = Inr () \<longleftrightarrow> 35 \<le> i \<and> i \<le> 75"
  "fst (humidifier_step h ''setTargetHumidity'' [(''targetHumidityPercent'', PBool x)]) \<noteq> Inr ()"
  "fst (humidifier_step h ''setTargetHumidity'' [(''targetHumidityPercent'', PStr y)]) \<noteq> Inr ()"
  by (auto simp: humidifier_step_def py_get_def num_in_def not_less split: pyval.split)

lemma fst_humidifier_execute:
  "dev_body d = Humidifier b \<Longrightarrow> fst (humidifier_execute w d a p cx) = fst (humidifier_step b a p)"
  by (simp add: humidifier_execute_def split: prod.split)

lemma humidifier_honoured:
  assumes "dev_body d = Humidifier h" "c \<in> set (controls_of (Humidifier h))"
    and "(\<exists>x. v = PBool x) \<or> (\<exists>x. v = PInt x) \<or> (\<exists>x. v = PStr x)"
  shows "honoured humidifier_driver w d cx c v"
proof -
  consider "c = [(''id'', PStr ''power''), (''kind'', PStr ''toggle''), (''label'', PText l_switch),
       (''action'', PStr ''setPower''), (''stateKey'', PStr ''power''), (''payloadKey'', PStr ''power''),
       (''primary'', PBool True)]"
    | "c = [(''id'', PStr ''targetHumidity''), (''kind'', PStr ''slider''),
       (''label'', PText l_target_humidity), (''action'', PStr ''setTargetHumidity''),
       (''stateKey'', PStr ''targetHumidityPercent''), (''payloadKey'', PStr ''targetHumidityPercent''),
       (''minimum'', PInt 35), (''maximum'', PInt 75), (''step'', PInt 1), (''unit'', PStr ''%'')]"
    using assms(2) by (auto simp: controls_of_def py_get_def humidifier_controls_def)
  then show ?thesis
  proof cases
    case 1
    with assms(1) have h: "honoured humidifier_driver w d cx c v \<longleftrightarrow>
        ((\<exists>b. v = PBool b) \<longleftrightarrow> v = PBool True \<or> v = PBool False)"
      by (simp add: honoured_def control_simps fst_humidifier_execute humidifier_steps_accept)
    show ?thesis unfolding h by auto
  next
    case 2
    with assms(1) have h: "honoured humidifier_driver w d cx c v \<longleftrightarrow>
        (fst (humidifier_step h ''setTargetHumidity'' [(''targetHumidityPercent'', v)]) = Inr () \<longleftrightarrow>
         (case v of PInt i \<Rightarrow> 35 \<le> i \<and> i \<le> 75 | _ \<Rightarrow> False))"
      by (simp add: honoured_def control_simps fst_humidifier_execute Let_def cong: pyval.case_cong)
    from assms(3) show ?thesis
      unfolding h by (elim disjE exE) (simp_all add: humidifier_steps_accept)
  qed
qed

lemma curtain_steps_accept:
  "fst (curtain_step k ''open'' p) = Inr ()" "fst (curtain_step k ''stop'' p) = Inr ()"
  "fst (curtain_step k ''close'' p) = Inr ()"
  "fst (curtain_step k ''setPosition'' [(''positionPercent'', PInt i)]) = Inr () \<longleftrightarrow> 0 \<le> i \<and> i \<le> 100"
  "fst (curtain_step k ''setPosition'' [(''positionPercent'', PBool x)]) \<noteq> Inr ()"
  "fst (curtain_step k ''setPosition'' [(''positionPercent'', PStr y)]) \<noteq> Inr ()"
  by (simp_all add: curtain_step_def curtain_target_def py_get_def Let_def not_less)

lemma fst_curtain_execute:
  "dev_body d = Curtain b \<Longrightarrow> fst (curtain_execute w d a p cx) = fst (curtain_step b a p)"
  by (simp add: curtain_execute_def split: prod.split)

lemma curtain_honoured:
  assumes "dev_body d = Curtain k" "c \<in> set (controls_of (Curtain k))"
    and "(\<exists>x. v = PBool x) \<or> (\<exists>x. v = PInt x) \<or> (\<exists>x. v = PStr x)"
  shows "honoured curtain_driver w d cx c v"
proof -
  consider "c = [(''id'', PStr ''position''), (''kind'', PStr ''slider''), (''label'', PText l_position),
       (''action'', PStr ''setPosition''), (''stateKey'', PStr ''positionPercent''),
       (''payloadKey'', PStr ''positionPercent''), (''minimum'', PInt 0), (''maximum'', PInt 100),
       (''step'', PInt 1), (''unit'', PStr ''%''), (''primary'', PBool True),
       (''requiresConfirmation'', PBool False)]"
    | i l a where "c = [(''id'', PStr i), (''kind'', PStr ''button''), (''label'', PText l), (''action'', PStr a)]"
      "a = ''open'' \<or> a = ''stop'' \<or> a = ''close''"
    using assms(2) by (auto simp: controls_of_def py_get_def curtain_controls_def)
  then show ?thesis
  proof cases
    case 1
    with assms(1) have h: "honoured curtain_driver w d cx c v \<longleftrightarrow>
        (fst (curtain_step k ''setPosition'' [(''positionPercent'', v)]) = Inr () \<longleftrightarrow>
         (case v of PInt i \<Rightarrow> 0 \<le> i \<and> i \<le> 100 | _ \<Rightarrow> False))"
      by (simp add: honoured_def control_simps fst_curtain_execute Let_def cong: pyval.case_cong)
    from assms(3) show ?thesis
      unfolding h by (elim disjE exE) (simp_all add: curtain_steps_accept)
  next
    case 2
    then have "honoured curtain_driver w d cx c v \<longleftrightarrow> fst (curtain_step k a []) = Inr ()"
      using assms(1) by (simp add: honoured_def control_simps fst_curtain_execute Let_def cong: pyval.case_cong)
    with 2(2) show ?thesis by (auto simp: curtain_steps_accept)
  qed
qed

text \<open>C34: an advertised control works. For every well-formed device of a family with controls
  and every control in its snapshot: the driver accepts exactly the offered values among
  all booleans, integers and strings (a button takes anything), and where the control
  names a state key, the snapshot's \<open>state\<close> has that key.\<close>

theorem controls_honoured:
  assumes "(drv, b) \<in> {(bath_driver, BathHeater bs), (humidifier_driver, Humidifier hs), (curtain_driver, Curtain cs)}"
    and "dev_body d = b" "c \<in> set (controls_of b)"
    and "v \<in> range PBool \<union> range PInt \<union> range PStr"
  shows "honoured drv w d cx c v"
proof -
  have v: "(\<exists>x. v = PBool x) \<or> (\<exists>x. v = PInt x) \<or> (\<exists>x. v = PStr x)" using assms(4) by auto
  consider "drv = bath_driver" "b = BathHeater bs" | "drv = humidifier_driver" "b = Humidifier hs"
    | "drv = curtain_driver" "b = Curtain cs" using assms(1) by auto
  then show ?thesis
    using assms(2,3) v
    by cases (simp_all add: bath_honoured humidifier_honoured curtain_honoured)
qed

theorem controls_honoured_witness:
  "let d = make_humidifier [] ''humidifier-1'' [] ''living''; c = controls_of (dev_body d) ! 1 in
   fst (humidifier_execute calm_world d (str_of (py_get c ''action'')) (message_of c (PInt 60)) empty_context) = Inr ()
   \<and> fst (humidifier_execute calm_world d (str_of (py_get c ''action'')) (message_of c (PInt 80)) empty_context) \<noteq> Inr ()"
proof -
  let ?h = "\<lparr>hu_power = False, hu_target = 55\<rparr>" and ?d = "make_humidifier [] ''humidifier-1'' [] ''living''"
  let ?k = "controls_of (Humidifier \<lparr>hu_power = False, hu_target = 55\<rparr>) ! 1"
  have b: "dev_body ?d = Humidifier ?h" by (simp add: make_humidifier_def base_device_def)
  have k: "?k \<in> set (controls_of (Humidifier ?h))"
    by (simp add: control_simps humidifier_controls_def)
  have o: "offers ?k (PInt 60)" "\<not> offers ?k (PInt 80)"
    by (simp_all add: control_simps humidifier_controls_def)
  note use = controls_honoured [where drv = humidifier_driver and b = "Humidifier ?h" and hs = ?h and d = ?d
      and c = ?k and w = calm_world and cx = empty_context]
  from use [where v = "PInt 60"] use [where v = "PInt 80"] b k o show ?thesis
    unfolding Let_def by (simp add: honoured_def del: One_nat_def)
qed

end
