(* ===== verification/Registry.thy ===== *)
theory Registry
  imports Snapshot "HOL-Library.List_Lexorder" "HOL-Library.Char_ord"
begin

text \<open>
  \<open>DeviceRegistry\<close> of \<open>registry.py\<close> and \<open>default_drivers\<close> of \<open>composition.py\<close>: the devices,
  drivers, categories and rooms of the gateway, the routing of a command to the driver of
  its device, the two scenes, the tick of all drivers and the injection of faults.

  The dictionaries of the object are fields of \<open>registry\<close>; an operation that may raise
  returns the exception together with the registry it leaves behind. A device in the
  dictionary is a mutable object that its driver changes in place; writing it back under
  its own key is \<open>put_device\<close>. Every driver call has its own readings of the platform: one
  \<open>world\<close> for a command, a sequence of them for a scene or a tick.
\<close>

section \<open>State\<close>

record room =
  ro_id :: string
  ro_name :: pytext
  ro_selectable :: bool

definition DEFAULT_ROOMS :: "room list" where
  "DEFAULT_ROOMS =
     [\<lparr>ro_id = ''living'', ro_name = t_living, ro_selectable = True\<rparr>,
      \<lparr>ro_id = ''masterBedroom'', ro_name = t_master, ro_selectable = True\<rparr>,
      \<lparr>ro_id = ''bedroom'', ro_name = t_bedroom, ro_selectable = True\<rparr>,
      \<lparr>ro_id = ''bathroom'', ro_name = t_bathroom, ro_selectable = True\<rparr>,
      \<lparr>ro_id = ''entry'', ro_name = t_entry, ro_selectable = False\<rparr>]"

record registry =
  rg_categories :: "(string, category) dict"
  rg_drivers :: "(string, driver) dict"
  rg_devices :: "(string, device) dict"
  rg_rooms :: "(string, room) dict"
  rg_cx :: driver_context

definition put_device :: "device \<Rightarrow> registry \<Rightarrow> registry" where
  "put_device d rg = rg\<lparr>rg_devices := dict_set (dev_id d) d (rg_devices rg)\<rparr>"

section \<open>Registering drivers\<close>

definition default_drivers :: "driver list" where
  "default_drivers = [light_driver, sensor_driver, humidifier_driver, bath_driver, ac_driver,
     door_driver, curtain_driver]"

fun validate_categories ::
  "(string, category) dict \<Rightarrow> (string, category) dict \<Rightarrow> category list \<Rightarrow> exn + (string, category) dict" where
  "validate_categories known categories [] = Inr categories"
| "validate_categories known categories (c # cs) =
     (if cat_id c = [] \<or> cat_title c = [] \<or> cat_icon c = [] then Inl (Raised ValueError)
      else if dict_get known (cat_id c) \<noteq> None \<or> dict_get categories (cat_id c) \<noteq> None
        then Inl (Raised ValueError)
      else validate_categories known (dict_set (cat_id c) c categories) cs)"

fun check_created :: "driver \<Rightarrow> string list \<Rightarrow> (string, device) dict \<Rightarrow> string list \<Rightarrow> device list \<Rightarrow> exn + unit" where
  "check_created drv category_ids devices new_ids [] = Inr ()"
| "check_created drv category_ids devices new_ids (d # ds) =
     (if dev_id d = [] then Inl (Raised ValueError)
      else if dev_type d \<noteq> dr_type drv then Inl (Raised ValueError)
      else if dict_get devices (dev_id d) \<noteq> None \<or> dev_id d \<in> set new_ids then Inl (Raised ValueError)
      else if dr_requires_category drv
              \<and> (case dev_category d of None \<Rightarrow> True | Some c \<Rightarrow> c \<notin> set category_ids)
        then Inl (Raised ValueError)
      else check_created drv category_ids devices (dev_id d # new_ids) ds)"

definition dict_update :: "('k, 'v) dict \<Rightarrow> ('k, 'v) dict \<Rightarrow> ('k, 'v) dict" where
  \<comment> \<open>\<open>d.update(new)\<close>\<close>
  "dict_update d new = fold (\<lambda>(k, v). dict_set k v) new d"

definition register_driver :: "string \<Rightarrow> driver \<Rightarrow> registry \<Rightarrow> exn + registry" where
  "register_driver stamp drv rg =
     (let device_type = dr_type drv in
      if device_type = [] \<or> dict_get (rg_drivers rg) device_type \<noteq> None then Inl (Raised ValueError)
      else case validate_categories (rg_categories rg) [] (dr_categories drv) of
        Inl x \<Rightarrow> Inl x
      | Inr new_categories \<Rightarrow>
          (let created = dr_devices drv stamp;
               registered_category_ids = dict_keys (rg_categories rg) @ dict_keys new_categories
           in case check_created drv registered_category_ids (rg_devices rg) [] created of
                Inl x \<Rightarrow> Inl x
              | Inr _ \<Rightarrow> Inr (rg\<lparr>rg_categories := dict_update (rg_categories rg) new_categories,
                  rg_drivers := dict_set device_type drv (rg_drivers rg),
                  rg_devices := fold (\<lambda>d. dict_set (dev_id d) d) created (rg_devices rg)\<rparr>)))"

fun register_drivers :: "string \<Rightarrow> driver list \<Rightarrow> registry \<Rightarrow> exn + registry" where
  "register_drivers stamp [] rg = Inr rg"
| "register_drivers stamp (drv # drvs) rg = (case register_driver stamp drv rg of
       Inl x \<Rightarrow> Inl x | Inr rg' \<Rightarrow> register_drivers stamp drvs rg')"

definition new_registry :: "string \<Rightarrow> storage \<Rightarrow> driver list \<Rightarrow> exn + registry" where
  "new_registry stamp storage drivers = register_drivers stamp drivers
     \<lparr>rg_categories = [], rg_drivers = [], rg_devices = [],
      rg_rooms = fold (\<lambda>r. dict_set (ro_id r) r) DEFAULT_ROOMS [],
      rg_cx = \<lparr>cx_storage = storage, cx_pending = []\<rparr>\<rparr>"

section \<open>Queries\<close>

fun gather :: "('a \<Rightarrow> exn + 'b) \<Rightarrow> 'a list \<Rightarrow> exn + 'b list" where
  \<comment> \<open>a list comprehension whose body may raise\<close>
  "gather f [] = Inr []"
| "gather f (x # xs) = (case f x of Inl e \<Rightarrow> Inl e | Inr y \<Rightarrow>
     (case gather f xs of Inl e \<Rightarrow> Inl e | Inr ys \<Rightarrow> Inr (y # ys)))"

definition snapshot :: "registry \<Rightarrow> exn + payload list" where
  "snapshot rg = gather (public_device (rg_categories rg)) (dict_values (rg_devices rg))"

definition rooms_snapshot :: "registry \<Rightarrow> room list" where
  "rooms_snapshot rg = dict_values (rg_rooms rg)"

definition get_device :: "registry \<Rightarrow> string \<Rightarrow> exn + device" where
  "get_device rg device_id = (case dict_get (rg_devices rg) device_id of
       None \<Rightarrow> Inl (invalid m_no_device) | Some d \<Rightarrow> Inr d)"

definition find_first :: "registry \<Rightarrow> lookup" where
  "find_first rg device_type room_id =
     find (\<lambda>d. dev_type d = device_type \<and> (room_id = None \<or> room_id = Some (dev_room d)))
       (dict_values (rg_devices rg))"

definition driver_for :: "registry \<Rightarrow> device \<Rightarrow> exn + driver" where
  "driver_for rg d = (case dict_get (rg_drivers rg) (dev_type d) of
       None \<Rightarrow> Inl (invalid m_no_driver) | Some drv \<Rightarrow> Inr drv)"

section \<open>Rooms and provisioned devices\<close>

definition create_room :: "string \<Rightarrow> pytext \<Rightarrow> registry \<Rightarrow> (room, registry) outcome" where
  "create_room room_id name rg =
     (if dict_get (rg_rooms rg) room_id \<noteq> None then (Inl (invalid m_room_id_taken), rg)
      else if list_ex (\<lambda>r. ro_name r = name) (dict_values (rg_rooms rg))
        then (Inl (invalid m_room_name_taken), rg)
      else (let r = \<lparr>ro_id = room_id, ro_name = name, ro_selectable = True\<rparr> in
        (Inr r, rg\<lparr>rg_rooms := dict_set room_id r (rg_rooms rg)\<rparr>)))"

definition register_provisioned ::
  "string \<Rightarrow> string \<Rightarrow> pytext \<Rightarrow> string \<Rightarrow> string \<Rightarrow> string \<Rightarrow> string list \<Rightarrow> registry
   \<Rightarrow> (payload, registry) outcome" where
  "register_provisioned stamp device_id name room_id device_type category_id capabilities rg =
     (if (case dict_get (rg_rooms rg) room_id of None \<Rightarrow> True | Some r \<Rightarrow> \<not> ro_selectable r)
      then (Inl (invalid m_bad_room), rg)
      else case dict_get (rg_drivers rg) device_type of
        None \<Rightarrow> (Inl (invalid m_no_driver), rg)
      | Some drv \<Rightarrow>
          (case dr_attest drv stamp device_id name room_id category_id capabilities of
             Inl x \<Rightarrow> (Inl x, rg)
           | Inr attested \<Rightarrow>
               if dev_id attested \<noteq> device_id \<or> dev_type attested \<noteq> device_type
                  \<or> dev_category attested \<noteq> Some category_id \<or> \<not> dev_online attested
               then (Inl (Gateway (gw INTERNAL_ERROR m_bad_attest)), rg)
               else (let d = attested\<lparr>dev_reg_caps := Some (sort capabilities)\<rparr> in
                 case dict_get (rg_devices rg) device_id of
                   Some existing \<Rightarrow>
                     if dev_removable existing \<and> dev_name existing = name \<and> dev_room existing = room_id
                        \<and> dev_type existing = device_type \<and> dev_category existing = Some category_id
                        \<and> dev_reg_caps existing = Some (sort capabilities)
                     then (public_device (rg_categories rg) existing, rg)
                     else (Inl (invalid m_serial_taken), rg)
                 | None \<Rightarrow> (public_device (rg_categories rg) d,
                     rg\<lparr>rg_devices := dict_set device_id d (rg_devices rg)\<rparr>))))"

definition remove_provisioned :: "string \<Rightarrow> registry \<Rightarrow> (payload, registry) outcome" where
  "remove_provisioned device_id rg = (case get_device rg device_id of
       Inl x \<Rightarrow> (Inl x, rg)
     | Inr d \<Rightarrow>
         if \<not> dev_removable d then (Inl (invalid m_not_removable), rg)
         else case public_device (rg_categories rg) d of
           Inl x \<Rightarrow> (Inl x, rg)
         | Inr public \<Rightarrow> (Inr public, rg\<lparr>rg_devices := dict_del device_id (rg_devices rg)\<rparr>))"

section \<open>Commands\<close>

definition ensure_commandable :: "device \<Rightarrow> int option \<Rightarrow> (unit, device) outcome" where
  "ensure_commandable d expected_version =
     (if \<not> dev_online d then (Inl (Gateway (gw DEVICE_OFFLINE m_offline)), d)
      else if expected_version \<noteq> None \<and> expected_version \<noteq> Some (dev_version d)
        then (Inl (Gateway (gw STATE_CONFLICT m_conflict)), d)
      else if dev_delay_ms d > 5000 then (Inl (Gateway (gw COMMAND_TIMEOUT m_timeout)), d)
      else if dev_fail_next d
        then (Inl (Gateway (gw INTERNAL_ERROR m_injected)), d\<lparr>dev_fail_next := False\<rparr>)
      else (Inr (), d))"

definition touch :: "world \<Rightarrow> device \<Rightarrow> device" where
  "touch w d = d\<lparr>dev_version := dev_version d + 1, dev_updated := w_iso w\<rparr>"

definition execute_device ::
  "world \<Rightarrow> string \<Rightarrow> string \<Rightarrow> payload \<Rightarrow> int option \<Rightarrow> registry \<Rightarrow> (payload, registry) outcome" where
  "execute_device w device_id action p expected_version rg = (case get_device rg device_id of
       Inl x \<Rightarrow> (Inl x, rg)
     | Inr d \<Rightarrow>
         (case ensure_commandable d expected_version of
            (Inl x, d1) \<Rightarrow> (Inl x, put_device d1 rg)
          | (Inr _, d1) \<Rightarrow>
              (case driver_for rg d1 of
                 Inl x \<Rightarrow> (Inl x, rg)
               | Inr drv \<Rightarrow>
                   (case dr_execute drv w d1 action p (rg_cx rg) of
                      (Inl x, d2, cx) \<Rightarrow> (Inl x, put_device d2 (rg\<lparr>rg_cx := cx\<rparr>))
                    | (Inr _, d2, cx) \<Rightarrow>
                        (let d3 = touch w d2 in
                         (public_device (rg_categories rg) d3, put_device d3 (rg\<lparr>rg_cx := cx\<rparr>)))))))"

section \<open>Scenes\<close>

record scene_result =
  sr_device :: string
  sr_success :: bool
  sr_error :: "string option"

type_synonym scene_action = "string \<times> (string \<times> payload) list"

definition action_by_type :: "string \<Rightarrow> (string \<times> payload) option" where
  "action_by_type = map_of
     [(''light'', ''setPower'', [(''power'', PBool False)]),
      (''airConditioner'', ''setPower'', [(''power'', PBool False)]),
      (''bathHeater'', ''setPower'', [(''power'', PBool False)]),
      (''humidifier'', ''setPower'', [(''power'', PBool False)]),
      (''doorLock'', ''lock'', []), (''curtain'', ''close'', [])]"

definition away_actions :: "registry \<Rightarrow> scene_action list" where
  "away_actions rg = List.map_filter
     (\<lambda>d. case action_by_type (dev_type d) of None \<Rightarrow> None | Some a \<Rightarrow> Some (dev_id d, [a]))
     (dict_values (rg_devices rg))"

definition home_actions :: "scene_action list" where
  "home_actions =
     [(''light-living-01'', [(''setBrightness'', [(''brightness'', PInt 70)])]),
      (''ac-living-01'', [(''setMode'', [(''mode'', PStr ''auto'')]),
         (''setTemperature'', [(''temperatureCelsius'', PInt 24)]), (''setPower'', [(''power'', PBool True)])]),
      (''door-entry-01'', [(''lock'', [])])]"

text \<open>One device of a scene: its actions in order, each at the version the device then has,
  until one raises. \<open>n\<close> counts the commands executed so far; command \<open>n\<close> reads \<open>ws n\<close>.\<close>

fun scene_device ::
  "(nat \<Rightarrow> world) \<Rightarrow> nat \<Rightarrow> string \<Rightarrow> (string \<times> payload) list \<Rightarrow> registry \<Rightarrow> (unit, nat \<times> registry) outcome" where
  "scene_device ws n device_id [] rg = (Inr (), n, rg)"
| "scene_device ws n device_id ((action, p) # rest) rg = (case get_device rg device_id of
       Inl x \<Rightarrow> (Inl x, n, rg)
     | Inr d \<Rightarrow>
         (case execute_device (ws n) device_id action p (Some (dev_version d)) rg of
            (Inl x, rg') \<Rightarrow> (Inl x, Suc n, rg')
          | (Inr _, rg') \<Rightarrow> scene_device ws (Suc n) device_id rest rg'))"

fun scene_actions ::
  "(nat \<Rightarrow> world) \<Rightarrow> nat \<Rightarrow> scene_action list \<Rightarrow> registry \<Rightarrow> (scene_result list, registry) outcome" where
  "scene_actions ws n [] rg = (Inr [], rg)"
| "scene_actions ws n ((device_id, acts) # rest) rg =
     (case scene_device ws n device_id acts rg of (r, n', rg') \<Rightarrow>
        (case (case r of
             Inr _ \<Rightarrow> Inr \<lparr>sr_device = device_id, sr_success = True, sr_error = None\<rparr>
           | Inl (Gateway e) \<Rightarrow> Inr \<lparr>sr_device = device_id, sr_success = False, sr_error = Some (err_code e)\<rparr>
           | Inl (Raised x) \<Rightarrow> Inl (Raised x)) of
           Inl x \<Rightarrow> (Inl x, rg')
         | Inr result \<Rightarrow>
             (case scene_actions ws n' rest rg' of
                (Inl x, rg'') \<Rightarrow> (Inl x, rg'')
              | (Inr results, rg'') \<Rightarrow> (Inr (result # results), rg''))))"

definition execute_away :: "(nat \<Rightarrow> world) \<Rightarrow> registry \<Rightarrow> (scene_result list, registry) outcome" where
  "execute_away ws rg = scene_actions ws 0 (away_actions rg) rg"

definition execute_home :: "(nat \<Rightarrow> world) \<Rightarrow> registry \<Rightarrow> (scene_result list, registry) outcome" where
  "execute_home ws rg = scene_actions ws 0 home_actions rg"

datatype command_value = DeviceState payload | SceneResults "scene_result list"

definition execute ::
  "(nat \<Rightarrow> world) \<Rightarrow> string \<Rightarrow> string \<Rightarrow> payload \<Rightarrow> int option \<Rightarrow> registry \<Rightarrow> (command_value, registry) outcome" where
  "execute ws device_id action p expected_version rg =
     (if device_id = ''scene-away'' then
        (if action \<noteq> ''executeAway'' then (Inl (invalid m_bad_scene), rg)
         else case execute_away ws rg of
           (Inl x, rg') \<Rightarrow> (Inl x, rg') | (Inr rs, rg') \<Rightarrow> (Inr (SceneResults rs), rg'))
      else if device_id = ''scene-home'' then
        (if action \<noteq> ''executeHome'' then (Inl (invalid m_bad_scene), rg)
         else case execute_home ws rg of
           (Inl x, rg') \<Rightarrow> (Inl x, rg') | (Inr rs, rg') \<Rightarrow> (Inr (SceneResults rs), rg'))
      else case execute_device (ws 0) device_id action p expected_version rg of
        (Inl x, rg') \<Rightarrow> (Inl x, rg') | (Inr s, rg') \<Rightarrow> (Inr (DeviceState s), rg'))"

section \<open>Ticks\<close>

definition tick_device :: "world \<Rightarrow> string \<Rightarrow> registry \<Rightarrow> (payload option, registry) outcome" where
  "tick_device w device_id rg = (case get_device rg device_id of
       Inl x \<Rightarrow> (Inl x, rg)
     | Inr d \<Rightarrow>
         (case driver_for rg d of
            Inl x \<Rightarrow> (Inl x, rg)
          | Inr drv \<Rightarrow>
              (case dr_tick drv w (find_first rg) d (rg_cx rg) of
                 (Inl x, d1, cx) \<Rightarrow> (Inl x, put_device d1 (rg\<lparr>rg_cx := cx\<rparr>))
               | (Inr False, d1, cx) \<Rightarrow> (Inr None, put_device d1 (rg\<lparr>rg_cx := cx\<rparr>))
               | (Inr True, d1, cx) \<Rightarrow>
                   (let d2 = touch w d1; rg2 = put_device d2 (rg\<lparr>rg_cx := cx\<rparr>) in
                    case public_device (rg_categories rg) d2 of
                      Inl x \<Rightarrow> (Inl x, rg2) | Inr p \<Rightarrow> (Inr (Some p), rg2)))))"

fun tick_devices :: "(nat \<Rightarrow> world) \<Rightarrow> nat \<Rightarrow> string list \<Rightarrow> registry \<Rightarrow> (payload list, registry) outcome" where
  "tick_devices ws n [] rg = (Inr [], rg)"
| "tick_devices ws n (i # is) rg = (case tick_device (ws n) i rg of
       (Inl x, rg') \<Rightarrow> (Inl x, rg')
     | (Inr event, rg') \<Rightarrow>
         (case tick_devices ws (Suc n) is rg' of
            (Inl x, rg'') \<Rightarrow> (Inl x, rg'')
          | (Inr events, rg'') \<Rightarrow> (Inr (case event of None \<Rightarrow> events | Some p \<Rightarrow> p # events), rg'')))"

definition priority_of :: "registry \<Rightarrow> device \<Rightarrow> int" where
  "priority_of rg d = (case driver_for rg d of Inl _ \<Rightarrow> 0 | Inr drv \<Rightarrow> dr_priority drv)"

definition tick_order :: "registry \<Rightarrow> device list" where
  "tick_order rg = sort_key (priority_of rg) (dict_values (rg_devices rg))"

definition tick :: "(nat \<Rightarrow> world) \<Rightarrow> registry \<Rightarrow> (payload list, registry) outcome" where
  "tick ws rg = (case gather (driver_for rg) (dict_values (rg_devices rg)) of
       Inl x \<Rightarrow> (Inl x, rg)
     | Inr _ \<Rightarrow> tick_devices ws 0 (map dev_id (tick_order rg)) rg)"

section \<open>Injection\<close>

record fault =
  fa_online :: "bool option"
  fa_jammed :: "bool option"
  fa_battery :: "int option"
  fa_delay :: "int option"
  fa_fail :: "bool option"

definition apply_fault :: "fault \<Rightarrow> device \<Rightarrow> bool \<times> device" where
  \<comment> \<open>the loop over \<open>mapping\<close>: a value is written when it is given and the device has the key\<close>
  "apply_fault f d =
     (let d1 = (case fa_online f of None \<Rightarrow> d | Some v \<Rightarrow> d\<lparr>dev_online := v\<rparr>);
          d2 = (case dev_body d1 of
              DoorLock s \<Rightarrow>
                (let s1 = (case fa_jammed f of None \<Rightarrow> s | Some v \<Rightarrow> s\<lparr>do_jammed := v\<rparr>);
                     s2 = (case fa_battery f of None \<Rightarrow> s1 | Some v \<Rightarrow> s1\<lparr>do_battery := v\<rparr>)
                 in d1\<lparr>dev_body := DoorLock s2\<rparr>)
            | _ \<Rightarrow> d1);
          d3 = (case fa_delay f of None \<Rightarrow> d2 | Some v \<Rightarrow> d2\<lparr>dev_delay_ms := v\<rparr>);
          d4 = (case fa_fail f of None \<Rightarrow> d3 | Some v \<Rightarrow> d3\<lparr>dev_fail_next := v\<rparr>);
          has_lock = (case dev_body d of DoorLock _ \<Rightarrow> True | _ \<Rightarrow> False)
      in (fa_online f \<noteq> None \<or> has_lock \<and> (fa_jammed f \<noteq> None \<or> fa_battery f \<noteq> None)
            \<or> fa_delay f \<noteq> None \<or> fa_fail f \<noteq> None, d4))"

definition battery_of :: "device \<Rightarrow> int" where
  \<comment> \<open>\<open>device.get("batteryPercent", 100)\<close>\<close>
  "battery_of d = (case dev_body d of DoorLock s \<Rightarrow> do_battery s | _ \<Rightarrow> 100)"

definition inject_fault :: "world \<Rightarrow> string \<Rightarrow> fault \<Rightarrow> registry \<Rightarrow> (payload, registry) outcome" where
  "inject_fault w device_id f rg = (case get_device rg device_id of
       Inl x \<Rightarrow> (Inl x, rg)
     | Inr d \<Rightarrow>
         (case apply_fault f d of (changed, d1) \<Rightarrow>
            (let d2 = (if changed then touch w d1 else d1);
                 cx = (if changed \<and> battery_of d2 \<le> 20
                       then record_alert w device_id ''warning'' ''LOW_BATTERY'' m_low_battery (rg_cx rg)
                       else rg_cx rg)
             in (public_device (rg_categories rg) d2, put_device d2 (rg\<lparr>rg_cx := cx\<rparr>)))))"

definition drain_alerts :: "registry \<Rightarrow> alert_event list \<times> registry" where
  "drain_alerts rg = (cx_pending (rg_cx rg), rg\<lparr>rg_cx := (rg_cx rg)\<lparr>cx_pending := []\<rparr>\<rparr>)"

record injection =
  in_temperature :: "rat option"
  in_humidity :: "rat option"
  in_illuminance :: "rat option"
  in_presence :: "bool option"

definition given :: "'a option \<Rightarrow> 'a \<Rightarrow> 'a" where
  "given new old = (case new of None \<Rightarrow> old | Some v \<Rightarrow> v)"

definition inject_environment :: "world \<Rightarrow> injection \<Rightarrow> registry \<Rightarrow> (payload, registry) outcome" where
  "inject_environment w values rg = (case find_first rg ''environment'' None of
       None \<Rightarrow> (Inl (invalid m_no_env), rg)
     | Some d \<Rightarrow>
         (case dev_body d of
            Environment e \<Rightarrow>
              (let e1 = e\<lparr>en_temperature := given (in_temperature values) (en_temperature e),
                     en_humidity := given (in_humidity values) (en_humidity e),
                     en_illuminance := given (in_illuminance values) (en_illuminance e),
                     en_presence := given (in_presence values) (en_presence e),
                     en_manual_until := fadd (w_time w) 30\<rparr>;
                   d1 = touch w (d\<lparr>dev_body := Environment e1\<rparr>)
               in (public_device (rg_categories rg) d1, put_device d1 rg))
          | _ \<Rightarrow> (Inl (Raised KeyError), rg)))"

end
