(* ===== verification/RegistryFacts.thy ===== *)
theory RegistryFacts
  imports Registry
begin

text \<open>
  The invariant of the registry and what its operations keep. Every registered driver
  satisfies the contract \<open>device_driver\<close>, every device is well formed and has a driver and a
  category, so no snapshot and no routing ever fails; \<open>same_but\<close> is the frame of a change
  to one device. The properties follow: version numbers, refusals, scenes, ticks,
  provisioning and rooms.
\<close>

section \<open>The invariant\<close>

definition attest_ok :: "(string, category) dict \<Rightarrow> driver \<Rightarrow> bool" where
  \<comment> \<open>the driver attests devices of registered categories only\<close>
  "attest_ok categories drv \<longleftrightarrow> (\<forall>stamp i n room cat caps d.
     dr_attest drv stamp i n room cat caps = Inr d \<longrightarrow> dict_get categories cat \<noteq> None)"

definition driver_entry :: "string \<Rightarrow> driver \<Rightarrow> bool" where
  "driver_entry t drv \<longleftrightarrow> dr_type drv = t \<and> t \<noteq> [] \<and> device_driver drv"

definition device_entry ::
  "(string, category) dict \<Rightarrow> (string, driver) dict \<Rightarrow> string \<Rightarrow> device \<Rightarrow> bool" where
  "device_entry categories drivers i d \<longleftrightarrow> dev_id d = i \<and> i \<noteq> [] \<and> device_ok d
     \<and> dict_get drivers (dev_type d) \<noteq> None
     \<and> (case dev_category d of None \<Rightarrow> True | Some c \<Rightarrow> dict_get categories c \<noteq> None)"

definition rooms_ok :: "(string, room) dict \<Rightarrow> bool" where
  "rooms_ok rooms \<longleftrightarrow> dict_all (\<lambda>k r. ro_id r = k) rooms \<and> distinct (map ro_name (dict_values rooms))"

definition registry_core :: "registry \<Rightarrow> bool" where
  "registry_core rg \<longleftrightarrow> categories_ok (rg_categories rg) \<and> dict_all driver_entry (rg_drivers rg)
     \<and> dict_all (device_entry (rg_categories rg) (rg_drivers rg)) (rg_devices rg)
     \<and> rooms_ok (rg_rooms rg) \<and> context_ok (rg_cx rg)"

definition registry_ok :: "registry \<Rightarrow> bool" where
  "registry_ok rg \<longleftrightarrow> registry_core rg
     \<and> (\<forall>t drv. dict_get (rg_drivers rg) t = Some drv \<longrightarrow> attest_ok (rg_categories rg) drv)"

lemmas registry_ok_parts = registry_ok_def registry_core_def

lemma registry_ok_device:
  assumes "registry_ok rg" "dict_get (rg_devices rg) i = Some d"
  shows "dev_id d = i" "i \<noteq> []" "device_ok d" "dict_get (rg_drivers rg) (dev_type d) \<noteq> None"
    "\<exists>p. public_device (rg_categories rg) d = Inr p"
proof -
  have "device_entry (rg_categories rg) (rg_drivers rg) i d"
    using assms dict_all_get unfolding registry_ok_parts by metis
  then show "dev_id d = i" "i \<noteq> []" "device_ok d" "dict_get (rg_drivers rg) (dev_type d) \<noteq> None"
    "\<exists>p. public_device (rg_categories rg) d = Inr p"
    by (auto simp: device_entry_def public_device_cases split: option.splits)
qed

lemma registry_ok_driver:
  assumes "registry_ok rg" "dict_get (rg_devices rg) i = Some d"
  obtains drv where "driver_for rg d = Inr drv" "dict_get (rg_drivers rg) (dev_type d) = Some drv"
    "dr_type drv = dev_type d" "device_driver drv"
proof -
  obtain drv where drv: "dict_get (rg_drivers rg) (dev_type d) = Some drv"
    using registry_ok_device(4) [OF assms] by blast
  then have "driver_entry (dev_type d) drv"
    using assms(1) dict_all_get unfolding registry_ok_parts by metis
  with drv that show ?thesis by (simp add: driver_entry_def driver_for_def)
qed

lemma device_mem_get:
  assumes "registry_ok rg" "d \<in> set (dict_values (rg_devices rg))"
  shows "dict_get (rg_devices rg) (dev_id d) = Some d"
proof -
  obtain i where m: "(i, d) \<in> set (rg_devices rg)" using assms(2) by auto
  have "dict_ok (rg_devices rg)" using assms(1) by (simp add: registry_ok_parts dict_all_def)
  with m have "dict_get (rg_devices rg) i = Some d" by simp
  with registry_ok_device(1) [OF assms(1) this] show ?thesis by simp
qed

lemma get_device_simp:
  "get_device rg i = Inr d \<longleftrightarrow> dict_get (rg_devices rg) i = Some d"
  "get_device rg i = Inl x \<longleftrightarrow> dict_get (rg_devices rg) i = None \<and> x = invalid m_no_device"
  by (auto simp: get_device_def split: option.splits)

lemma find_first_mem:
  "find_first rg t room = Some d \<Longrightarrow> d \<in> set (dict_values (rg_devices rg)) \<and> dev_type d = t"
  unfolding find_first_def by (drule find_Some_mem) simp

lemma find_first_ok: "registry_ok rg \<Longrightarrow> lookup_ok (find_first rg)"
  unfolding lookup_ok_def using registry_ok_device(3) device_mem_get find_first_mem by blast

section \<open>Changing one device\<close>

definition same_but :: "string \<Rightarrow> registry \<Rightarrow> registry \<Rightarrow> bool" where
  \<comment> \<open>what a command or a tick of device \<open>i\<close> may not touch\<close>
  "same_but i rg rg' \<longleftrightarrow> rg_categories rg' = rg_categories rg \<and> rg_drivers rg' = rg_drivers rg
     \<and> rg_rooms rg' = rg_rooms rg \<and> dict_keys (rg_devices rg') = dict_keys (rg_devices rg)
     \<and> (\<forall>j. j \<noteq> i \<longrightarrow> dict_get (rg_devices rg') j = dict_get (rg_devices rg) j)"

lemma same_but_refl [simp]: "same_but i rg rg"
  by (simp add: same_but_def)

lemma same_but_trans: "same_but i rg rg' \<Longrightarrow> same_but i rg' rg'' \<Longrightarrow> same_but i rg rg''"
  by (simp add: same_but_def)

lemma put_device_get [dict_simps]:
  "dict_get (rg_devices (put_device d rg)) i = (if i = dev_id d then Some d else dict_get (rg_devices rg) i)"
  by (simp add: put_device_def dict_simps)

lemma put_device_sel [simp]:
  "rg_categories (put_device d rg) = rg_categories rg" "rg_drivers (put_device d rg) = rg_drivers rg"
  "rg_rooms (put_device d rg) = rg_rooms rg" "rg_cx (put_device d rg) = rg_cx rg"
  by (simp_all add: put_device_def)

lemma dict_get_key: "dict_get xs i = Some d \<Longrightarrow> i \<in> set (dict_keys xs)"
  using dict_get_None_iff [of xs i] by (auto dest: dict_get_mem)

lemma put_device_keys:
  "dict_get (rg_devices rg) (dev_id d) = Some d0 \<Longrightarrow>
   dict_keys (rg_devices (put_device d rg)) = dict_keys (rg_devices rg)"
  using dict_get_key [of "rg_devices rg" "dev_id d" d0] by (simp add: put_device_def dict_simps)

text \<open>A device written back under its own id, with its type and category, keeps the invariant.\<close>

lemma put_device_ok:
  assumes ok: "registry_ok rg" and old: "dict_get (rg_devices rg) i = Some d0"
    and new: "device_ok d" "dev_id d = i" "dev_type d = dev_type d0" "dev_category d = dev_category d0"
    and cx: "context_ok cx"
  shows "registry_ok (put_device d (rg\<lparr>rg_cx := cx\<rparr>)) \<and> same_but i rg (put_device d (rg\<lparr>rg_cx := cx\<rparr>))"
proof -
  have "device_entry (rg_categories rg) (rg_drivers rg) i d0"
    using ok old dict_all_get unfolding registry_ok_parts by metis
  then have "device_entry (rg_categories rg) (rg_drivers rg) i d"
    using new by (simp add: device_entry_def)
  then have "registry_ok (put_device d (rg\<lparr>rg_cx := cx\<rparr>))"
    using ok cx new(2) by (simp add: registry_ok_parts put_device_def dict_all_set)
  moreover have "dict_keys (rg_devices (put_device d (rg\<lparr>rg_cx := cx\<rparr>))) = dict_keys (rg_devices rg)"
    using put_device_keys [of "rg\<lparr>rg_cx := cx\<rparr>" d d0] old new(2) by simp
  ultimately show ?thesis
    using new(2) by (auto simp: same_but_def put_device_get)
qed

lemma touch_sel [simp]:
  "dev_version (touch w d) = dev_version d + 1" "dev_id (touch w d) = dev_id d"
  "dev_type (touch w d) = dev_type d" "dev_body (touch w d) = dev_body d" "dev_room (touch w d) = dev_room d"
  "dev_category (touch w d) = dev_category d" "dev_online (touch w d) = dev_online d"
  "dev_removable (touch w d) = dev_removable d" "dev_reg_caps (touch w d) = dev_reg_caps d"
  "dev_name (touch w d) = dev_name d" "dev_updated (touch w d) = w_iso w"
  by (simp_all add: touch_def)

lemma device_ok_touch [simp]: "device_ok (touch w d) = device_ok d"
  by (simp add: device_ok_def)

lemma device_ok_fields [simp]:
  "device_ok (d\<lparr>dev_fail_next := b\<rparr>) = device_ok d" "device_ok (d\<lparr>dev_delay_ms := n\<rparr>) = device_ok d"
  "device_ok (d\<lparr>dev_online := b\<rparr>) = device_ok d" "device_ok (d\<lparr>dev_reg_caps := c\<rparr>) = device_ok d"
  by (simp_all add: device_ok_def)

section \<open>One command\<close>

lemma ensure_cases:
  assumes "ensure_commandable d ev = (r, d1)"
  shows "(r = Inr () \<and> d1 = d \<and> dev_online d \<and> (ev = None \<or> ev = Some (dev_version d))
        \<and> dev_delay_ms d \<le> 5000 \<and> \<not> dev_fail_next d)
    \<or> ((\<exists>g. r = Inl (Gateway g)) \<and> d1 = d\<lparr>dev_fail_next := dev_fail_next d1\<rparr>)"
  using assms by (auto simp: ensure_commandable_def split: if_split_asm)

text \<open>The outcome of a command on a registered device: the invariant and the frame hold
  either way; on success exactly one version is added and the answer is the new
  snapshot; on an error the version stays.\<close>

lemma execute_device_cases:
  assumes ok: "registry_ok rg" and ex: "execute_device w i a p ev rg = (r, rg')"
  shows "registry_ok rg' \<and> same_but i rg rg'
    \<and> st_audit (cx_storage (rg_cx rg')) = st_audit (cx_storage (rg_cx rg))
    \<and> (case r of
        Inr s \<Rightarrow> (\<exists>d d'. dict_get (rg_devices rg) i = Some d \<and> dict_get (rg_devices rg') i = Some d'
            \<and> dev_version d' = dev_version d + 1 \<and> dev_updated d' = w_iso w
            \<and> public_device (rg_categories rg') d' = Inr s
            \<and> dev_online d \<and> (ev = None \<or> ev = Some (dev_version d)))
      | Inl e \<Rightarrow> ((\<exists>g. e = Gateway g) \<or> e = Raised ValueError)
          \<and> map_option dev_version (dict_get (rg_devices rg') i) = map_option dev_version (dict_get (rg_devices rg) i))"
proof (cases "dict_get (rg_devices rg) i")
  case None
  with ex ok show ?thesis by (auto simp: execute_device_def get_device_def invalid_def)
next
  case (Some d)
  note d = registry_ok_device [OF ok Some]
  have cx: "context_ok (rg_cx rg)" using ok by (simp add: registry_ok_parts)
  have keep: "rg\<lparr>rg_cx := rg_cx rg\<rparr> = rg" by simp
  note run = execute_device_def get_device_def Some
  obtain r1 d1 where en: "ensure_commandable d ev = (r1, d1)" by (cases "ensure_commandable d ev")
  show ?thesis
  proof (cases r1)
    case (Inl x)
    with en ex have r: "r = Inl x" "rg' = put_device d1 rg" by (simp_all add: run)
    from ensure_cases [OF en] Inl obtain g where x: "x = Gateway g"
      and d1: "d1 = d\<lparr>dev_fail_next := dev_fail_next d1\<rparr>" by auto
    obtain b where b: "d1 = d\<lparr>dev_fail_next := b\<rparr>" using d1 by blast
    have "registry_ok (put_device d1 (rg\<lparr>rg_cx := rg_cx rg\<rparr>)) \<and> same_but i rg (put_device d1 (rg\<lparr>rg_cx := rg_cx rg\<rparr>))"
      by (rule put_device_ok [OF ok Some]) (use b d cx in simp_all)
    with r x b d Some show ?thesis by (simp add: put_device_get)
  next
    case (Inr u)
    with ensure_cases [OF en] have cmd: "d1 = d" "dev_online d" "ev = None \<or> ev = Some (dev_version d)" by auto
    obtain drv where drv: "driver_for rg d = Inr drv" "dr_type drv = dev_type d" "device_driver drv"
      using registry_ok_driver [OF ok Some] by metis
    have dd: "driver_exec drv" using drv(3) by (rule device_driver.axioms)
    obtain r2 d2 cx2 where st: "dr_execute drv w d a p (rg_cx rg) = (r2, d2, cx2)"
      by (cases "dr_execute drv w d a p (rg_cx rg)")
    have fr: "d2 = d\<lparr>dev_body := dev_body d2\<rparr>" "device_ok d2"
      using driver_exec.exec_frame [OF dd d(3) drv(2) [symmetric] st] by simp_all
    have idn: "dev_id d2 = dev_id d" "dev_type d2 = dev_type d" "dev_version d2 = dev_version d"
        "dev_category d2 = dev_category d"
      using driver_exec.exec_identity [OF dd d(3) drv(2) [symmetric] st] by simp_all
    have c2: "context_ok cx2" "st_audit (cx_storage cx2) = st_audit (cx_storage (rg_cx rg))"
      using driver_exec.exec_context [OF dd d(3) drv(2) [symmetric] cx st] by simp_all
    show ?thesis
    proof (cases r2)
      case (Inl e)
      have r: "r = Inl e" "rg' = put_device d2 (rg\<lparr>rg_cx := cx2\<rparr>)"
        using ex en Inr Inl cmd(1) drv(1) st by (simp_all add: run)
      have "(\<exists>g. e = Gateway g) \<or> e = Raised ValueError"
        using driver_exec.exec_errors [OF dd d(3) drv(2) [symmetric]] st Inl by metis
      moreover have "registry_ok rg' \<and> same_but i rg rg'"
        unfolding r(2) by (rule put_device_ok [OF ok Some]) (use fr idn d c2 in simp_all)
      ultimately show ?thesis using r idn d Some c2 by (simp add: put_device_get)
    next
      case (Inr u2)
      let ?d3 = "touch w d2"
      have r: "r = public_device (rg_categories rg) ?d3" "rg' = put_device ?d3 (rg\<lparr>rg_cx := cx2\<rparr>)"
        using ex en \<open>r1 = Inr u\<close> Inr cmd(1) drv(1) st by (simp_all add: run Let_def)
      have "registry_ok rg' \<and> same_but i rg rg'"
        unfolding r(2) by (rule put_device_ok [OF ok Some]) (use fr idn d c2 in simp_all)
      moreover have g3: "dict_get (rg_devices rg') i = Some ?d3"
        using r(2) idn d by (simp add: put_device_get)
      moreover obtain s where "public_device (rg_categories rg') ?d3 = Inr s"
        using registry_ok_device(5) [of rg' i ?d3] calculation by blast
      moreover have "rg_categories rg' = rg_categories rg" using r(2) by simp
      ultimately show ?thesis using r idn Some cmd c2 by auto
    qed
  qed
qed

section \<open>Registering drivers\<close>

lemma device_entry_mono:
  assumes "device_entry cs ds i d" "\<And>c. dict_get cs c \<noteq> None \<Longrightarrow> dict_get cs' c \<noteq> None"
    "\<And>t. dict_get ds t \<noteq> None \<Longrightarrow> dict_get ds' t \<noteq> None"
  shows "device_entry cs' ds' i d"
  using assms by (auto simp: device_entry_def split: option.splits)

definition category_entry :: "string \<Rightarrow> category \<Rightarrow> bool" where
  "category_entry k c \<longleftrightarrow> cat_id c = k \<and> k \<noteq> []"

lemma categories_ok_entry: "categories_ok cs \<longleftrightarrow> dict_all category_entry cs"
  by (simp add: categories_ok_def category_entry_def dict_all_def)

lemma validate_categories_ok:
  "validate_categories known acc cs = Inr new \<Longrightarrow> dict_all category_entry acc \<Longrightarrow> dict_all category_entry new"
proof (induction known acc cs rule: validate_categories.induct)
  case (1 known acc)
  then show ?case by simp
next
  case (2 known acc c cs)
  then show ?case by (auto simp: category_entry_def intro: dict_all_set split: if_split_asm)
qed

lemma dict_update_get: "dict_get (dict_update d new) k = (if dict_get (rev new) k = None then dict_get d k else dict_get (rev new) k)"
  unfolding dict_update_def
  by (induction new arbitrary: d) (auto simp: dict_simps map_add_def split: option.split)

lemma dict_update_old: "dict_get d k \<noteq> None \<Longrightarrow> dict_get (dict_update d new) k \<noteq> None"
  by (auto simp: dict_update_get)

lemma dict_update_new: "k \<in> set (dict_keys new) \<Longrightarrow> dict_get (dict_update d new) k \<noteq> None"
  by (auto simp: dict_update_get dict_get_None_iff)

lemma dict_update_all: "dict_all P d \<Longrightarrow> dict_all P new \<Longrightarrow> dict_all P (dict_update d new)"
proof -
  have "dict_all P d \<Longrightarrow> \<forall>(k, v) \<in> set new. P k v \<Longrightarrow> dict_all P (dict_update d new)" for d
    unfolding dict_update_def by (induction new arbitrary: d) (auto intro: dict_all_set)
  then show "dict_all P d \<Longrightarrow> dict_all P new \<Longrightarrow> dict_all P (dict_update d new)"
    by (simp add: dict_all_def)
qed

lemma check_created_ok:
  assumes "check_created drv cats devs news ds = Inr ()" "d \<in> set ds"
  shows "dev_id d \<noteq> [] \<and> dev_type d = dr_type drv
    \<and> (dr_requires_category drv \<longrightarrow> (\<exists>c. dev_category d = Some c \<and> c \<in> set cats))"
  using assms
  by (induction drv cats devs news ds rule: check_created.induct) (auto split: if_split_asm option.split_asm)

lemma devices_added_ok:
  assumes "dict_all (device_entry cs ds) devs" "\<forall>d \<in> set new. device_entry cs ds (dev_id d) d"
  shows "dict_all (device_entry cs ds) (fold (\<lambda>d. dict_set (dev_id d) d) new devs)"
  using assms by (induction new arbitrary: devs) (auto intro: dict_all_set)

lemma register_driver_cases:
  assumes reg: "register_driver stamp drv rg = Inr rg'"
  shows "\<exists>new. dr_type drv \<noteq> [] \<and> dict_get (rg_drivers rg) (dr_type drv) = None
    \<and> validate_categories (rg_categories rg) [] (dr_categories drv) = Inr new
    \<and> check_created drv (dict_keys (rg_categories rg) @ dict_keys new) (rg_devices rg) [] (dr_devices drv stamp) = Inr ()
    \<and> rg' = rg\<lparr>rg_categories := dict_update (rg_categories rg) new,
        rg_drivers := dict_set (dr_type drv) drv (rg_drivers rg),
        rg_devices := fold (\<lambda>d. dict_set (dev_id d) d) (dr_devices drv stamp) (rg_devices rg)\<rparr>"
proof (cases "validate_categories (rg_categories rg) [] (dr_categories drv)")
  case (Inl x)
  with reg show ?thesis by (simp add: register_driver_def Let_def split: if_split_asm)
next
  case (Inr new)
  show ?thesis
  proof (cases "check_created drv (dict_keys (rg_categories rg) @ dict_keys new) (rg_devices rg) [] (dr_devices drv stamp)")
    case (Inl x)
    with Inr reg show ?thesis by (simp add: register_driver_def Let_def split: if_split_asm)
  next
    case (Inr u)
    with \<open>validate_categories _ _ _ = _\<close> reg show ?thesis
      by (intro exI [of _ new]) (simp add: register_driver_def Let_def split: if_split_asm)
  qed
qed

text \<open>A driver that keeps its contract can be registered with a well-formed registry.\<close>

lemma register_driver_core:
  assumes ok: "registry_core rg" and reg: "register_driver stamp drv rg = Inr rg'"
    and drv: "device_driver drv"
    and cat: "dr_requires_category drv \<or> (\<forall>d \<in> set (dr_devices drv stamp). dev_category d = None)"
  shows "registry_core rg'"
proof -
  obtain new where t: "dr_type drv \<noteq> []" "dict_get (rg_drivers rg) (dr_type drv) = None"
    and new: "validate_categories (rg_categories rg) [] (dr_categories drv) = Inr new"
    and chk: "check_created drv (dict_keys (rg_categories rg) @ dict_keys new) (rg_devices rg) [] (dr_devices drv stamp) = Inr ()"
    and rg': "rg' = rg\<lparr>rg_categories := dict_update (rg_categories rg) new,
        rg_drivers := dict_set (dr_type drv) drv (rg_drivers rg),
        rg_devices := fold (\<lambda>d. dict_set (dev_id d) d) (dr_devices drv stamp) (rg_devices rg)\<rparr>"
    using register_driver_cases [OF reg] by blast
  let ?cs = "dict_update (rg_categories rg) new" and ?ds = "dict_set (dr_type drv) drv (rg_drivers rg)"
  have old: "dict_get (rg_categories rg) c \<noteq> None \<Longrightarrow> dict_get ?cs c \<noteq> None" for c
    by (rule dict_update_old)
  have cs: "categories_ok ?cs" unfolding categories_ok_entry
    by (rule dict_update_all) (use ok validate_categories_ok [OF new] in
      \<open>simp_all add: registry_core_def categories_ok_entry\<close>)
  have "dict_all driver_entry (rg_drivers rg)" using ok by (simp add: registry_core_def)
  then have ds: "dict_all driver_entry ?ds"
    by (rule dict_all_set) (use t drv in \<open>simp add: driver_entry_def\<close>)
  have entry: "device_entry ?cs ?ds (dev_id d) d" if d: "d \<in> set (dr_devices drv stamp)" for d
  proof -
    note c = check_created_ok [OF chk d]
    have "device_ok d" using driver_make.created [OF device_driver.axioms(3) [OF drv] d] by simp
    moreover have "case dev_category d of None \<Rightarrow> True | Some x \<Rightarrow> dict_get ?cs x \<noteq> None"
    proof (cases "dev_category d")
      case (Some x)
      with c cat d have "x \<in> set (dict_keys (rg_categories rg) @ dict_keys new)" by auto
      then have "dict_get (rg_categories rg) x \<noteq> None \<or> x \<in> set (dict_keys new)"
        using dict_get_None_iff [of "rg_categories rg" x] by auto
      then have "dict_get ?cs x \<noteq> None"
        using dict_update_old [of "rg_categories rg" x new] dict_update_new [of x new "rg_categories rg"] by blast
      then show ?thesis unfolding Some option.case .
    qed simp
    moreover have "dict_get ?ds (dev_type d) \<noteq> None" using c by (simp add: dict_simps)
    ultimately show ?thesis using c unfolding device_entry_def by blast
  qed
  have dsold: "dict_get (rg_drivers rg) t \<noteq> None \<Longrightarrow> dict_get ?ds t \<noteq> None" for t by (simp add: dict_simps)
  have "dict_all (device_entry (rg_categories rg) (rg_drivers rg)) (rg_devices rg)"
    using ok by (simp add: registry_core_def)
  then have "dict_all (device_entry ?cs ?ds) (rg_devices rg)"
    by (rule dict_all_mono) (erule device_entry_mono, erule old, erule dsold)
  then have "dict_all (device_entry ?cs ?ds) (fold (\<lambda>d. dict_set (dev_id d) d) (dr_devices drv stamp) (rg_devices rg))"
    by (rule devices_added_ok) (use entry in blast)
  with ok cs ds show ?thesis by (simp add: registry_core_def rg')
qed

lemma register_drivers_core:
  assumes "registry_core rg" "register_drivers stamp drvs rg = Inr rg'"
    and "\<forall>drv \<in> set drvs. device_driver drv
      \<and> (dr_requires_category drv \<or> (\<forall>d \<in> set (dr_devices drv stamp). dev_category d = None))"
  shows "registry_core rg'"
  using assms
  by (induction drvs arbitrary: rg) (auto intro: register_driver_core split: sum.split_asm)

section \<open>The built-in registry\<close>

lemmas default_contracts = light_contract.device_driver_axioms sensor_contract.device_driver_axioms
  humidifier_contract.device_driver_axioms bath_contract.device_driver_axioms
  ac_contract.device_driver_axioms door_contract.device_driver_axioms curtain_contract.device_driver_axioms

definition default_ids :: "string list" where
  "default_ids = [''light-living-01'', ''light-master-01'', ''light-bedroom-01'', ''env-living-01'',
     ''env-master-01'', ''env-bedroom-01'', ''humidifier-living-01'', ''bath-heater-bathroom-01'',
     ''ac-living-01'', ''ac-master-01'', ''ac-bedroom-01'', ''door-entry-01'', ''curtain-living-01'',
     ''curtain-master-01'', ''curtain-bedroom-01'']"

lemma made_sel:
  "dev_type (make_light stamp i n r b) = ''light''" "dev_id (make_light stamp i n r b) = i"
  "dev_category (make_light stamp i n r b) = Some ''lighting''"
  "dev_type (make_humidifier stamp i n r) = ''humidifier''" "dev_id (make_humidifier stamp i n r) = i"
  "dev_category (make_humidifier stamp i n r) = Some ''environment''"
  "dev_type (make_curtain stamp i n r) = ''curtain''" "dev_id (make_curtain stamp i n r) = i"
  "dev_category (make_curtain stamp i n r) = Some ''curtains''"
  by (simp_all add: make_light_def make_humidifier_def make_curtain_def base_device_def)

lemmas text_nonempty = t_lighting_def t_icon_light_def t_environment_def t_icon_env_def t_curtains_def asc_def

lemmas created_devices = light_devices_def sensor_devices_def humidifier_devices_def bath_devices_def
  ac_devices_def door_devices_def curtain_devices_def

lemma default_drivers_register:
  "\<exists>rg. register_drivers stamp default_drivers \<lparr>rg_categories = [], rg_drivers = [], rg_devices = [],
       rg_rooms = rooms, rg_cx = cx\<rparr> = Inr rg
     \<and> dict_keys (rg_devices rg) = default_ids
     \<and> dict_keys (rg_categories rg) = [''lighting'', ''environment'', ''curtains'']
     \<and> rg_drivers rg = map (\<lambda>d. (dr_type d, d)) default_drivers \<and> rg_rooms rg = rooms \<and> rg_cx rg = cx"
  by (simp add: default_drivers_def register_driver_def light_categories_def env_categories_def
      curtain_categories_def created_devices default_ids_def Let_def text_nonempty made_sel
      dict_update_def base_device_def)

lemma default_attests:
  assumes "drv \<in> set default_drivers" "\<forall>c \<in> {''lighting'', ''environment''}. dict_get cs c \<noteq> None"
  shows "attest_ok cs drv"
  using assms
  by (auto simp: default_drivers_def attest_ok_def light_attest_def sensor_attest_def
      humidifier_attest_def ac_attest_def no_attest_def split: if_split_asm)

lemma default_drivers_contract:
  "\<forall>drv \<in> set default_drivers. device_driver drv
     \<and> (dr_requires_category drv \<or> (\<forall>d \<in> set (dr_devices drv stamp). dev_category d = None))"
proof -
  have "\<forall>d \<in> set (door_devices stamp). dev_category d = None" by (simp add: door_devices_def base_device_def)
  then show ?thesis
    unfolding default_drivers_def list.set by (simp add: default_contracts)
qed

lemma default_rooms_ok: "rooms_ok (fold (\<lambda>r. dict_set (ro_id r) r) DEFAULT_ROOMS [])"
  by (simp add: rooms_ok_def dict_all_def DEFAULT_ROOMS_def t_living_def t_master_def t_bedroom_def
      t_bathroom_def t_entry_def)

lemma default_registry:
  assumes "storage_ok st"
  shows "\<exists>rg. new_registry stamp st default_drivers = Inr rg \<and> registry_ok rg
    \<and> dict_keys (rg_devices rg) = default_ids
    \<and> rg_cx rg = \<lparr>cx_storage = st, cx_pending = []\<rparr>
    \<and> rg_drivers rg = map (\<lambda>d. (dr_type d, d)) default_drivers"
proof -
  let ?rooms = "fold (\<lambda>r. dict_set (ro_id r) r) DEFAULT_ROOMS []"
  let ?cx = "\<lparr>cx_storage = st, cx_pending = []\<rparr>"
  let ?rg0 = "\<lparr>rg_categories = [], rg_drivers = [], rg_devices = [], rg_rooms = ?rooms, rg_cx = ?cx\<rparr>"
  obtain rg where rg: "register_drivers stamp default_drivers ?rg0 = Inr rg"
      "dict_keys (rg_devices rg) = default_ids"
      "dict_keys (rg_categories rg) = [''lighting'', ''environment'', ''curtains'']"
      "rg_drivers rg = map (\<lambda>d. (dr_type d, d)) default_drivers" "rg_rooms rg = ?rooms" "rg_cx rg = ?cx"
    using default_drivers_register [of stamp ?rooms ?cx] by (elim exE conjE) (rule that)
  have core0: "registry_core ?rg0"
    using assms default_rooms_ok by (simp add: registry_core_def categories_ok_def context_ok_def)
  have "registry_core rg"
    by (rule register_drivers_core [OF core0 rg(1) default_drivers_contract])
  moreover have "attest_ok (rg_categories rg) drv" if "dict_get (rg_drivers rg) t = Some drv" for t drv
  proof (rule default_attests)
    show "drv \<in> set default_drivers" using dict_get_mem [OF that] unfolding rg(4) by auto
    have "dict_get (rg_categories rg) ''lighting'' \<noteq> None" "dict_get (rg_categories rg) ''environment'' \<noteq> None"
      unfolding dict_get_None_iff rg(3) by simp_all
    then show "\<forall>c \<in> {''lighting'', ''environment''}. dict_get (rg_categories rg) c \<noteq> None" by blast
  qed
  ultimately have "registry_ok rg" by (simp add: registry_ok_def)
  moreover have "new_registry stamp st default_drivers = Inr rg"
    unfolding new_registry_def by (rule rg(1))
  ultimately show ?thesis using rg(2,4,6) by (intro exI conjI)
qed

end
