(* ===== verification/RegistryRuns.thy ===== *)
theory RegistryRuns
  imports RegistryFacts "HOL-Library.Multiset"
begin

text \<open>
  Runs of the registry: every operation as one step, the states reachable from the built-in
  registry, and the properties of commands, scenes, ticks, provisioning and rooms.
\<close>

section \<open>Every operation keeps the invariant\<close>

definition registry_step_ok :: "registry \<Rightarrow> registry \<Rightarrow> bool" where
  \<comment> \<open>the invariant holds afterwards, and drivers, categories and the audit log are as before\<close>
  "registry_step_ok rg rg' \<longleftrightarrow> registry_ok rg' \<and> rg_drivers rg' = rg_drivers rg
     \<and> rg_categories rg' = rg_categories rg"

lemma registry_step_ok_trans:
  "registry_step_ok rg rg' \<Longrightarrow> registry_step_ok rg' rg'' \<Longrightarrow> registry_step_ok rg rg''"
  by (simp add: registry_step_ok_def)

lemma execute_device_step:
  assumes "registry_ok rg" "execute_device w i a p ev rg = (r, rg')"
  shows "registry_step_ok rg rg' \<and> same_but i rg rg'
    \<and> st_audit (cx_storage (rg_cx rg')) = st_audit (cx_storage (rg_cx rg))"
  using execute_device_cases [OF assms] by (simp add: registry_step_ok_def same_but_def)

lemma execute_device_error:
  "registry_ok rg \<Longrightarrow> execute_device w i a p ev rg = (Inl e, rg') \<Longrightarrow>
   (\<exists>g. e = Gateway g) \<or> e = Raised ValueError"
  using execute_device_cases [of rg w i a p ev "Inl e" rg'] by simp

definition quiet :: "registry \<Rightarrow> registry \<Rightarrow> bool" where
  "quiet rg rg' \<longleftrightarrow> st_audit (cx_storage (rg_cx rg')) = st_audit (cx_storage (rg_cx rg))
     \<and> dict_keys (rg_devices rg') = dict_keys (rg_devices rg) \<and> rg_rooms rg' = rg_rooms rg"

lemma quiet_refl [simp]: "quiet rg rg"
  by (simp add: quiet_def)

lemma quiet_trans: "quiet rg rg' \<Longrightarrow> quiet rg' rg'' \<Longrightarrow> quiet rg rg''"
  by (simp add: quiet_def)

lemma registry_step_ok_refl: "registry_ok rg \<Longrightarrow> registry_step_ok rg rg"
  by (simp add: registry_step_ok_def)

lemma scene_device_step:
  assumes "registry_ok rg" "scene_device ws n i acts rg = (r, n', rg')"
  shows "registry_step_ok rg rg' \<and> same_but i rg rg' \<and> quiet rg rg'
    \<and> (\<forall>e. r = Inl e \<longrightarrow> (\<exists>g. e = Gateway g) \<or> e = Raised ValueError)"
  using assms
proof (induction ws n i acts rg rule: scene_device.induct)
  case (1 ws n i rg)
  then show ?case by (auto simp: registry_step_ok_refl)
next
  case (2 ws n i a p acts rg)
  show ?case
  proof (cases "get_device rg i")
    case (Inl x)
    with 2 show ?thesis by (auto simp: registry_step_ok_refl invalid_def get_device_simp)
  next
    case (Inr d)
    obtain r1 rg1 where ex: "execute_device (ws n) i a p (Some (dev_version d)) rg = (r1, rg1)"
      by (cases "execute_device (ws n) i a p (Some (dev_version d)) rg")
    note one = execute_device_step [OF 2(2) ex]
    then have q: "quiet rg rg1" by (simp add: quiet_def same_but_def)
    show ?thesis
    proof (cases r1)
      case (Inl e)
      with ex Inr 2(3) have "r = Inl e" "rg' = rg1" by simp_all
      then show ?thesis using one q execute_device_error [OF 2(2)] ex Inl by blast
    next
      case (Inr u)
      with ex \<open>get_device rg i = Inr d\<close> 2(3)
      have rest: "scene_device ws (Suc n) i acts rg1 = (r, n', rg')" by simp
      have "registry_ok rg1" using one by (simp add: registry_step_ok_def)
      from 2(1) [OF \<open>get_device rg i = Inr d\<close> ex [symmetric] Inr this rest] one q
      show ?thesis by (blast intro: registry_step_ok_trans same_but_trans quiet_trans)
    qed
  qed
qed

lemma scene_actions_step:
  assumes "registry_ok rg" "scene_actions ws n acts rg = (r, rg')"
  shows "registry_step_ok rg rg' \<and> quiet rg rg'
    \<and> (\<forall>j. j \<notin> fst ` set acts \<longrightarrow> dict_get (rg_devices rg') j = dict_get (rg_devices rg) j)
    \<and> (\<forall>e. r = Inl e \<longrightarrow> e = Raised ValueError)
    \<and> (\<forall>rs. r = Inr rs \<longrightarrow> map sr_device rs = map fst acts)"
  using assms
proof (induction acts arbitrary: n rg r rg')
  case Nil
  then show ?case by (auto simp: registry_step_ok_refl)
next
  case (Cons x acts)
  obtain i as where x: "x = (i, as)" by (cases x)
  obtain r1 n1 rg1 where sd: "scene_device ws n i as rg = (r1, n1, rg1)"
    by (cases "scene_device ws n i as rg")
  note one = scene_device_step [OF Cons.prems(1) sd]
  then have ok1: "registry_ok rg1" by (simp add: registry_step_ok_def)
  obtain r2 rg2 where sa: "scene_actions ws n1 acts rg1 = (r2, rg2)" by (cases "scene_actions ws n1 acts rg1")
  note rest = Cons.IH [OF ok1 sa]
  have "r1 = Inl (Raised ValueError) \<or> (\<exists>res. sr_device res = i \<and>
      (case r1 of Inr _ \<Rightarrow> Inr \<lparr>sr_device = i, sr_success = True, sr_error = None\<rparr>
           | Inl (Gateway e) \<Rightarrow> Inr \<lparr>sr_device = i, sr_success = False, sr_error = Some (err_code e)\<rparr>
           | Inl (Raised x) \<Rightarrow> Inl (Raised x)) = (Inr res :: exn + scene_result))"
    using one by (cases r1) (auto split: exn.splits)
  then consider "r1 = Inl (Raised ValueError)" | res where "sr_device res = i"
      "(case r1 of Inr _ \<Rightarrow> Inr \<lparr>sr_device = i, sr_success = True, sr_error = None\<rparr>
           | Inl (Gateway e) \<Rightarrow> Inr \<lparr>sr_device = i, sr_success = False, sr_error = Some (err_code e)\<rparr>
           | Inl (Raised x) \<Rightarrow> Inl (Raised x)) = (Inr res :: exn + scene_result)"
    by blast
  then show ?case
  proof cases
    case 1
    with Cons.prems(2) sd x have "r = Inl (Raised ValueError)" "rg' = rg1" by simp_all
    with one x show ?thesis by (auto simp: same_but_def)
  next
    case (2 res)
    then have "r = (case r2 of Inl e \<Rightarrow> Inl e | Inr rs \<Rightarrow> Inr (res # rs))" "rg' = rg2"
      using Cons.prems(2) sd sa x by (auto split: sum.split_asm)
    with one rest x 2(1) show ?thesis
      by (auto simp: same_but_def split: sum.split_asm intro: registry_step_ok_trans quiet_trans)
  qed
qed

lemma execute_step:
  assumes "registry_ok rg" "execute ws i a p ev rg = (r, rg')"
  shows "registry_step_ok rg rg' \<and> quiet rg rg'
    \<and> (\<forall>e. r = Inl e \<longrightarrow> (\<exists>g. e = Gateway g) \<or> e = Raised ValueError)"
proof -
  obtain ra rga where away: "scene_actions ws 0 (away_actions rg) rg = (ra, rga)"
    by (cases "scene_actions ws 0 (away_actions rg) rg")
  obtain rh rgh where home: "scene_actions ws 0 home_actions rg = (rh, rgh)"
    by (cases "scene_actions ws 0 home_actions rg")
  obtain rd rgd where dev: "execute_device (ws 0) i a p ev rg = (rd, rgd)"
    by (cases "execute_device (ws 0) i a p ev rg")
  have qd: "quiet rg rgd" using execute_device_step [OF assms(1) dev] by (simp add: quiet_def same_but_def)
  consider "r = Inl (invalid m_bad_scene)" "rg' = rg"
    | "rg' = rga" "\<forall>e. r = Inl e \<longrightarrow> ra = Inl e" | "rg' = rgh" "\<forall>e. r = Inl e \<longrightarrow> rh = Inl e"
    | "rg' = rgd" "\<forall>e. r = Inl e \<longrightarrow> rd = Inl e"
    using assms(2) away home dev
    by (auto simp: execute_def execute_away_def execute_home_def split: if_split_asm sum.split_asm)
  then show ?thesis
  proof cases
    case 1
    then show ?thesis by (auto simp: registry_step_ok_refl assms(1) invalid_def)
  next
    case 2
    with scene_actions_step [OF assms(1) away] show ?thesis by blast
  next
    case 3
    with scene_actions_step [OF assms(1) home] show ?thesis by blast
  next
    case 4
    with execute_device_step [OF assms(1) dev] qd execute_device_error [OF assms(1)] dev show ?thesis by blast
  qed
qed

section \<open>Ticks\<close>

lemma public_same:
  assumes "device_ok a" "device_ok b" "public_part a = public_part b"
  shows "public_device cs a = public_device cs b"
proof -
  have "visible_items a = visible_items b" "dev_category a = dev_category b" "dev_removable a = dev_removable b"
    using assms by (simp_all add: visible_iff public_part_iff)
  then show ?thesis by (simp only: public_device_cases)
qed

lemma put_device_same:
  "dict_ok (rg_devices rg) \<Longrightarrow> dict_get (rg_devices rg) (dev_id d) = Some d \<Longrightarrow> put_device d rg = rg"
  by (simp add: put_device_def dict_set_get)

lemma registry_ok_dict: "registry_ok rg \<Longrightarrow> dict_ok (rg_devices rg)"
  by (simp add: registry_ok_parts dict_all_def)

text \<open>A tick of one device: silence means that its snapshot did not change, an event is its
  new snapshot at the next version, and only the conversion to a float can raise.\<close>

lemma tick_device_cases:
  assumes ok: "registry_ok rg" and wd: "world_ok w" and dev: "dict_get (rg_devices rg) i = Some d"
    and tk: "tick_device w i rg = (r, rg')"
  shows "registry_step_ok rg rg' \<and> same_but i rg rg' \<and> cx_pending (rg_cx rg') = cx_pending (rg_cx rg)
    \<and> (case r of
        Inl e \<Rightarrow> e = Raised OverflowError
      | Inr None \<Rightarrow> (\<exists>d'. dict_get (rg_devices rg') i = Some d' \<and> dev_version d' = dev_version d
          \<and> public_device (rg_categories rg) d' = public_device (rg_categories rg) d)
      | Inr (Some p) \<Rightarrow> (\<exists>d'. dict_get (rg_devices rg') i = Some d' \<and> dev_version d' = dev_version d + 1
          \<and> public_device (rg_categories rg) d' = Inr p))"
proof -
  note d = registry_ok_device [OF ok dev]
  have cx: "context_ok (rg_cx rg)" using ok by (simp add: registry_ok_parts)
  have look: "lookup_ok (find_first rg)" by (rule find_first_ok [OF ok])
  obtain drv where drv: "driver_for rg d = Inr drv" "dr_type drv = dev_type d" "device_driver drv"
    using registry_ok_driver [OF ok dev] by metis
  have dd: "driver_tick drv" using drv(3) by (rule device_driver.axioms)
  obtain q d1 cx1 where st: "dr_tick drv w (find_first rg) d (rg_cx rg) = (q, d1, cx1)"
    by (cases "dr_tick drv w (find_first rg) d (rg_cx rg)")
  note frame = driver_tick.tick_frame [OF dd d(3) drv(2) [symmetric] wd look st]
  have idn: "dev_id d1 = dev_id d" "dev_type d1 = dev_type d" "dev_version d1 = dev_version d"
      "dev_category d1 = dev_category d"
    using driver_tick.tick_identity [OF dd d(3) drv(2) [symmetric] wd look st] by simp_all
  have c1: "context_ok cx1" "cx_pending cx1 = cx_pending (rg_cx rg)"
    using driver_tick.tick_context [OF dd d(3) drv(2) [symmetric] cx st] by simp_all
  note run = tick_device_def get_device_def dev drv(1) st
  have put: "registry_step_ok rg (put_device x (rg\<lparr>rg_cx := cx1\<rparr>)) \<and> same_but i rg (put_device x (rg\<lparr>rg_cx := cx1\<rparr>))"
    if "device_ok x" "dev_id x = i" "dev_type x = dev_type d" "dev_category x = dev_category d" for x
    using put_device_ok [OF ok dev that c1(1)] by (simp add: registry_step_ok_def same_but_def)
  consider (raised) "q = Inl (Raised OverflowError)" | (silent) "q = Inr False" | (event) "q = Inr True"
    using frame by auto
  then show ?thesis
  proof cases
    case raised
    then have "r = Inl (Raised OverflowError)" "rg' = put_device d1 (rg\<lparr>rg_cx := cx1\<rparr>)"
      using tk by (simp_all add: run)
    with put [of d1] frame idn d c1 show ?thesis by simp
  next
    case silent
    then have r: "r = Inr None" "rg' = put_device d1 (rg\<lparr>rg_cx := cx1\<rparr>)" using tk by (simp_all add: run)
    have "public_body (dev_body d1) = public_body (dev_body d)"
      using driver_tick.tick_silent [OF dd d(3) drv(2) [symmetric] wd look] st silent by metis
    moreover obtain b where "d1 = d\<lparr>dev_body := b\<rparr>" using frame by blast
    ultimately have "public_part d1 = public_part d" by (simp add: public_part_iff)
    then have "public_device (rg_categories rg) d1 = public_device (rg_categories rg) d"
      using public_same frame d(3) by blast
    with r put [of d1] frame idn d c1 show ?thesis by (simp add: put_device_get)
  next
    case event
    let ?d2 = "touch w d1"
    have p: "registry_step_ok rg (put_device ?d2 (rg\<lparr>rg_cx := cx1\<rparr>)) \<and> same_but i rg (put_device ?d2 (rg\<lparr>rg_cx := cx1\<rparr>))"
      by (rule put) (use frame idn d in simp_all)
    have g: "dict_get (rg_devices (put_device ?d2 (rg\<lparr>rg_cx := cx1\<rparr>))) i = Some ?d2"
      using idn d by (simp add: put_device_get)
    obtain s where s: "public_device (rg_categories rg) ?d2 = Inr s"
      using registry_ok_device(5) [OF _ g] p by (auto simp: registry_step_ok_def)
    have r: "r = Inr (Some s)" "rg' = put_device ?d2 (rg\<lparr>rg_cx := cx1\<rparr>)"
      using tk event s by (simp_all add: run Let_def)
    with p g s idn c1 show ?thesis by simp
  qed
qed

lemma tick_devices_step:
  assumes "registry_ok rg" "\<forall>k. world_ok (ws k)" "set is \<subseteq> set (dict_keys (rg_devices rg))"
    "tick_devices ws n is rg = (r, rg')"
  shows "registry_step_ok rg rg' \<and> cx_pending (rg_cx rg') = cx_pending (rg_cx rg)
    \<and> dict_keys (rg_devices rg') = dict_keys (rg_devices rg) \<and> rg_rooms rg' = rg_rooms rg
    \<and> (\<forall>e. r = Inl e \<longrightarrow> e = Raised OverflowError)
    \<and> (\<forall>j. j \<notin> set is \<longrightarrow> dict_get (rg_devices rg') j = dict_get (rg_devices rg) j)"
  using assms
proof (induction "is" arbitrary: n rg r rg')
  case Nil
  then show ?case by (auto simp: registry_step_ok_refl)
next
  case (Cons i "is")
  then have "dict_get (rg_devices rg) i \<noteq> None" by (simp add: dict_get_None_iff)
  then obtain d where d: "dict_get (rg_devices rg) i = Some d" by blast
  obtain r1 rg1 where t: "tick_device (ws n) i rg = (r1, rg1)" by (cases "tick_device (ws n) i rg")
  have one: "registry_step_ok rg rg1 \<and> same_but i rg rg1 \<and> cx_pending (rg_cx rg1) = cx_pending (rg_cx rg)
      \<and> (\<forall>e. r1 = Inl e \<longrightarrow> e = Raised OverflowError)"
    using tick_device_cases [OF Cons.prems(1) _ d t] Cons.prems(2) by (auto split: sum.split_asm)
  obtain r2 rg2 where ts: "tick_devices ws (Suc n) is rg1 = (r2, rg2)" by (cases "tick_devices ws (Suc n) is rg1")
  have rest: "registry_step_ok rg1 rg2 \<and> cx_pending (rg_cx rg2) = cx_pending (rg_cx rg1)
    \<and> dict_keys (rg_devices rg2) = dict_keys (rg_devices rg1) \<and> rg_rooms rg2 = rg_rooms rg1
    \<and> (\<forall>e. r2 = Inl e \<longrightarrow> e = Raised OverflowError)
    \<and> (\<forall>j. j \<notin> set is \<longrightarrow> dict_get (rg_devices rg2) j = dict_get (rg_devices rg1) j)"
    by (rule Cons.IH [OF _ Cons.prems(2) _ ts])
       (use one Cons.prems(3) in \<open>simp_all add: registry_step_ok_def same_but_def\<close>)
  show ?case
  proof (cases r1)
    case (Inl e)
    with t Cons.prems(4) have "r = Inl e" "rg' = rg1" by simp_all
    with one Inl show ?thesis by (auto simp: same_but_def)
  next
    case (Inr ev)
    with t ts Cons.prems(4) have "rg' = rg2" "\<forall>e. r = Inl e \<longrightarrow> r2 = Inl e"
      by (auto split: sum.split_asm)
    with one rest show ?thesis by (auto simp: same_but_def intro: registry_step_ok_trans)
  qed
qed

lemma gather_Inr: "\<forall>x \<in> set xs. \<exists>y. f x = Inr y \<Longrightarrow> \<exists>ys. gather f xs = Inr ys"
  by (induction xs) auto

lemma tick_order_ids:
  assumes "registry_ok rg"
  shows "set (map dev_id (tick_order rg)) = set (dict_keys (rg_devices rg))"
    "distinct (map dev_id (tick_order rg))"
proof -
  have ids: "map dev_id (dict_values (rg_devices rg)) = dict_keys (rg_devices rg)"
    using assms by (auto simp: registry_ok_parts dict_all_def device_entry_def)
  have m: "mset (map dev_id (tick_order rg)) = mset (dict_keys (rg_devices rg))"
    unfolding ids [symmetric] by (simp only: tick_order_def mset_map mset_sort)
  show "set (map dev_id (tick_order rg)) = set (dict_keys (rg_devices rg))"
    using m by (rule mset_eq_setD)
  show "distinct (map dev_id (tick_order rg))"
    using mset_eq_imp_distinct_iff [OF m] registry_ok_dict [OF assms] by blast
qed

lemma tick_runs:
  assumes "registry_ok rg"
  shows "tick ws rg = tick_devices ws 0 (map dev_id (tick_order rg)) rg"
proof -
  have "\<forall>d \<in> set (dict_values (rg_devices rg)). \<exists>drv. driver_for rg d = Inr drv"
  proof
    fix d
    assume d: "d \<in> set (dict_values (rg_devices rg))"
    obtain drv where "driver_for rg d = Inr drv"
      by (rule registry_ok_driver [OF assms device_mem_get [OF assms d]])
    then show "\<exists>drv. driver_for rg d = Inr drv" ..
  qed
  from gather_Inr [OF this] obtain ys where "gather (driver_for rg) (dict_values (rg_devices rg)) = Inr ys" ..
  then show ?thesis unfolding tick_def by simp
qed

lemma tick_step:
  assumes "registry_ok rg" "\<forall>k. world_ok (ws k)" "tick ws rg = (r, rg')"
  shows "registry_step_ok rg rg' \<and> cx_pending (rg_cx rg') = cx_pending (rg_cx rg)
    \<and> dict_keys (rg_devices rg') = dict_keys (rg_devices rg) \<and> rg_rooms rg' = rg_rooms rg
    \<and> (\<forall>e. r = Inl e \<longrightarrow> e = Raised OverflowError)"
  using tick_devices_step [OF assms(1,2) _ assms(3) [unfolded tick_runs [OF assms(1)]]]
    tick_order_ids(1) [OF assms(1)] by simp

section \<open>Rooms, provisioning and injection\<close>

lemma create_room_step:
  assumes "registry_ok rg" "create_room i n rg = (r, rg')"
  shows "registry_step_ok rg rg' \<and> rg_devices rg' = rg_devices rg
    \<and> (case r of Inr new \<Rightarrow> rg_rooms rg' = rg_rooms rg @ [(i, new)]
        \<and> new = \<lparr>ro_id = i, ro_name = n, ro_selectable = True\<rparr> | Inl e \<Rightarrow> rg' = rg \<and> (\<exists>m. e = invalid m))"
proof (cases "dict_get (rg_rooms rg) i = None \<and> \<not> list_ex (\<lambda>r. ro_name r = n) (dict_values (rg_rooms rg))")
  case True
  let ?r = "\<lparr>ro_id = i, ro_name = n, ro_selectable = True\<rparr>"
  have fresh: "i \<notin> set (dict_keys (rg_rooms rg))" using True by (simp add: dict_get_None_iff)
  have app: "dict_set i ?r (rg_rooms rg) = rg_rooms rg @ [(i, ?r)]" by (rule dict_set_fresh [OF fresh])
  have r: "r = Inr ?r" "rg' = rg\<lparr>rg_rooms := rg_rooms rg @ [(i, ?r)]\<rparr>"
    using assms(2) True by (simp_all add: create_room_def Let_def app)
  have "n \<notin> set (map ro_name (dict_values (rg_rooms rg)))" using True by (auto simp: list_ex_iff)
  moreover have "dict_all (\<lambda>k r. ro_id r = k) (rg_rooms rg @ [(i, ?r)])"
    unfolding app [symmetric] using assms(1) by (intro dict_all_set) (simp_all add: registry_ok_parts rooms_ok_def)
  ultimately have "rooms_ok (rg_rooms rg @ [(i, ?r)])"
    using assms(1) by (simp add: registry_ok_parts rooms_ok_def)
  with r assms(1) show ?thesis by (simp add: registry_step_ok_def registry_ok_parts)
next
  case False
  with assms show ?thesis
    by (auto simp: create_room_def Let_def registry_step_ok_refl split: if_split_asm)
qed

lemma register_provisioned_cases:
  assumes ok: "registry_ok rg" and nid: "i \<noteq> []"
    and reg: "register_provisioned stamp i n room t cat caps rg = (r, rg')"
  shows "registry_step_ok rg rg' \<and> rg_rooms rg' = rg_rooms rg \<and> rg_cx rg' = rg_cx rg
    \<and> (rg' = rg \<or> dict_get (rg_devices rg) i = None \<and> (\<exists>d p. rg_devices rg' = rg_devices rg @ [(i, d)]
        \<and> r = Inr p \<and> public_device (rg_categories rg) d = Inr p
        \<and> dev_id d = i \<and> dev_name d = n \<and> dev_room d = room \<and> dev_type d = t \<and> dev_category d = Some cat
        \<and> dev_online d \<and> dev_removable d \<and> dev_version d = 1 \<and> dev_reg_caps d = Some (sort caps)))"
proof (cases "rg' = rg")
  case True
  with ok show ?thesis by (simp add: registry_step_ok_refl)
next
  case False
  then obtain drv attested where drv: "dict_get (rg_drivers rg) t = Some drv"
    and att: "dr_attest drv stamp i n room cat caps = Inr attested"
    and new: "dict_get (rg_devices rg) i = None"
    and r: "r = public_device (rg_categories rg) (attested\<lparr>dev_reg_caps := Some (sort caps)\<rparr>)"
      "rg' = rg\<lparr>rg_devices := dict_set i (attested\<lparr>dev_reg_caps := Some (sort caps)\<rparr>) (rg_devices rg)\<rparr>"
    using reg by (auto simp: register_provisioned_def Let_def split: if_split_asm option.split_asm sum.split_asm)
  let ?d = "attested\<lparr>dev_reg_caps := Some (sort caps)\<rparr>"
  have "driver_entry t drv" using ok drv dict_all_get unfolding registry_ok_parts by metis
  then have dd: "device_driver drv" "dr_type drv = t" by (simp_all add: driver_entry_def)
  have "attest_ok (rg_categories rg) drv" using ok drv by (simp add: registry_ok_def)
  then have cat: "dict_get (rg_categories rg) cat \<noteq> None" using att unfolding attest_ok_def by blast
  have f: "device_ok attested \<and> dev_id attested = i \<and> dev_name attested = n \<and> dev_room attested = room
      \<and> dev_type attested = dr_type drv \<and> dev_category attested = Some cat \<and> dev_online attested
      \<and> dev_removable attested \<and> dev_version attested = 1"
    by (rule driver_make.attested [OF device_driver.axioms(3) [OF dd(1)] att])
  have fresh: "i \<notin> set (dict_keys (rg_devices rg))" using new by (simp add: dict_get_None_iff)
  have rg': "rg' = rg\<lparr>rg_devices := rg_devices rg @ [(i, ?d)]\<rparr>"
    unfolding r(2) dict_set_fresh [OF fresh] ..
  have entry: "device_entry (rg_categories rg) (rg_drivers rg) i ?d"
    using f dd(2) drv cat nid by (simp add: device_entry_def)
  have "dict_all (device_entry (rg_categories rg) (rg_drivers rg)) (dict_set i ?d (rg_devices rg))"
    by (rule dict_all_set) (use ok entry in \<open>simp_all add: registry_ok_parts\<close>)
  then have ok': "registry_ok rg'" using ok unfolding r(2) by (simp add: registry_ok_parts)
  have get': "dict_get (rg_devices rg') i = Some ?d" by (simp add: r(2) dict_simps)
  have cats: "rg_categories rg' = rg_categories rg" by (simp add: rg')
  obtain p where p: "public_device (rg_categories rg) ?d = Inr p"
    using registry_ok_device(5) [OF ok' get'] unfolding cats ..
  have step: "registry_step_ok rg rg'" using ok' by (simp add: registry_step_ok_def rg')
  have "dev_id ?d = i \<and> dev_name ?d = n \<and> dev_room ?d = room \<and> dev_type ?d = t \<and> dev_category ?d = Some cat
        \<and> dev_online ?d \<and> dev_removable ?d \<and> dev_version ?d = 1 \<and> dev_reg_caps ?d = Some (sort caps)"
    using f dd(2) by simp
  moreover have "rg_devices rg' = rg_devices rg @ [(i, ?d)]" "r = Inr p" using rg' r(1) p by simp_all
  moreover have "rg_rooms rg' = rg_rooms rg" "rg_cx rg' = rg_cx rg" by (simp_all add: rg')
  ultimately show ?thesis using step new p by blast
qed

lemma remove_provisioned_cases:
  assumes ok: "registry_ok rg" and rem: "remove_provisioned i rg = (r, rg')"
  shows "registry_step_ok rg rg' \<and> rg_rooms rg' = rg_rooms rg \<and> rg_cx rg' = rg_cx rg
    \<and> (case r of
        Inr p \<Rightarrow> (\<exists>d. dict_get (rg_devices rg) i = Some d \<and> dev_removable d
            \<and> public_device (rg_categories rg) d = Inr p \<and> rg_devices rg' = dict_del i (rg_devices rg))
      | Inl e \<Rightarrow> rg' = rg \<and> (\<exists>m. e = invalid m))"
proof (cases "dict_get (rg_devices rg) i")
  case None
  with rem ok show ?thesis by (auto simp: remove_provisioned_def get_device_def registry_step_ok_refl)
next
  case (Some d)
  obtain p where p: "public_device (rg_categories rg) d = Inr p" using registry_ok_device(5) [OF ok Some] ..
  show ?thesis
  proof (cases "dev_removable d")
    case False
    with rem ok Some show ?thesis by (auto simp: remove_provisioned_def get_device_def registry_step_ok_refl)
  next
    case True
    then have r: "r = Inr p" "rg' = rg\<lparr>rg_devices := dict_del i (rg_devices rg)\<rparr>"
      using rem Some p by (simp_all add: remove_provisioned_def get_device_def)
    then have "registry_ok rg'" using ok by (simp add: registry_ok_parts dict_all_del)
    with r Some True p show ?thesis by (simp add: registry_step_ok_def)
  qed
qed

definition fault_ok :: "fault \<Rightarrow> bool" where
  \<comment> \<open>what \<open>FaultRequest\<close> lets through\<close>
  "fault_ok f \<longleftrightarrow> (\<forall>b. fa_battery f = Some b \<longrightarrow> 0 \<le> b \<and> b \<le> 100)
     \<and> (\<forall>t. fa_delay f = Some t \<longrightarrow> 0 \<le> t \<and> t \<le> 30000)"

lemma apply_fault_frame:
  assumes "device_ok d" "fault_ok f" "apply_fault f d = (c, d1)"
  shows "device_ok d1 \<and> dev_id d1 = dev_id d \<and> dev_type d1 = dev_type d \<and> dev_category d1 = dev_category d
    \<and> dev_version d1 = dev_version d"
proof (cases "dev_body d")
  case (DoorLock s)
  with assms show ?thesis
    by (auto simp: apply_fault_def Let_def device_ok_def door_ok_def fault_ok_def split: option.splits)
qed (use assms in \<open>auto simp: apply_fault_def Let_def device_ok_def split: option.splits\<close>)

lemma inject_fault_step:
  assumes ok: "registry_ok rg" and f: "fault_ok f" and inj: "inject_fault w i f rg = (r, rg')"
  shows "registry_step_ok rg rg' \<and> same_but i rg rg'"
proof (cases "dict_get (rg_devices rg) i")
  case None
  with inj ok show ?thesis by (simp add: inject_fault_def get_device_def registry_step_ok_refl)
next
  case (Some d)
  obtain c d1 where a: "apply_fault f d = (c, d1)" by (cases "apply_fault f d")
  note fr = apply_fault_frame [OF registry_ok_device(3) [OF ok Some] f a]
  have cx: "context_ok (rg_cx rg)" using ok by (simp add: registry_ok_parts)
  let ?d2 = "if c then touch w d1 else d1"
  let ?cx = "if c \<and> battery_of ?d2 \<le> 20
    then record_alert w i ''warning'' ''LOW_BATTERY'' m_low_battery (rg_cx rg) else rg_cx rg"
  have "rg' = put_device ?d2 (rg\<lparr>rg_cx := ?cx\<rparr>)"
    using inj Some a by (simp add: inject_fault_def get_device_def Let_def)
  moreover have "registry_ok (put_device ?d2 (rg\<lparr>rg_cx := ?cx\<rparr>)) \<and> same_but i rg (put_device ?d2 (rg\<lparr>rg_cx := ?cx\<rparr>))"
    by (rule put_device_ok [OF ok Some]) (use fr registry_ok_device(1) [OF ok Some] cx in simp_all)
  ultimately show ?thesis by (simp add: registry_step_ok_def same_but_def)
qed

definition injection_ok :: "injection \<Rightarrow> bool" where
  \<comment> \<open>what \<open>EnvironmentInjection\<close> lets through\<close>
  "injection_ok v \<longleftrightarrow> (\<forall>t. in_temperature v = Some t \<longrightarrow> - 50 \<le> t \<and> t \<le> 80)
     \<and> (\<forall>h. in_humidity v = Some h \<longrightarrow> 0 \<le> h \<and> h \<le> 100)
     \<and> (\<forall>l. in_illuminance v = Some l \<longrightarrow> 0 \<le> l \<and> l \<le> 100000)"

lemma inject_environment_step:
  assumes ok: "registry_ok rg" and v: "injection_ok v" and inj: "inject_environment w v rg = (r, rg')"
  shows "registry_step_ok rg rg' \<and> rg_cx rg' = rg_cx rg
    \<and> (rg' = rg \<or> (\<exists>d. find_first rg ''environment'' None = Some d \<and> same_but (dev_id d) rg rg'))"
proof (cases "find_first rg ''environment'' None")
  case None
  with inj ok show ?thesis by (simp add: inject_environment_def registry_step_ok_refl)
next
  case (Some d)
  have t: "dev_type d = ''environment''" and get: "dict_get (rg_devices rg) (dev_id d) = Some d"
    using find_first_mem [OF Some] device_mem_get [OF ok] by simp_all
  then obtain e where e: "dev_body d = Environment e" "env_ok e"
    using device_ok_body(2) registry_ok_device(3) [OF ok get] by blast
  have cx: "context_ok (rg_cx rg)" using ok by (simp add: registry_ok_parts)
  let ?e1 = "e\<lparr>en_temperature := given (in_temperature v) (en_temperature e),
       en_humidity := given (in_humidity v) (en_humidity e),
       en_illuminance := given (in_illuminance v) (en_illuminance e),
       en_presence := given (in_presence v) (en_presence e),
       en_manual_until := fadd (w_time w) 30\<rparr>"
  let ?d1 = "touch w (d\<lparr>dev_body := Environment ?e1\<rparr>)"
  have "env_ok ?e1" using e(2) v by (auto simp: env_ok_def injection_ok_def given_def split: option.split)
  then have d1: "device_ok ?d1" using t by simp
  have rg': "rg' = put_device ?d1 rg" using inj Some e(1) by (simp add: inject_environment_def Let_def)
  have same: "rg\<lparr>rg_cx := rg_cx rg\<rparr> = rg" by simp
  have "registry_ok (put_device ?d1 (rg\<lparr>rg_cx := rg_cx rg\<rparr>))
      \<and> same_but (dev_id d) rg (put_device ?d1 (rg\<lparr>rg_cx := rg_cx rg\<rparr>))"
    by (rule put_device_ok [OF ok get]) (use d1 cx t in simp_all)
  then show ?thesis using Some unfolding rg' same by (simp add: registry_step_ok_def same_but_def)
qed

section \<open>Reachable registries\<close>

datatype registry_op =
    RunCommand "nat \<Rightarrow> world" string string payload "int option"
  | RunTick "nat \<Rightarrow> world"
  | NewRoom string pytext
  | Provision string string pytext string string string "string list"
  | Unprovision string
  | Fault world string fault
  | Inject world injection
  | Drain

fun run_op :: "registry_op \<Rightarrow> registry \<Rightarrow> registry" where
  "run_op (RunCommand ws i a p ev) rg = snd (execute ws i a p ev rg)"
| "run_op (RunTick ws) rg = snd (tick ws rg)"
| "run_op (NewRoom i n) rg = snd (create_room i n rg)"
| "run_op (Provision stamp i n room t cat caps) rg = snd (register_provisioned stamp i n room t cat caps rg)"
| "run_op (Unprovision i) rg = snd (remove_provisioned i rg)"
| "run_op (Fault w i f) rg = snd (inject_fault w i f rg)"
| "run_op (Inject w v) rg = snd (inject_environment w v rg)"
| "run_op Drain rg = snd (drain_alerts rg)"

fun op_ok :: "registry_op \<Rightarrow> bool" where
  \<comment> \<open>what the platform and the request models guarantee\<close>
  "op_ok (RunTick ws) = (\<forall>k. world_ok (ws k))"
| "op_ok (Provision stamp i n room t cat caps) = (i \<noteq> [])"
| "op_ok (Fault w i f) = fault_ok f"
| "op_ok (Inject w v) = injection_ok v"
| "op_ok _ = True"

inductive reachable :: "registry \<Rightarrow> bool" where
  start: "storage_ok st \<Longrightarrow> new_registry stamp st default_drivers = Inr rg \<Longrightarrow> reachable rg"
| step: "reachable rg \<Longrightarrow> op_ok x \<Longrightarrow> reachable (run_op x rg)"

inductive_cases reachable_cases: "reachable rg"

lemma run_op_step:
  assumes ok: "registry_ok rg" and x: "op_ok x"
  shows "registry_step_ok rg (run_op x rg)"
proof (cases x)
  case (RunCommand ws i a p ev)
  obtain r rg' where e: "execute ws i a p ev rg = (r, rg')" by (cases "execute ws i a p ev rg")
  with execute_step [OF ok e] RunCommand show ?thesis by simp
next
  case (RunTick ws)
  obtain r rg' where e: "tick ws rg = (r, rg')" by (cases "tick ws rg")
  with tick_step [OF ok _ e] RunTick x show ?thesis by simp
next
  case (NewRoom i n)
  obtain r rg' where e: "create_room i n rg = (r, rg')" by (cases "create_room i n rg")
  with create_room_step [OF ok e] NewRoom show ?thesis by simp
next
  case (Provision stamp i n room t cat caps)
  obtain r rg' where e: "register_provisioned stamp i n room t cat caps rg = (r, rg')"
    by (cases "register_provisioned stamp i n room t cat caps rg")
  with register_provisioned_cases [OF ok _ e] Provision x show ?thesis by simp
next
  case (Unprovision i)
  obtain r rg' where e: "remove_provisioned i rg = (r, rg')" by (cases "remove_provisioned i rg")
  with remove_provisioned_cases [OF ok e] Unprovision show ?thesis by simp
next
  case (Fault w i f)
  obtain r rg' where e: "inject_fault w i f rg = (r, rg')" by (cases "inject_fault w i f rg")
  with inject_fault_step [OF ok _ e] Fault x show ?thesis by simp
next
  case (Inject w v)
  obtain r rg' where e: "inject_environment w v rg = (r, rg')" by (cases "inject_environment w v rg")
  with inject_environment_step [OF ok _ e] Inject x show ?thesis by simp
next
  case Drain
  with ok show ?thesis
    by (simp add: drain_alerts_def registry_step_ok_def registry_ok_parts context_ok_def)
qed

lemma reachable_ok:
  assumes "reachable rg"
  shows "registry_ok rg \<and> rg_drivers rg = map (\<lambda>d. (dr_type d, d)) default_drivers"
  using assms
proof (induction rule: reachable.induct)
  case (start st stamp rg)
  from default_registry [OF start(1), of stamp] start(2) show ?case by auto
next
  case (step rg x)
  with run_op_step [of rg x] show ?case by (simp add: registry_step_ok_def)
qed

lemma gather_length: "gather f xs = Inr ys \<Longrightarrow> length ys = length xs"
  by (induction xs arbitrary: ys) (auto split: sum.split_asm)

lemma snapshot_succeeds:
  assumes "registry_ok rg"
  shows "\<exists>ps. snapshot rg = Inr ps \<and> length ps = length (rg_devices rg)"
proof -
  have "\<forall>d \<in> set (dict_values (rg_devices rg)). \<exists>p. public_device (rg_categories rg) d = Inr p"
    using registry_ok_device(5) [OF assms] device_mem_get [OF assms] by blast
  from gather_Inr [OF this] obtain ps
    where "gather (public_device (rg_categories rg)) (dict_values (rg_devices rg)) = Inr ps" ..
  with gather_length [OF this] show ?thesis by (simp add: snapshot_def)
qed

section \<open>Properties\<close>

text \<open>C2: the registry never breaks. In every registry reachable from the built-in one by
  commands, scenes, ticks, new rooms, provisioning, removal, injected faults and injected
  readings, in any order and with errors included: every device is well formed, every
  device has a driver, rooms have unique ids and names, and the snapshot of all devices
  succeeds.\<close>

theorem registry_invariant:
  assumes "reachable rg"
  shows "list_all (\<lambda>(i, d). dev_id d = i \<and> device_ok d \<and> (\<exists>drv. driver_for rg d = Inr drv)) (rg_devices rg)
    \<and> distinct (dict_keys (rg_devices rg)) \<and> distinct (dict_keys (rg_rooms rg))
    \<and> distinct (map ro_name (rooms_snapshot rg))
    \<and> (\<exists>ps. snapshot rg = Inr ps \<and> length ps = length (rg_devices rg))"
proof -
  have ok: "registry_ok rg" using reachable_ok [OF assms] by blast
  have "dev_id d = i \<and> device_ok d \<and> (\<exists>drv. driver_for rg d = Inr drv)" if "(i, d) \<in> set (rg_devices rg)" for i d
  proof -
    have g: "dict_get (rg_devices rg) i = Some d" using that registry_ok_dict [OF ok] by simp
    obtain drv where "driver_for rg d = Inr drv" by (rule registry_ok_driver [OF ok g])
    with registry_ok_device(1,3) [OF ok g] show ?thesis by blast
  qed
  moreover have "rooms_ok (rg_rooms rg)" using ok by (simp add: registry_ok_parts)
  ultimately show ?thesis using registry_ok_dict [OF ok] snapshot_succeeds [OF ok]
    by (auto simp: list_all_iff rooms_ok_def dict_all_def rooms_snapshot_def)
qed

theorem registry_invariant_witness:
  "\<exists>rg ps. reachable (run_op (NewRoom ''study'' [83]) rg)
     \<and> snapshot (run_op (NewRoom ''study'' [83]) rg) = Inr ps"
proof -
  obtain rg where "new_registry [] new_storage default_drivers = Inr rg"
    using default_registry [of new_storage "[]"] by auto
  then have r: "reachable (run_op (NewRoom ''study'' [83]) rg)" by (intro reachable.intros) simp_all
  from registry_invariant [OF this] r show ?thesis by blast
qed

text \<open>C16: what a command does, on every branch. On success the device was online at the
  expected version, its version grows by one and the answer is its new snapshot; on any
  error its version stays. Either way no other device, room, category or audit row
  changes.\<close>

theorem command_effect:
  assumes "registry_ok rg" "execute_device w i a p ev rg = (r, rg')"
  shows "(case r of
        Inr s \<Rightarrow> (\<exists>d d'. dict_get (rg_devices rg) i = Some d \<and> dict_get (rg_devices rg') i = Some d'
            \<and> dev_version d' = dev_version d + 1 \<and> public_device (rg_categories rg') d' = Inr s
            \<and> dev_online d \<and> (ev = None \<or> ev = Some (dev_version d)))
      | Inl e \<Rightarrow> map_option dev_version (dict_get (rg_devices rg') i) = map_option dev_version (dict_get (rg_devices rg) i))
    \<and> (\<forall>j. j \<noteq> i \<longrightarrow> dict_get (rg_devices rg') j = dict_get (rg_devices rg) j)
    \<and> rg_rooms rg' = rg_rooms rg \<and> rg_categories rg' = rg_categories rg
    \<and> st_audit (cx_storage (rg_cx rg')) = st_audit (cx_storage (rg_cx rg))"
  using execute_device_cases [OF assms]
  by (simp add: same_but_def) (auto split: sum.split_asm sum.split)

definition one_light :: registry where
  "one_light = \<lparr>rg_categories = [(''lighting'', hd light_categories)], rg_drivers = [(''light'', light_driver)],
     rg_devices = [(''l1'', make_light [] ''l1'' [] ''living'' 60)], rg_rooms = [],
     rg_cx = \<lparr>cx_storage = new_storage, cx_pending = []\<rparr>\<rparr>"

lemma one_light_ok: "registry_ok one_light"
proof -
  have "device_ok (make_light [] ''l1'' [] ''living'' 60)" by (simp add: make_light_ok)
  then show ?thesis
    by (simp add: one_light_def registry_ok_parts categories_ok_def dict_all_def light_categories_def
        driver_entry_def light_contract.device_driver_axioms device_entry_def made_sel rooms_ok_def context_ok_def)
       (simp add: attest_ok_def light_attest_def)
qed

definition light_on :: "world \<Rightarrow> int option \<Rightarrow> registry \<Rightarrow> (payload, registry) outcome" where
  "light_on w ev rg = execute_device w ''l1'' ''setPower'' [(''power'', PBool True)] ev rg"

lemma light_on_succeeds: "\<exists>s rg'. light_on w (Some 1) one_light = (Inr s, rg')"
  by (simp add: light_on_def one_light_def execute_device_def get_device_def ensure_commandable_def
      driver_for_def make_light_def base_device_def light_execute_def light_step_def light_power_def
      py_get_def public_device_cases Let_def)

theorem command_effect_witness:
  "\<exists>s rg' d'. light_on (clock_at 0) (Some 1) one_light = (Inr s, rg')
     \<and> dict_get (rg_devices rg') ''l1'' = Some d' \<and> dev_version d' = 2"
proof -
  obtain s rg' where e: "light_on (clock_at 0) (Some 1) one_light = (Inr s, rg')"
    using light_on_succeeds by blast
  from command_effect [OF one_light_ok e [unfolded light_on_def]]
  show ?thesis using e by (auto simp: one_light_def make_light_def base_device_def)
qed

lemma execute_device_online:
  assumes ok: "registry_ok rg" and ex: "execute_device w i a p (Some v) rg = (Inr s, rg')"
  shows "registry_ok rg' \<and> (\<exists>d. dict_get (rg_devices rg') i = Some d \<and> dev_version d = v + 1 \<and> dev_online d)"
proof -
  obtain d where d: "dict_get (rg_devices rg) i = Some d" "dev_online d" "v = dev_version d" and ok': "registry_ok rg'"
    using execute_device_cases [OF ok ex] by auto
  obtain drv where drv: "driver_for rg d = Inr drv" "dr_type drv = dev_type d" "device_driver drv"
    by (rule registry_ok_driver [OF ok d(1)])
  obtain r1 d1 where en: "ensure_commandable d (Some v) = (r1, d1)" by (cases "ensure_commandable d (Some v)")
  with ensure_cases [OF en] ex d(1) have "d1 = d" "r1 = Inr ()"
    by (auto simp: execute_device_def get_device_def)
  moreover obtain r2 d2 cx2 where st: "dr_execute drv w d a p (rg_cx rg) = (r2, d2, cx2)"
    by (cases "dr_execute drv w d a p (rg_cx rg)")
  ultimately have "rg' = put_device (touch w d2) (rg\<lparr>rg_cx := cx2\<rparr>)"
    using ex d(1) en drv(1) by (auto simp: execute_device_def get_device_def Let_def split: sum.split_asm)
  moreover have "dev_id d2 = dev_id d" "dev_version d2 = dev_version d" "dev_online d2 = dev_online d"
    using driver_exec.exec_identity [OF device_driver.axioms(1) [OF drv(3)] registry_ok_device(3) [OF ok d(1)]
        drv(2) [symmetric] st] by simp_all
  ultimately show ?thesis using ok' d registry_ok_device(1) [OF ok d(1)] by (simp add: put_device_get)
qed

lemma conflict_refused:
  assumes ok: "registry_ok rg" and d: "dict_get (rg_devices rg) i = Some d" "dev_online d"
    and v: "v \<noteq> dev_version d"
  shows "execute_device w i a p (Some v) rg = (Inl (Gateway (gw STATE_CONFLICT m_conflict)), rg)"
proof -
  have "ensure_commandable d (Some v) = (Inl (Gateway (gw STATE_CONFLICT m_conflict)), d)"
    using d(2) v by (simp add: ensure_commandable_def)
  moreover have "put_device d rg = rg"
    by (rule put_device_same [OF registry_ok_dict [OF ok]]) (use registry_ok_device(1) [OF ok d(1)] d(1) in simp)
  ultimately show ?thesis using d(1) by (simp add: execute_device_def get_device_def)
qed

text \<open>C17: of several clients that read the same version only the first to command the device
  wins. After a successful command that expected version \<open>v\<close>, every further command on the
  device that expects a version other than \<open>v + 1\<close> is refused with \<open>STATE_CONFLICT\<close> and
  changes nothing at all.\<close>

theorem stale_command_refused:
  assumes "registry_ok rg" "execute_device w i a p (Some v) rg = (Inr s, rg1)" "v' \<noteq> v + 1"
  shows "execute_device w' i a' p' (Some v') rg1 = (Inl (Gateway (gw STATE_CONFLICT m_conflict)), rg1)"
proof -
  obtain d where d: "dict_get (rg_devices rg1) i = Some d" "dev_version d = v + 1" "dev_online d"
    and ok: "registry_ok rg1"
    using execute_device_online [OF assms(1,2)] by blast
  show ?thesis by (rule conflict_refused [OF ok d(1,3)]) (use d(2) assms(3) in simp)
qed

theorem stale_command_refused_witness:
  "\<exists>rg1. light_on (clock_at 0) (Some 1) one_light = (fst (light_on (clock_at 0) (Some 1) one_light), rg1)
     \<and> light_on (clock_at 5) (Some 1) rg1 = (Inl (Gateway (gw STATE_CONFLICT m_conflict)), rg1)"
proof -
  obtain s rg1 where e: "light_on (clock_at 0) (Some 1) one_light = (Inr s, rg1)"
    using light_on_succeeds by blast
  from stale_command_refused [OF one_light_ok e [unfolded light_on_def]] e show ?thesis
    by (simp add: light_on_def)
qed

section \<open>What a tick tells the App\<close>

definition reported :: "(string, category) dict \<Rightarrow> payload list \<Rightarrow> device \<Rightarrow> device \<Rightarrow> bool" where
  \<comment> \<open>the device shows no change, or its new snapshot at the next version is among the events\<close>
  "reported cs events d d' \<longleftrightarrow>
     public_device cs d' = public_device cs d \<and> dev_version d' = dev_version d
     \<or> (\<exists>p \<in> set events. public_device cs d' = Inr p \<and> dev_version d' = dev_version d + 1)"

lemma reported_mono: "reported cs es d d' \<Longrightarrow> set es \<subseteq> set es' \<Longrightarrow> reported cs es' d d'"
  unfolding reported_def by blast

lemma tick_devices_reported:
  assumes "registry_ok rg" "\<forall>k. world_ok (ws k)" "set is \<subseteq> set (dict_keys (rg_devices rg))" "distinct is"
    and "tick_devices ws n is rg = (Inr events, rg')" "i \<in> set is" "dict_get (rg_devices rg) i = Some d"
  shows "\<exists>d'. dict_get (rg_devices rg') i = Some d' \<and> reported (rg_categories rg) events d d'"
  using assms
proof (induction "is" arbitrary: n rg events)
  case Nil
  then show ?case by simp
next
  case (Cons j "is")
  have "dict_get (rg_devices rg) j \<noteq> None" using Cons.prems(3) by (simp add: dict_get_None_iff)
  then obtain dj where dj: "dict_get (rg_devices rg) j = Some dj" by blast
  obtain r1 rg1 where t: "tick_device (ws n) j rg = (r1, rg1)" by (cases "tick_device (ws n) j rg")
  note one = tick_device_cases [OF Cons.prems(1) _ dj t]
  obtain ev where ev: "r1 = Inr ev" using t Cons.prems(5) by (cases r1) auto
  obtain r2 rg2 where ts: "tick_devices ws (Suc n) is rg1 = (r2, rg2)" by (cases "tick_devices ws (Suc n) is rg1")
  obtain rest where rest: "r2 = Inr rest" "rg2 = rg'" "events = (case ev of None \<Rightarrow> rest | Some p \<Rightarrow> p # rest)"
    using t ts ev Cons.prems(5) by (cases r2) auto
  have wd: "world_ok (ws n)" using Cons.prems(2) by simp
  have ok1: "registry_ok rg1" and cats: "rg_categories rg1 = rg_categories rg" and same: "same_but j rg rg1"
    using one [OF wd] by (simp_all add: registry_step_ok_def)
  have sub: "set is \<subseteq> set (dict_keys (rg_devices rg1))" using same Cons.prems(3) by (simp add: same_but_def)
  have ts': "tick_devices ws (Suc n) is rg1 = (Inr rest, rg')" using ts rest by simp
  show ?case
  proof (cases "i = j")
    case True
    have "rg' = snd (tick_devices ws (Suc n) is rg1)" using ts' by simp
    moreover have "j \<notin> set is" using Cons.prems(4) by simp
    ultimately have keep: "dict_get (rg_devices rg') j = dict_get (rg_devices rg1) j"
      using tick_devices_step [OF ok1 Cons.prems(2) sub ts'] by blast
    have "d = dj" using True dj Cons.prems(7) by simp
    then show ?thesis using one [OF wd] ev rest(3) keep True
      by (cases ev) (auto simp: reported_def)
  next
    case False
    then have "i \<in> set is" "dict_get (rg_devices rg1) i = Some d"
      using Cons.prems(6,7) same by (simp_all add: same_but_def)
    from Cons.IH [OF ok1 Cons.prems(2) sub _ ts' this] Cons.prems(4)
    obtain d' where "dict_get (rg_devices rg') i = Some d'" "reported (rg_categories rg) rest d d'"
      by (auto simp: cats)
    then show ?thesis using rest(3) by (auto elim!: reported_mono split: option.split)
  qed
qed

text \<open>C30: no change goes unreported. After a tick that does not raise, every device either
  looks to the App as before, at the same version, or its new snapshot, one version
  later, is among the events of the tick.\<close>

theorem tick_reports_changes:
  assumes "registry_ok rg" "\<forall>k. world_ok (ws k)" "tick ws rg = (Inr events, rg')"
    and "dict_get (rg_devices rg) i = Some d"
  shows "\<exists>d'. dict_get (rg_devices rg') i = Some d' \<and> reported (rg_categories rg) events d d'"
proof -
  have "i \<in> set (map dev_id (tick_order rg))"
    unfolding tick_order_ids(1) [OF assms(1)] by (rule dict_get_key [OF assms(4)])
  then show ?thesis
    using tick_devices_reported [OF assms(1,2) _ tick_order_ids(2) [OF assms(1)]
        assms(3) [unfolded tick_runs [OF assms(1)]] _ assms(4)] tick_order_ids(1) [OF assms(1)]
    by blast
qed

lemma calm_world_ok: "world_ok calm_world"
  by (simp add: world_ok_def calm_world_def fl_def)

theorem tick_reports_changes_witness:
  "\<exists>rg'. tick (\<lambda>k. calm_world) one_light = (Inr [], rg')
     \<and> (\<exists>d'. dict_get (rg_devices rg') ''l1'' = Some d' \<and> dev_version d' = 1)"
proof -
  let ?d = "make_light [] ''l1'' [] ''living'' 60"
  obtain rg' where t: "tick (\<lambda>k. calm_world) one_light = (Inr [], rg')"
    by (simp add: one_light_def tick_def driver_for_def make_light_def base_device_def tick_order_def
        tick_device_def get_device_def light_tick_def Let_def)
  have g: "dict_get (rg_devices one_light) ''l1'' = Some ?d" by (simp add: one_light_def)
  from tick_reports_changes [OF one_light_ok _ t g] calm_world_ok
  obtain d' where "dict_get (rg_devices rg') ''l1'' = Some d'" "reported (rg_categories one_light) [] ?d d'" by blast
  then show ?thesis using t by (auto simp: reported_def make_light_def base_device_def)
qed

section \<open>Provisioning\<close>

lemma register_new_success:
  assumes "dict_get (rg_devices rg) i = None"
    "register_provisioned stamp i n room t cat caps rg = (Inr p, rg1)"
  shows "\<exists>rm drv att. dict_get (rg_rooms rg) room = Some rm \<and> ro_selectable rm
    \<and> dict_get (rg_drivers rg) t = Some drv \<and> dr_attest drv stamp i n room cat caps = Inr att
    \<and> dev_id att = i \<and> dev_type att = t \<and> dev_category att = Some cat \<and> dev_online att
    \<and> rg1 = rg\<lparr>rg_devices := rg_devices rg @ [(i, att\<lparr>dev_reg_caps := Some (sort caps)\<rparr>)]\<rparr>
    \<and> public_device (rg_categories rg) (att\<lparr>dev_reg_caps := Some (sort caps)\<rparr>) = Inr p"
proof -
  have "dict_set i v (rg_devices rg) = rg_devices rg @ [(i, v)]" for v
    by (rule dict_set_fresh) (use assms(1) in \<open>simp add: dict_get_None_iff\<close>)
  then show ?thesis using assms
    by (auto simp: register_provisioned_def Let_def split: if_split_asm option.split_asm sum.split_asm)
qed

lemma dict_del_last: "dict_get d k = None \<Longrightarrow> dict_del k (d @ [(k, v)]) = d"
  by (force simp: AList.delete_eq filter_id_conv dict_get_None_iff)

text \<open>C31: registering a device is idempotent and can be undone. A new device that is
  registered can be registered again with the same declaration, which answers the same
  snapshot and changes nothing; removing it restores the registry exactly.\<close>

theorem provisioning_round_trip:
  assumes ok: "registry_ok rg" and i: "i \<noteq> []" and new: "dict_get (rg_devices rg) i = None"
    and reg: "register_provisioned stamp i n room t cat caps rg = (Inr p, rg1)"
  shows "register_provisioned stamp' i n room t cat caps rg1 = (Inr p, rg1)
    \<and> remove_provisioned i rg1 = (Inr p, rg)"
proof -
  obtain rm drv att where rm: "dict_get (rg_rooms rg) room = Some rm" "ro_selectable rm"
    and drv: "dict_get (rg_drivers rg) t = Some drv" and att: "dr_attest drv stamp i n room cat caps = Inr att"
    and p: "public_device (rg_categories rg) (att\<lparr>dev_reg_caps := Some (sort caps)\<rparr>) = Inr p"
    and rg1: "rg1 = rg\<lparr>rg_devices := rg_devices rg @ [(i, att\<lparr>dev_reg_caps := Some (sort caps)\<rparr>)]\<rparr>"
    using register_new_success [OF new reg] by blast
  have "driver_entry t drv" using ok drv dict_all_get unfolding registry_ok_parts by metis
  then have make: "driver_make drv" "dr_type drv = t"
    by (simp_all add: driver_entry_def device_driver.axioms)
  obtain att' where att': "dr_attest drv stamp' i n room cat caps = Inr att'"
    using driver_make.attest_again [OF make(1) att] by blast
  note f = driver_make.attested [OF make(1) att] driver_make.attested [OF make(1) att']
  have get1: "dict_get (rg_devices rg1) i = Some (att\<lparr>dev_reg_caps := Some (sort caps)\<rparr>)"
    using new by (simp add: rg1 map_add_def)
  have "register_provisioned stamp' i n room t cat caps rg1 = (Inr p, rg1)"
    using get1 rm drv att' f make(2) p by (simp add: register_provisioned_def rg1 Let_def)
  moreover have "remove_provisioned i rg1 = (Inr p, rg)"
    using get1 f p by (simp add: remove_provisioned_def get_device_def rg1 dict_del_last [OF new])
  ultimately show ?thesis ..
qed

definition study :: registry where
  "study = one_light\<lparr>rg_rooms := [(''study'', \<lparr>ro_id = ''study'', ro_name = [83], ro_selectable = True\<rparr>)]\<rparr>"

definition add_lamp :: "string \<Rightarrow> string \<Rightarrow> registry \<Rightarrow> (payload, registry) outcome" where
  "add_lamp i name rg = register_provisioned [] i (asc name) ''study'' ''light'' ''lighting''
     [''setPower'', ''setBrightness'', ''setAutomationConfig''] rg"

lemma study_ok: "registry_ok study"
  using one_light_ok by (simp add: study_def registry_ok_parts rooms_ok_def dict_all_def)

lemma lamp_added: "\<exists>p rg1. add_lamp ''lamp-7'' ''lamp'' study = (Inr p, rg1)"
proof -
  have c: "set [''setPower'', ''setBrightness'', ''setAutomationConfig''] = light_capabilities"
    by (simp add: light_capabilities_def)
  have a: "light_attest [] ''lamp-7'' (asc ''lamp'') ''study'' ''lighting''
      [''setPower'', ''setBrightness'', ''setAutomationConfig'']
    = Inr ((make_light [] ''lamp-7'' (asc ''lamp'') ''study'' 60)\<lparr>dev_removable := True\<rparr>)"
    unfolding light_attest_def c by simp
  show ?thesis
    by (simp add: add_lamp_def register_provisioned_def study_def one_light_def a made_sel public_device_cases
        Let_def make_light_def base_device_def)
qed

theorem provisioning_round_trip_witness:
  "\<exists>p rg1. add_lamp ''lamp-7'' ''lamp'' study = (Inr p, rg1)
     \<and> add_lamp ''lamp-7'' ''lamp'' rg1 = (Inr p, rg1) \<and> remove_provisioned ''lamp-7'' rg1 = (Inr p, study)"
proof -
  obtain p rg1 where e: "add_lamp ''lamp-7'' ''lamp'' study = (Inr p, rg1)" using lamp_added by blast
  have new: "dict_get (rg_devices study) ''lamp-7'' = None" by (simp add: study_def one_light_def)
  have "add_lamp ''lamp-7'' ''lamp'' rg1 = (Inr p, rg1) \<and> remove_provisioned ''lamp-7'' rg1 = (Inr p, study)"
    using provisioning_round_trip [OF study_ok _ new e [unfolded add_lamp_def], of "[]"]
    unfolding add_lamp_def by blast
  with e show ?thesis by blast
qed

text \<open>Nobody takes over a registered device. A registration that succeeds for an id that is
  already in use found a removable device with exactly the declared name, room, type,
  category and capabilities, and left the registry as it was; a device that is built in,
  or declared differently, stays and the request is refused.\<close>

lemma provisioning_no_takeover:
  assumes "dict_get (rg_devices rg) i = Some d"
  shows "snd (register_provisioned stamp i n room t cat caps rg) = rg
    \<and> (fst (register_provisioned stamp i n room t cat caps rg) = Inr p \<longrightarrow>
        dev_removable d \<and> dev_name d = n \<and> dev_room d = room \<and> dev_type d = t
        \<and> dev_category d = Some cat \<and> dev_reg_caps d = Some (sort caps)
        \<and> public_device (rg_categories rg) d = Inr p)"
  using assms by (auto simp: register_provisioned_def Let_def split: option.split sum.split)

end
