(* ===== verification/Scenes.thy ===== *)
theory Scenes
  imports RegistryRuns
begin

text \<open>
  The away scene of \<open>DeviceRegistry._execute_away\<close> on the built-in drivers: what it does to
  every device it addresses, and what it reports about each of them.
\<close>

section \<open>The action of the scene on one device\<close>

fun safe_state :: "family \<Rightarrow> bool" where
  \<comment> \<open>what leaving the house wants of a device\<close>
  "safe_state (Light l) = (\<not> li_power l)"
| "safe_state (AirConditioner a) = (\<not> ac_power a)"
| "safe_state (BathHeater b) = (\<not> ba_power b)"
| "safe_state (Humidifier h) = (\<not> hu_power h)"
| "safe_state (DoorLock d) = do_locked d"
| "safe_state (Curtain c) = (cu_target c = 0)"
| "safe_state (Environment e) = True"

fun jammed :: "family \<Rightarrow> bool" where
  "jammed (DoorLock d) = do_jammed d"
| "jammed _ = False"

definition ready :: "device \<Rightarrow> bool" where
  "ready d \<longleftrightarrow> dev_online d \<and> dev_delay_ms d \<le> 5000 \<and> \<not> dev_fail_next d \<and> \<not> jammed (dev_body d)"

lemma action_by_type_cases:
  assumes "action_by_type t = Some (a, p)"
  shows "t \<in> {''light'', ''airConditioner'', ''bathHeater'', ''humidifier''} \<and> a = ''setPower'' \<and> p = [(''power'', PBool False)]
    \<or> t = ''doorLock'' \<and> a = ''lock'' \<and> p = [] \<or> t = ''curtain'' \<and> a = ''close'' \<and> p = []"
  using assms by (auto simp: action_by_type_def split: if_split_asm)

definition built_in :: "registry \<Rightarrow> bool" where
  "built_in rg \<longleftrightarrow> rg_drivers rg = map (\<lambda>d. (dr_type d, d)) default_drivers"

lemma built_in_driver:
  assumes "built_in rg"
  shows "dict_get (rg_drivers rg) ''light'' = Some light_driver"
    "dict_get (rg_drivers rg) ''airConditioner'' = Some ac_driver"
    "dict_get (rg_drivers rg) ''bathHeater'' = Some bath_driver"
    "dict_get (rg_drivers rg) ''humidifier'' = Some humidifier_driver"
    "dict_get (rg_drivers rg) ''doorLock'' = Some door_driver"
    "dict_get (rg_drivers rg) ''curtain'' = Some curtain_driver"
  using assms by (simp_all add: built_in_def default_drivers_def)

lemma power_off_ac: "ac_ok a \<Longrightarrow> \<exists>a'. ac_step a ''setPower'' [(''power'', PBool False)] = (Inr (), a') \<and> \<not> ac_power a'"
proof -
  assume "ac_ok a"
  then obtain ad where "get_adapter (ac_brand a) = Inr ad"
    using get_adapter_known [of "ac_brand a"] by (auto simp: ac_ok_def)
  then show ?thesis
    by (simp add: ac_step_def ac_finish_def ac_encode_def ac_validate_def ac_command_of_def py_get_def)
qed

lemma power_off_ac_execute:
  assumes "dev_body d = AirConditioner x" "ac_ok x"
  shows "\<exists>d'. ac_execute w d ''setPower'' [(''power'', PBool False)] cx = (Inr (), d', cx) \<and> safe_state (dev_body d')"
  using power_off_ac [OF assms(2)] assms(1) by (auto simp: ac_execute_def)

text \<open>The driver accepts the scene's action on every device but a jammed lock.\<close>

lemma away_execute:
  assumes "built_in rg" "device_ok d" "action_by_type (dev_type d) = Some (a, p)"
    and "driver_for rg d = Inr drv"
  shows "if jammed (dev_body d)
    then \<exists>cx'. dr_execute drv w d a p cx = (Inl (Gateway (gw INTERNAL_ERROR m_door_jammed)), d, cx')
    else \<exists>d'. dr_execute drv w d a p cx = (Inr (), d', cx) \<and> safe_state (dev_body d')"
proof (cases "dev_body d")
  case (Light x)
  then have t: "dev_type d = ''light''" using assms(2) by (simp add: device_ok_def)
  with assms have "drv = light_driver" "a = ''setPower''" "p = [(''power'', PBool False)]"
    using action_by_type_cases [OF assms(3)] by (auto simp: driver_for_def built_in_driver)
  with Light show ?thesis
    by (simp add: light_driver_def light_execute_def light_step_def light_power_def py_get_def set_override_def Let_def)
next
  case (Environment x)
  then have "dev_type d = ''environment''" using assms(2) by (simp add: device_ok_def)
  then show ?thesis using assms(3) by (simp add: action_by_type_def)
next
  case (AirConditioner x)
  then have t: "dev_type d = ''airConditioner''" "ac_ok x" using assms(2) by (simp_all add: device_ok_def)
  with assms have "drv = ac_driver" "a = ''setPower''" "p = [(''power'', PBool False)]"
    using action_by_type_cases [OF assms(3)] by (auto simp: driver_for_def built_in_driver)
  with AirConditioner power_off_ac_execute [OF AirConditioner t(2)] show ?thesis by simp
next
  case (BathHeater x)
  then have t: "dev_type d = ''bathHeater''" using assms(2) by (simp add: device_ok_def)
  with assms have "drv = bath_driver" "a = ''setPower''" "p = [(''power'', PBool False)]"
    using action_by_type_cases [OF assms(3)] by (auto simp: driver_for_def built_in_driver)
  with BathHeater show ?thesis by (simp add: bath_execute_def bath_step_def py_get_def)
next
  case (Humidifier x)
  then have t: "dev_type d = ''humidifier''" using assms(2) by (simp add: device_ok_def)
  with assms have "drv = humidifier_driver" "a = ''setPower''" "p = [(''power'', PBool False)]"
    using action_by_type_cases [OF assms(3)] by (auto simp: driver_for_def built_in_driver)
  with Humidifier show ?thesis by (simp add: humidifier_execute_def humidifier_step_def py_get_def)
next
  case (DoorLock x)
  then have t: "dev_type d = ''doorLock''" using assms(2) by (simp add: device_ok_def)
  with assms have "drv = door_driver" "a = ''lock''" "p = []"
    using action_by_type_cases [OF assms(3)] by (auto simp: driver_for_def built_in_driver)
  with DoorLock show ?thesis by (simp add: door_execute_def door_step_def)
next
  case (Curtain x)
  then have t: "dev_type d = ''curtain''" using assms(2) by (simp add: device_ok_def)
  with assms have "drv = curtain_driver" "a = ''close''" "p = []"
    using action_by_type_cases [OF assms(3)] by (auto simp: driver_for_def built_in_driver)
  with Curtain show ?thesis
    by (simp add: curtain_execute_def curtain_step_def curtain_target_def Let_def)
qed

lemma away_command:
  assumes ok: "registry_ok rg" and bi: "built_in rg" and d: "dict_get (rg_devices rg) i = Some d"
    and act: "action_by_type (dev_type d) = Some (a, p)"
  obtains r rg' d' where "execute_device w i a p (Some (dev_version d)) rg = (r, rg')"
    "registry_ok rg'" "built_in rg'" "same_but i rg rg'" "dict_get (rg_devices rg') i = Some d'"
    "if ready d then (\<exists>s. r = Inr s) \<and> safe_state (dev_body d') else (\<exists>g. r = Inl (Gateway g)) \<and> dev_body d' = dev_body d"
proof -
  obtain drv where drv: "driver_for rg d = Inr drv" by (rule registry_ok_driver [OF ok d])
  obtain r rg' where ex: "execute_device w i a p (Some (dev_version d)) rg = (r, rg')"
    by (cases "execute_device w i a p (Some (dev_version d)) rg")
  note st = execute_device_step [OF ok ex]
  have i: "dev_id d = i" by (rule registry_ok_device(1) [OF ok d])
  obtain r1 d1 where en: "ensure_commandable d (Some (dev_version d)) = (r1, d1)"
    by (cases "ensure_commandable d (Some (dev_version d))")
  have "\<exists>d'. dict_get (rg_devices rg') i = Some d' \<and>
     (if ready d then (\<exists>s. r = Inr s) \<and> safe_state (dev_body d') else (\<exists>g. r = Inl (Gateway g)) \<and> dev_body d' = dev_body d)"
  proof (cases "dev_online d \<and> dev_delay_ms d \<le> 5000 \<and> \<not> dev_fail_next d")
    case False
    then obtain g b where "r1 = Inl (Gateway g)" "d1 = d\<lparr>dev_fail_next := b\<rparr>"
      using ensure_cases [OF en] by auto
    moreover have "\<not> ready d" using False by (auto simp: ready_def)
    ultimately show ?thesis using ex en d i by (auto simp: execute_device_def get_device_def put_device_get)
  next
    case True
    then have en': "r1 = Inr ()" "d1 = d" using en by (auto simp: ensure_commandable_def split: if_split_asm)
    note run = away_execute [OF bi registry_ok_device(3) [OF ok d] act drv, of w "rg_cx rg"]
    show ?thesis
    proof (cases "jammed (dev_body d)")
      case True
      with run obtain cx' where "dr_execute drv w d a p (rg_cx rg) = (Inl (Gateway (gw INTERNAL_ERROR m_door_jammed)), d, cx')"
        by auto
      moreover have "\<not> ready d" using True by (simp add: ready_def)
      ultimately show ?thesis using ex en en' d i drv
        by (auto simp: execute_device_def get_device_def put_device_get)
    next
      case False
      with run obtain d2 where d2: "dr_execute drv w d a p (rg_cx rg) = (Inr (), d2, rg_cx rg)" "safe_state (dev_body d2)"
        by auto
      have "dev_id d2 = i"
        using driver_exec.exec_identity [OF device_driver.axioms(1) registry_ok_device(3) [OF ok d] _ d2(1)]
          registry_ok_driver [OF ok d] drv i by (metis Inr_inject)
      then have g: "dict_get (rg_devices rg') i = Some (touch w d2)"
        and r: "r = public_device (rg_categories rg) (touch w d2)"
        using ex en en' d drv d2(1) by (auto simp: execute_device_def get_device_def put_device_get Let_def)
      have "registry_ok rg'" "rg_categories rg' = rg_categories rg" using st by (simp_all add: registry_step_ok_def)
      then have "\<exists>s. r = Inr s" using registry_ok_device(5) [OF _ g] r by auto
      moreover have "ready d" using True False by (auto simp: ready_def)
      ultimately show ?thesis using g d2(2) by simp
    qed
  qed
  then obtain d' where "dict_get (rg_devices rg') i = Some d'"
     "if ready d then (\<exists>s. r = Inr s) \<and> safe_state (dev_body d') else (\<exists>g. r = Inl (Gateway g)) \<and> dev_body d' = dev_body d"
    by blast
  moreover have "registry_ok rg'" "built_in rg'" "same_but i rg rg'"
    using st bi by (simp_all add: registry_step_ok_def built_in_def)
  ultimately show ?thesis using ex that by blast
qed

section \<open>The whole scene\<close>

definition away_listed :: "registry \<Rightarrow> scene_action list \<Rightarrow> bool" where
  \<comment> \<open>every entry is the scene's action for a device of the registry\<close>
  "away_listed rg acts \<longleftrightarrow> distinct (map fst acts) \<and> (\<forall>(i, as) \<in> set acts.
     \<exists>d a. dict_get (rg_devices rg) i = Some d \<and> action_by_type (dev_type d) = Some a \<and> as = [a])"

definition away_done :: "registry \<Rightarrow> registry \<Rightarrow> scene_result list \<Rightarrow> bool" where
  \<comment> \<open>a reported device was ready and is safe now, or was not and is as it was\<close>
  "away_done rg rg' results \<longleftrightarrow> (\<forall>res \<in> set results. \<exists>d d'. dict_get (rg_devices rg) (sr_device res) = Some d
     \<and> dict_get (rg_devices rg') (sr_device res) = Some d'
     \<and> (if ready d then sr_success res \<and> sr_error res = None \<and> safe_state (dev_body d')
        else \<not> sr_success res \<and> sr_error res \<noteq> None \<and> dev_body d' = dev_body d))"

lemma scene_actions_single:
  assumes "dict_get (rg_devices rg) i = Some d"
    and "execute_device (ws n) i a p (Some (dev_version d)) rg = (r, rg1)"
    and "scene_actions ws (Suc n) acts rg1 = (Inr results, rg')"
  shows "r = Inr s \<Longrightarrow> scene_actions ws n ((i, [(a, p)]) # acts) rg =
      (Inr (\<lparr>sr_device = i, sr_success = True, sr_error = None\<rparr> # results), rg')"
    and "r = Inl (Gateway g) \<Longrightarrow> scene_actions ws n ((i, [(a, p)]) # acts) rg =
      (Inr (\<lparr>sr_device = i, sr_success = False, sr_error = Some (err_code g)\<rparr> # results), rg')"
  using assms by (simp_all add: get_device_def)

lemma away_runs:
  assumes "registry_ok rg" "built_in rg" "away_listed rg acts"
  shows "\<exists>results rg'. scene_actions ws n acts rg = (Inr results, rg') \<and> map sr_device results = map fst acts
    \<and> away_done rg rg' results"
  using assms
proof (induction acts arbitrary: n rg)
  case Nil
  then show ?case by (simp add: away_done_def)
next
  case (Cons x acts)
  obtain i as where x: "x = (i, as)" by (cases x)
  obtain d a p where d: "dict_get (rg_devices rg) i = Some d" "action_by_type (dev_type d) = Some (a, p)" "as = [(a, p)]"
    using Cons.prems(3) x by (auto simp: away_listed_def)
  obtain r rg1 d1 where ex: "execute_device (ws n) i a p (Some (dev_version d)) rg = (r, rg1)"
    and ok1: "registry_ok rg1" "built_in rg1" and same: "same_but i rg rg1"
    and d1: "dict_get (rg_devices rg1) i = Some d1"
    and out: "if ready d then (\<exists>s. r = Inr s) \<and> safe_state (dev_body d1) else (\<exists>g. r = Inl (Gateway g)) \<and> dev_body d1 = dev_body d"
    by (rule away_command [OF Cons.prems(1,2) d(1,2)])
  have i: "i \<notin> set (map fst acts)" using Cons.prems(3) x by (simp add: away_listed_def)
  then have "dict_get (rg_devices rg1) j = dict_get (rg_devices rg) j" if "j \<in> set (map fst acts)" for j
    using same that by (auto simp: same_but_def)
  moreover have "distinct (map fst acts)" using Cons.prems(3) by (simp add: away_listed_def)
  moreover have "\<exists>e b. dict_get (rg_devices rg) j = Some e \<and> action_by_type (dev_type e) = Some b \<and> bs = [b]"
    if "(j, bs) \<in> set acts" for j bs
    using Cons.prems(3) that unfolding away_listed_def by fastforce
  ultimately have listed: "away_listed rg1 acts" unfolding away_listed_def by fastforce
  define res where "res = (case r of Inr _ \<Rightarrow> \<lparr>sr_device = i, sr_success = True, sr_error = None\<rparr>
      | Inl (Gateway e) \<Rightarrow> \<lparr>sr_device = i, sr_success = False, sr_error = Some (err_code e)\<rparr>
      | Inl (Raised e) \<Rightarrow> \<lparr>sr_device = i, sr_success = False, sr_error = None\<rparr>)"
  obtain results rg' where rest: "scene_actions ws (Suc n) acts rg1 = (Inr results, rg')"
      "map sr_device results = map fst acts" "away_done rg1 rg' results"
    using Cons.IH [OF ok1 listed] by blast
  have run: "scene_actions ws n (x # acts) rg = (Inr (res # results), rg')"
  proof (cases "ready d")
    case True
    then obtain s where "r = Inr s" using out by auto
    with scene_actions_single(1) [OF d(1) ex rest(1)] show ?thesis by (simp add: x d(3) res_def)
  next
    case False
    then obtain g where "r = Inl (Gateway g)" using out by auto
    with scene_actions_single(2) [OF d(1) ex rest(1)] show ?thesis by (simp add: x d(3) res_def)
  qed
  have dev: "sr_device res = i" by (auto simp: res_def split: sum.split exn.split)
  have d1': "dict_get (rg_devices rg') i = Some d1"
    using scene_actions_step [OF ok1(1) rest(1)] i d1 by simp
  have "if ready d then sr_success res \<and> sr_error res = None \<and> safe_state (dev_body d1)
        else \<not> sr_success res \<and> sr_error res \<noteq> None \<and> dev_body d1 = dev_body d"
  proof (cases "ready d")
    case True
    then obtain s where "r = Inr s" using out by auto
    with True out show ?thesis by (simp add: res_def)
  next
    case False
    then obtain g where "r = Inl (Gateway g)" using out by auto
    with False out show ?thesis by (simp add: res_def)
  qed
  with d(1) d1' dev have head: "\<exists>e e'. dict_get (rg_devices rg) (sr_device res) = Some e
     \<and> dict_get (rg_devices rg') (sr_device res) = Some e'
     \<and> (if ready e then sr_success res \<and> sr_error res = None \<and> safe_state (dev_body e')
        else \<not> sr_success res \<and> sr_error res \<noteq> None \<and> dev_body e' = dev_body e)"
    by (intro exI [of _ d] exI [of _ d1]) simp
  have "dict_get (rg_devices rg1) (sr_device q) = dict_get (rg_devices rg) (sr_device q)" if "q \<in> set results" for q
  proof -
    have "sr_device q \<in> set (map fst acts)" using that rest(2) by (metis imageI list.set_map)
    then show ?thesis using i same by (auto simp: same_but_def)
  qed
  then have "away_done rg rg' results" using rest(3) by (simp add: away_done_def)
  then have "away_done rg rg' (res # results)" using head by (simp add: away_done_def)
  then show ?case using run rest(2) dev x by auto
qed

lemma map_filter_mem: "y \<in> set (List.map_filter f xs) \<longleftrightarrow> (\<exists>x \<in> set xs. f x = Some y)"
  by (induction xs) (auto simp: map_filter_simps split: option.split)

lemma away_actions_ids:
  "map fst (away_actions rg) = map dev_id (filter (\<lambda>d. action_by_type (dev_type d) \<noteq> None) (dict_values (rg_devices rg)))"
proof -
  have "map fst (List.map_filter (\<lambda>d. case action_by_type (dev_type d) of None \<Rightarrow> None | Some a \<Rightarrow> Some (dev_id d, [a])) ds)
      = map dev_id (filter (\<lambda>d. action_by_type (dev_type d) \<noteq> None) ds)" for ds
    by (induction ds) (auto simp: map_filter_simps split: option.split)
  then show ?thesis by (simp add: away_actions_def)
qed

lemma away_listed:
  assumes ok: "registry_ok rg"
  shows "away_listed rg (away_actions rg)"
proof -
  have ids: "map dev_id (dict_values (rg_devices rg)) = dict_keys (rg_devices rg)"
    using ok by (auto simp: registry_ok_parts dict_all_def device_entry_def)
  have "distinct (map dev_id (dict_values (rg_devices rg)))" unfolding ids by (rule registry_ok_dict [OF ok])
  then have "distinct (map fst (away_actions rg))" unfolding away_actions_ids by (rule distinct_map_filter)
  moreover have "\<exists>d a. dict_get (rg_devices rg) i = Some d \<and> action_by_type (dev_type d) = Some a \<and> as = [a]"
    if m: "(i, as) \<in> set (away_actions rg)" for i as
  proof -
    obtain d where d: "d \<in> set (dict_values (rg_devices rg))"
      "(case action_by_type (dev_type d) of None \<Rightarrow> None | Some a \<Rightarrow> Some (dev_id d, [a])) = Some (i, as)"
      using m unfolding away_actions_def map_filter_mem by blast
    show ?thesis
    proof (cases "action_by_type (dev_type d)")
      case None
      with d(2) show ?thesis by simp
    next
      case (Some a)
      with d(2) have "i = dev_id d" "as = [a]" by simp_all
      with Some device_mem_get [OF ok d(1)] show ?thesis by blast
    qed
  qed
  ultimately show ?thesis unfolding away_listed_def by blast
qed

text \<open>C18: leaving the house. On the built-in drivers the away scene never raises. It reports on
  every light, air conditioner, bath heater, humidifier, lock and curtain, once each, in
  the order of the registry. A device that was online, answered in time, had no armed
  failure and was no jammed lock is reported as a success and is off, locked or closing
  afterwards; any other is reported as a failure with a code, is left as it was, and
  does not stop the scene.\<close>

theorem away_scene:
  assumes "registry_ok rg" "built_in rg"
  shows "\<exists>results rg'. execute_away ws rg = (Inr results, rg')
    \<and> map sr_device results =
        map dev_id (filter (\<lambda>d. action_by_type (dev_type d) \<noteq> None) (dict_values (rg_devices rg)))
    \<and> away_done rg rg' results"
  unfolding execute_away_def away_actions_ids [symmetric]
  by (rule away_runs [OF assms away_listed [OF assms(1)]])

theorem away_scene_witness:
  "\<exists>rg results rg'. new_registry [] new_storage default_drivers = Inr rg
     \<and> execute_away (\<lambda>k. calm_world) rg = (Inr results, rg') \<and> away_done rg rg' results"
proof -
  obtain rg where rg: "new_registry [] new_storage default_drivers = Inr rg" "registry_ok rg" "built_in rg"
    using default_registry [of new_storage "[]"] by (auto simp: built_in_def)
  from away_scene [OF rg(2,3), of "\<lambda>k. calm_world"] rg(1) show ?thesis by blast
qed

end
