(* ===== verification/Codec.thy ===== *)
theory Codec
  imports Values
begin

text \<open>
  The encodings of \<open>security.py\<close>: \<open>base64url_encode\<close> and \<open>base64url_decode\<close> on the standard
  library's codec, and the JSON text of \<open>canonical_aad\<close>. A byte is a \<open>char\<close>, so bytes and
  UTF-8 text are both \<open>string\<close>. \<open>a2b\<close> is the loop of \<open>binascii.a2b_base64\<close> outside strict
  mode, with its position in the quad, the bits left over and the padding seen: it skips
  characters outside the alphabet and stops at a complete padding.
\<close>

section \<open>Base64 with the URL alphabet\<close>

definition b64_char :: "nat \<Rightarrow> char" where
  "b64_char v = (if v < 26 then char_of (65 + v) else if v < 52 then char_of (71 + v)
     else if v < 62 then char_of (v - 4) else if v = 62 then CHR ''-'' else CHR ''_'')"

definition b64_value :: "char \<Rightarrow> nat option" where
  \<comment> \<open>after the translation of \<open>-_\<close> to \<open>+/\<close>, which are accepted themselves\<close>
  "b64_value c = (let n = of_char c :: nat in
     if 65 \<le> n \<and> n \<le> 90 then Some (n - 65) else if 97 \<le> n \<and> n \<le> 122 then Some (n - 71)
     else if 48 \<le> n \<and> n \<le> 57 then Some (n + 4)
     else if c = CHR ''-'' \<or> c = CHR ''+'' then Some 62
     else if c = CHR ''_'' \<or> c = CHR ''/'' then Some 63 else None)"

fun sextets :: "nat list \<Rightarrow> nat list" where
  "sextets [] = []"
| "sextets [a] = [a div 4, (a mod 4) * 16]"
| "sextets [a, b] = [a div 4, (a mod 4) * 16 + b div 16, (b mod 16) * 4]"
| "sextets (a # b # c # rest) =
     [a div 4, (a mod 4) * 16 + b div 16, (b mod 16) * 4 + c div 64, c mod 64] @ sextets rest"

definition urlsafe_b64encode :: "string \<Rightarrow> string" where
  "urlsafe_b64encode bs = map b64_char (sextets (map of_char bs))
     @ replicate ((3 - length bs mod 3) mod 3) (CHR ''='')"

definition rstrip :: "char \<Rightarrow> string \<Rightarrow> string" where
  "rstrip c s = rev (dropWhile (\<lambda>x. x = c) (rev s))"

definition base64url_encode :: "string \<Rightarrow> string" where
  "base64url_encode bs = rstrip (CHR ''='') (urlsafe_b64encode bs)"

fun a2b :: "nat \<Rightarrow> nat \<Rightarrow> nat \<Rightarrow> string \<Rightarrow> string option" where
  "a2b quad left pads [] = (if quad = 0 then Some [] else None)"
| "a2b quad left pads (c # cs) =
     (if c = CHR ''='' then
        (if quad \<ge> 2 then (if quad + (pads + 1) \<ge> 4 then Some [] else a2b quad left (pads + 1) cs)
         else a2b quad left pads cs)
      else case b64_value c of
        None \<Rightarrow> a2b quad left pads cs
      | Some v \<Rightarrow>
          if quad = 0 then a2b 1 v 0 cs
          else if quad = 1 then map_option ((#) (char_of (left * 4 + v div 16))) (a2b 2 (v mod 16) 0 cs)
          else if quad = 2 then map_option ((#) (char_of (left * 16 + v div 4))) (a2b 3 (v mod 4) 0 cs)
          else map_option ((#) (char_of (left * 64 + v))) (a2b 0 0 0 cs))"

definition is_ascii :: "string \<Rightarrow> bool" where
  "is_ascii s \<longleftrightarrow> list_all (\<lambda>c. of_char c < (128 :: nat)) s"

definition base64url_decode :: "string \<Rightarrow> string option" where
  \<comment> \<open>\<open>None\<close>: the \<open>ValueError\<close> of a non-ASCII text or its subclass \<open>binascii.Error\<close>\<close>
  "base64url_decode value =
     (if \<not> is_ascii value then None
      else a2b 0 0 0 (value @ replicate ((4 - length value mod 4) mod 4) (CHR ''='')))"

section \<open>Round trip\<close>

lemma of_char_bound [simp]: "of_char c < (256 :: nat)"
  using of_char_mod_256 [of c] mod_less_divisor [of 256 "of_char c :: nat"] by simp

lemma char_differs: "of_char c \<noteq> (of_char d :: nat) \<Longrightarrow> c \<noteq> d"
  by blast

lemma b64_table:
  assumes "v < 64"
  shows "b64_value (b64_char v) = Some v \<and> of_char (b64_char v) < (128 :: nat) \<and> of_char (b64_char v) \<noteq> (61 :: nat)"
proof -
  consider "v < 26" | "26 \<le> v" "v < 52" | "52 \<le> v" "v < 62" | "v = 62" | "v = 63" using assms by linarith
  then show ?thesis
  proof cases
    case 3
    then have "48 \<le> v - 4" "v - 4 \<le> 57" by linarith+
    with 3 show ?thesis by (simp add: b64_char_def b64_value_def Let_def)
  qed (simp_all add: b64_char_def b64_value_def Let_def)
qed

lemma b64_value_char [simp]: "v < 64 \<Longrightarrow> b64_value (b64_char v) = Some v"
  and b64_char_no_pad [simp]: "v < 64 \<Longrightarrow> b64_char v \<noteq> CHR ''=''"
  using b64_table [of v] by (auto dest: arg_cong [where f = "of_char :: char \<Rightarrow> nat"])

lemma sextets_bound: "list_all (\<lambda>b. b < 256) bs \<Longrightarrow> list_all (\<lambda>v. v < 64) (sextets bs)"
  by (induction bs rule: sextets.induct) auto

lemma sextets_length: "length (sextets bs) = (4 * length bs + 2) div 3"
  by (induction bs rule: sextets.induct) auto

lemma dropWhile_replicate: "dropWhile (\<lambda>x. x = c) (replicate n c @ xs) = dropWhile (\<lambda>x. x = c) xs"
  by (induction n) simp_all

lemma dropWhile_none: "list_all (\<lambda>x. x \<noteq> c) xs \<Longrightarrow> dropWhile (\<lambda>x. x = c) xs = xs"
  by (cases xs) simp_all

lemma rstrip_pads: "list_all (\<lambda>x. x \<noteq> c) s \<Longrightarrow> rstrip c (s @ replicate n c) = s"
  by (simp add: rstrip_def dropWhile_replicate dropWhile_none list_all_rev)

lemma encode_sextets: "base64url_encode bs = map b64_char (sextets (map of_char bs))"
proof -
  have "list_all (\<lambda>v. v < 64) (sextets (map of_char bs))"
    by (rule sextets_bound) (simp add: list_all_iff)
  then have "list_all (\<lambda>x. x \<noteq> CHR ''='') (map b64_char (sextets (map of_char bs)))"
    by (auto simp: list_all_iff)
  then show ?thesis unfolding base64url_encode_def urlsafe_b64encode_def by (rule rstrip_pads)
qed

lemma two_pads: "replicate 2 x = [x, x]"
  by (simp add: numeral_2_eq_2)

lemma a2b_sextets:
  assumes "list_all (\<lambda>b. b < 256) bs"
  shows "a2b 0 0 0 (map b64_char (sextets bs) @ replicate ((4 - length (sextets bs) mod 4) mod 4) (CHR ''=''))
    = Some (map char_of bs)"
  using assms
proof (induction bs rule: sextets.induct)
  case 1
  then show ?case by simp
next
  case (2 a)
  then have b: "a div 4 < 64" "(a mod 4) * 16 < 64" by auto
  have v: "a div 4 * 4 + (a mod 4) * 16 div 16 = a" by simp
  show ?case using b by (simp add: two_pads v)
next
  case (3 a b)
  then have b: "a div 4 < 64" "(a mod 4) * 16 + b div 16 < 64" "(b mod 16) * 4 < 64" by auto
  have "b div 16 < 16" using 3 by auto
  then have v: "a div 4 * 4 + ((a mod 4) * 16 + b div 16) div 16 = a"
      "((a mod 4) * 16 + b div 16) mod 16 * 16 + (b mod 16) * 4 div 4 = b" by simp_all
  have d: "b div 16 div 16 = 0" "b div 16 mod 16 = b div 16" using \<open>b div 16 < 16\<close> by simp_all
  show ?case using b 3 by (simp add: v d)
next
  case (4 a b c rest)
  then have b: "a div 4 < 64" "(a mod 4) * 16 + b div 16 < 64" "(b mod 16) * 4 + c div 64 < 64" "c mod 64 < 64" by auto
  have "b div 16 < 16" "c div 64 < 4" using 4 by auto
  then have v: "a div 4 * 4 + ((a mod 4) * 16 + b div 16) div 16 = a"
      "((a mod 4) * 16 + b div 16) mod 16 * 16 + ((b mod 16) * 4 + c div 64) div 4 = b"
      "((b mod 16) * 4 + c div 64) mod 4 * 64 + c mod 64 = c" by simp_all
  have rest: "a2b 0 0 0 (map b64_char (sextets rest) @ replicate ((4 - length (sextets rest) mod 4) mod 4) (CHR ''=''))
    = Some (map char_of rest)" using 4 by simp
  have len: "(4 - length (sextets (a # b # c # rest)) mod 4) mod 4 = (4 - length (sextets rest) mod 4) mod 4"
    by simp
  have d: "b div 16 div 16 = 0" "b div 16 mod 16 = b div 16" "c div 64 div 4 = 0" "c div 64 mod 4 = c div 64"
    using \<open>b div 16 < 16\<close> \<open>c div 64 < 4\<close> by simp_all
  have m: "a mod 256 = a" "b mod 256 = b" "c mod 256 = c" using 4 by simp_all
  show ?case unfolding len using b by (simp add: v d m rest)
qed

lemma encode_length: "length (base64url_encode bs) = (4 * length bs + 2) div 3"
  by (simp add: encode_sextets sextets_length)

lemma encode_ascii: "is_ascii (base64url_encode bs)"
proof -
  have "list_all (\<lambda>v. v < 64) (sextets (map of_char bs))"
    by (rule sextets_bound) (simp add: list_all_iff)
  then show ?thesis using b64_table by (simp add: encode_sextets is_ascii_def list_all_iff)
qed

lemma decode_encode: "base64url_decode (base64url_encode bs) = Some bs"
proof -
  have "a2b 0 0 0 (map b64_char (sextets (map of_char bs))
      @ replicate ((4 - length (sextets (map of_char bs :: nat list)) mod 4) mod 4) (CHR ''=''))
    = Some (map char_of (map of_char bs :: nat list))"
    by (rule a2b_sextets) (simp add: list_all_iff)
  then show ?thesis using encode_ascii [of bs]
    by (simp add: base64url_decode_def encode_sextets comp_def)
qed

section \<open>Texts in the URL alphabet\<close>

definition URL_ALPHABET :: string where
  "URL_ALPHABET = ''ABCDEFGHIJKLMNOPQRSTUVWXYZabcdefghijklmnopqrstuvwxyz0123456789-_''"

definition base64url_only :: "string \<Rightarrow> bool" where
  "base64url_only value \<longleftrightarrow> list_all (\<lambda>c. c \<in> set URL_ALPHABET) value"

lemma url_alphabet: "URL_ALPHABET = map b64_char [0..<64]"
proof -
  have upt: "[0..<64] = 0 # 1 # [2..<64]" by (simp add: upt_conv_Cons numeral_2_eq_2)
  have "map of_char URL_ALPHABET = map (of_char :: char \<Rightarrow> nat) (map b64_char [0..<64])"
    unfolding upt by (simp add: URL_ALPHABET_def b64_char_def)
  then show ?thesis using inj_map_eq_map [OF inj_of_char] by blast
qed

fun octets :: "nat list \<Rightarrow> nat list" where
  "octets (a # b # c # d # rest) =
     [a * 4 + b div 16, (b mod 16) * 16 + c div 4, (c mod 4) * 64 + d] @ octets rest"
| "octets [a, b, c] = [a * 4 + b div 16, (b mod 16) * 16 + c div 4]"
| "octets [a, b] = [a * 4 + b div 16]"
| "octets _ = []"

lemma three_pads: "replicate 3 x = [x, x, x]"
  by (simp add: numeral_3_eq_3)

lemma a2b_octets:
  assumes "list_all (\<lambda>v. v < 64) vs"
  shows "a2b 0 0 0 (map b64_char vs @ replicate ((4 - length vs mod 4) mod 4) (CHR ''=''))
    = (if length vs mod 4 = 1 then None else Some (map char_of (octets vs)))"
  using assms
proof (induction vs rule: octets.induct)
  case (1 a b c d rest)
  have len: "(4 - length (a # b # c # d # rest) mod 4) mod 4 = (4 - length rest mod 4) mod 4"
      "length (a # b # c # d # rest) mod 4 = length rest mod 4" by simp_all
  show ?case unfolding len using 1 by simp
qed (simp_all add: two_pads three_pads)

lemma octets_length: "length (octets vs) = (length vs * 3) div 4"
  by (induction vs rule: octets.induct) auto

lemma pair_unique:
  fixes a :: nat
  assumes "a * k + x = b * k + y" "x < k" "y < k"
  shows "a = b \<and> x = y"
proof -
  have "(a * k + x) div k = a" "(b * k + y) div k = b" using assms(2,3) by simp_all
  with assms(1) have "a = b" by simp
  with assms(1) show ?thesis by simp
qed

lemma div_mod_unique:
  fixes a :: nat
  assumes "a div k = b div k" "a mod k = b mod k"
  shows "a = b"
proof -
  have "a = a div k * k + a mod k" by simp
  also have "\<dots> = b div k * k + b mod k" unfolding assms ..
  also have "\<dots> = b" by simp
  finally show ?thesis .
qed

lemma quad_list:
  assumes "length vs = 4 * Suc n"
  obtains a b c d r where "vs = a # b # c # d # r" "length r = 4 * n"
proof -
  have "length vs = Suc (Suc (Suc (Suc (4 * n))))" using assms by simp
  then show ?thesis using that unfolding length_Suc_conv by blast
qed

lemma octets_inj:
  assumes "list_all (\<lambda>v. v < 64) vs" "list_all (\<lambda>v. v < 64) us" "length vs = 4 * n" "length us = 4 * n"
    and "octets vs = octets us"
  shows "vs = us"
  using assms
proof (induction n arbitrary: vs us)
  case 0
  then show ?case by simp
next
  case (Suc n)
  obtain a b c d r where v: "vs = a # b # c # d # r" and rv: "length r = 4 * n"
    by (rule quad_list [OF Suc.prems(3)])
  obtain a' b' c' d' r' where u: "us = a' # b' # c' # d' # r'" and ru: "length r' = 4 * n"
    by (rule quad_list [OF Suc.prems(4)])
  have lr: "list_all (\<lambda>v. v < 64) r" "list_all (\<lambda>v. v < 64) r'" using Suc.prems(1,2) by (simp_all add: v u)
  have lt: "a < 64" "b < 64" "c < 64" "d < 64" "a' < 64" "b' < 64" "c' < 64" "d' < 64"
    using Suc.prems(1,2) by (simp_all add: v u)
  have e: "a * 4 + b div 16 = a' * 4 + b' div 16" "(b mod 16) * 16 + c div 4 = (b' mod 16) * 16 + c' div 4"
      "(c mod 4) * 64 + d = (c' mod 4) * 64 + d'" "octets r = octets r'"
    using Suc.prems(5) by (simp_all add: v u)
  have d: "b div 16 < 4" "b' div 16 < 4" "c div 4 < 16" "c' div 4 < 16"
    using lt(2,3,6,7) by (simp_all add: less_mult_imp_div_less)
  have 1: "a = a' \<and> b div 16 = b' div 16" using pair_unique [OF e(1) d(1,2)] .
  have 2: "b mod 16 = b' mod 16 \<and> c div 4 = c' div 4" using pair_unique [OF e(2) d(3,4)] .
  have 3: "c mod 4 = c' mod 4 \<and> d = d'" using pair_unique [OF e(3) lt(4,8)] .
  have "b = b'" by (rule div_mod_unique [of b 16 b']) (use 1 2 in \<open>blast+\<close>)
  moreover have "c = c'" by (rule div_mod_unique [of c 4 c']) (use 2 3 in \<open>blast+\<close>)
  moreover have "r = r'" by (rule Suc.IH [OF lr rv ru e(4)])
  ultimately show ?case using v u 1 3 by simp
qed

lemma url_text_values:
  assumes "base64url_only s"
  obtains vs where "s = map b64_char vs" "list_all (\<lambda>v. v < 64) vs"
proof -
  have "\<forall>c \<in> set s. c \<in> b64_char ` {0..<64}"
    using assms by (auto simp: base64url_only_def list_all_iff url_alphabet)
  then have "\<exists>vs. s = map b64_char vs \<and> list_all (\<lambda>v. v < 64) vs"
  proof (induction s)
    case Nil
    then show ?case by simp
  next
    case (Cons c s)
    then obtain v vs where "c = b64_char v" "v < 64" "s = map b64_char vs" "list_all (\<lambda>v. v < 64) vs" by auto
    then show ?case by (intro exI [of _ "v # vs"]) simp
  qed
  then show ?thesis using that by blast
qed

lemma decode_values:
  assumes "list_all (\<lambda>v. v < 64) vs"
  shows "base64url_decode (map b64_char vs) = (if length vs mod 4 = 1 then None else Some (map char_of (octets vs)))"
proof -
  have "is_ascii (map b64_char vs)" using assms b64_table by (auto simp: is_ascii_def list_all_iff)
  then show ?thesis using a2b_octets [OF assms] by (simp add: base64url_decode_def)
qed

lemma octets_bound: "list_all (\<lambda>v. v < 64) vs \<Longrightarrow> list_all (\<lambda>b. b < 256) (octets vs)"
proof (induction vs rule: octets.induct)
  case (1 a b c d rest)
  then have "b div 16 < 4" "c div 4 < 16" by (auto simp: less_mult_imp_div_less)
  moreover have "b mod 16 < 16" "c mod 4 < 4" by simp_all
  moreover have "d < 64" "a < 64" using 1 by simp_all
  ultimately have "a * 4 + b div 16 < 256" "b mod 16 * 16 + c div 4 < 256" "c mod 4 * 64 + d < 256"
    by linarith+
  then show ?case using 1 by simp
next
  case (2 a b c)
  then have "b div 16 < 4" "c div 4 < 16" by (auto simp: less_mult_imp_div_less)
  moreover have "b mod 16 < 16" by simp
  ultimately show ?case using 2 by simp
next
  case (3 a b)
  then have "b div 16 < 4" by (auto simp: less_mult_imp_div_less)
  then show ?case using 3 by simp
qed simp_all

lemma char_of_inj_on:
  assumes "list_all (\<lambda>b. b < 256) xs" "list_all (\<lambda>b. b < 256) ys"
    and "map char_of xs = (map char_of ys :: string)"
  shows "xs = (ys :: nat list)"
proof -
  have id: "map (of_char :: char \<Rightarrow> nat) (map char_of zs) = zs" if "list_all (\<lambda>b. b < 256) zs" for zs :: "nat list"
    using that by (induction zs) simp_all
  show ?thesis using id [OF assms(1)] id [OF assms(2)] assms(3) by metis
qed

lemma full_quads:
  fixes k :: nat
  assumes "k * 3 div 4 = 3 * n" "k mod 4 \<noteq> 1"
  shows "k = 4 * n"
proof -
  define q where "q = k div 4"
  have "k mod 4 < 4" by simp
  then consider "k mod 4 = 0" | "k mod 4 = 2" | "k mod 4 = 3" using assms(2) by linarith
  then show ?thesis
  proof cases
    case 1
    then have "k = 4 * q" using div_mult_mod_eq [of k 4] by (simp add: q_def)
    then show ?thesis using assms(1) by simp
  next
    case 2
    then have "k = 4 * q + 2" using div_mult_mod_eq [of k 4] by (simp add: q_def)
    then have "k * 3 div 4 = 3 * q + 1" by simp
    with assms(1) have "3 * n = 3 * q + 1" by simp
    then show ?thesis by presburger
  next
    case 3
    then have "k = 4 * q + 3" using div_mult_mod_eq [of k 4] by (simp add: q_def)
    then have "k * 3 div 4 = 3 * q + 2" by simp
    with assms(1) have "3 * n = 3 * q + 2" by simp
    then show ?thesis by presburger
  qed
qed

text \<open>Two texts of the URL alphabet that decode to the same bytes, a multiple of three of
  them, are the same text.\<close>

lemma decode_unique:
  assumes "base64url_only s" "base64url_only t" "base64url_decode s = Some bs" "base64url_decode t = Some bs"
    and "length bs = 3 * n"
  shows "s = t"
proof -
  obtain vs where vs: "s = map b64_char vs" "list_all (\<lambda>v. v < 64) vs" by (rule url_text_values [OF assms(1)])
  obtain us where us: "t = map b64_char us" "list_all (\<lambda>v. v < 64) us" by (rule url_text_values [OF assms(2)])
  have v: "bs = map char_of (octets vs)" "length vs mod 4 \<noteq> 1"
    using assms(3) decode_values [OF vs(2)] by (auto simp: vs(1) split: if_split_asm)
  have u: "bs = map char_of (octets us)" "length us mod 4 \<noteq> 1"
    using assms(4) decode_values [OF us(2)] by (auto simp: us(1) split: if_split_asm)

  have "length vs = 4 * n" by (rule full_quads [OF _ v(2)]) (use v(1) assms(5) in \<open>simp add: octets_length\<close>)
  moreover have "length us = 4 * n" by (rule full_quads [OF _ u(2)]) (use u(1) assms(5) in \<open>simp add: octets_length\<close>)
  moreover have "octets vs = octets us"
    by (rule char_of_inj_on) (use v u vs us in \<open>simp_all add: octets_bound\<close>)
  ultimately have "vs = us" using octets_inj vs(2) us(2) by blast
  then show ?thesis by (simp add: vs(1) us(1))
qed

section \<open>JSON text\<close>

definition hex_digit :: "nat \<Rightarrow> char" where
  "hex_digit v = (if v < 10 then char_of (48 + v) else char_of (87 + v))"

definition json_escape :: "char \<Rightarrow> string" where
  \<comment> \<open>\<open>json.dumps(..., ensure_ascii=False)\<close> on one character\<close>
  "json_escape c = (let n = of_char c :: nat in
     if n = 34 then [CHR 0x5C, CHR 0x22] else if n = 92 then [CHR 0x5C, CHR 0x5C]
     else if n = 10 then [CHR 0x5C, CHR ''n''] else if n = 13 then [CHR 0x5C, CHR ''r'']
     else if n = 9 then [CHR 0x5C, CHR ''t''] else if n = 12 then [CHR 0x5C, CHR ''f'']
     else if n = 8 then [CHR 0x5C, CHR ''b'']
     else if n < 32 then [CHR 0x5C, CHR ''u'', CHR ''0'', CHR ''0'', hex_digit (n div 16), hex_digit (n mod 16)]
     else [c])"

definition json_string :: "string \<Rightarrow> string" where
  "json_string s = CHR 0x22 # concat (map json_escape s) @ [CHR 0x22]"

text \<open>A reader for one escaped character, to show that no two texts are rendered alike.\<close>

definition hex_value :: "char \<Rightarrow> nat" where
  "hex_value c = (let n = of_char c :: nat in if n < 58 then n - 48 else n - 87)"

fun unescape :: "string \<Rightarrow> (nat \<times> string) option" where
  "unescape [] = None"
| "unescape (c # cs) =
     (if of_char c = (34 :: nat) then None
      else if of_char c \<noteq> (92 :: nat) then Some (of_char c, cs)
      else case cs of
        [] \<Rightarrow> None
      | k # r \<Rightarrow>
          (let m = of_char k :: nat in
           if m = 110 then Some (10, r) else if m = 114 then Some (13, r)
           else if m = 116 then Some (9, r) else if m = 102 then Some (12, r)
           else if m = 98 then Some (8, r)
           else if m = 117 then (case r of z # y # h # l # t \<Rightarrow> Some (16 * hex_value h + hex_value l, t) | _ \<Rightarrow> None)
           else Some (m, r)))"

lemma hex_value_digit [simp]: "v < 16 \<Longrightarrow> hex_value (hex_digit v) = v"
  by (auto simp: hex_value_def hex_digit_def Let_def)

lemma unescape_escape: "unescape (json_escape c @ r) = Some (of_char c, r)"
proof -
  define n where "n = (of_char c :: nat)"
  have "n < 256" by (simp add: n_def)
  then have "n div 16 < 16" "n mod 16 < 16" by (simp_all add: less_mult_imp_div_less)
  then show ?thesis
    unfolding json_escape_def Let_def n_def [symmetric] by (simp add: n_def [symmetric])
qed

lemma unescape_quote: "unescape (CHR 0x22 # r) = None"
  by simp

lemma json_string_inj:
  assumes "json_string s @ x = json_string t @ y"
  shows "s = t \<and> x = y"
proof -
  have "concat (map json_escape s) @ CHR 0x22 # x = concat (map json_escape t) @ CHR 0x22 # y"
    using assms by (simp add: json_string_def)
  then show ?thesis
  proof (induction s arbitrary: t)
    case Nil
    show ?case
    proof (cases t)
      case Nil
      then show ?thesis using Nil.prems by simp
    next
      case (Cons d t')
      then show ?thesis using arg_cong [OF Nil.prems, of unescape] by (simp add: unescape_escape del: unescape.simps add: unescape_quote)
    qed
  next
    case (Cons c s)
    show ?case
    proof (cases t)
      case Nil
      then show ?thesis using arg_cong [OF Cons.prems, of unescape]
        by (simp add: unescape_escape unescape_quote del: unescape.simps)
    next
      case t: (Cons d t')
      then have "Some (of_char c :: nat, concat (map json_escape s) @ CHR 0x22 # x)
          = Some (of_char d, concat (map json_escape t') @ CHR 0x22 # y)"
        using arg_cong [OF Cons.prems, of unescape] by (simp add: unescape_escape del: unescape.simps)
      then have "c = d" "concat (map json_escape s) @ CHR 0x22 # x = concat (map json_escape t') @ CHR 0x22 # y"
        by simp_all
      with Cons.IH t show ?thesis by simp
    qed
  qed
qed

section \<open>Numbers in JSON\<close>

definition is_digit :: "char \<Rightarrow> bool" where
  "is_digit c \<longleftrightarrow> 48 \<le> (of_char c :: nat) \<and> (of_char c :: nat) \<le> 57"

definition digits_value :: "string \<Rightarrow> nat" where
  "digits_value s = foldl (\<lambda>n c. 10 * n + (of_char c - 48)) 0 s"

lemma digit_char_code: "d < 10 \<Longrightarrow> of_char (digit_char d) = 48 + d"
proof -
  have "list_all (\<lambda>d. of_char (digit_char d) = 48 + d) [0, 1, 2, 3, 4, 5, 6, 7, 8, 9]"
    by (simp add: digit_char_def)
  moreover assume "d < 10"
  then have "d \<in> set [0, 1, 2, 3, 4, 5, 6, 7, 8, 9]" by auto
  ultimately show ?thesis unfolding list_all_iff by blast
qed

lemma show_nat_digits: "list_all is_digit (show_nat n) \<and> digits_value (show_nat n) = n \<and> show_nat n \<noteq> []"
proof (induction n rule: show_nat.induct)
  case (1 n)
  show ?case
  proof (cases "n < 10")
    case True
    then have "show_nat n = [digit_char n]" by (simp add: show_nat.simps)
    then show ?thesis using digit_char_code [OF True] True by (simp add: is_digit_def digits_value_def)
  next
    case False
    then have s: "show_nat n = show_nat (n div 10) @ [digit_char (n mod 10)]" by (subst show_nat.simps) simp
    have "of_char (digit_char (n mod 10)) = 48 + n mod 10" by (rule digit_char_code) simp
    then show ?thesis using 1 [OF False] by (simp add: s is_digit_def digits_value_def)
  qed
qed

lemma digits_prefix:
  assumes "list_all is_digit s" "list_all is_digit t" "\<not> is_digit c" "\<not> is_digit d"
    and "s @ c # x = t @ d # y"
  shows "s = t \<and> c # x = d # y"
proof -
  have "takeWhile is_digit (s @ c # x) = s" "takeWhile is_digit (t @ d # y) = t"
    using assms(1-4) by (simp_all add: takeWhile_append2 list_all_iff)
  then have "s = t" using assms(5) by simp
  then show ?thesis using assms(5) by simp
qed

lemma show_nat_hd: "is_digit (hd (show_nat n @ z))"
  using show_nat_digits [of n] by (cases "show_nat n") simp_all

lemma show_int_hd: "hd (show_int k @ z) = CHR ''-'' \<longleftrightarrow> k < 0"
proof (cases "k < 0")
  case True
  then show ?thesis by (simp add: show_int_def)
next
  case False
  have "\<not> is_digit (CHR ''-'')" by (simp add: is_digit_def)
  with False show_nat_hd [of "nat k" z] show ?thesis by (auto simp: show_int_def)
qed

lemma show_int_hd_n: "hd (show_int k @ z) \<noteq> CHR ''n''"
proof (cases "k < 0")
  case True
  then show ?thesis by (simp add: show_int_def)
next
  case False
  have "\<not> is_digit (CHR ''n'')" by (simp add: is_digit_def)
  with False show_nat_hd [of "nat k" z] show ?thesis by (auto simp: show_int_def)
qed

lemma show_nat_prefix:
  assumes "show_nat m @ c # x = show_nat n @ d # y" "\<not> is_digit c" "\<not> is_digit d"
  shows "m = n \<and> c # x = d # y"
proof -
  have dm: "list_all is_digit (show_nat m)" "digits_value (show_nat m) = m"
    and dn: "list_all is_digit (show_nat n)" "digits_value (show_nat n) = n"
    using show_nat_digits [of m] show_nat_digits [of n] by simp_all
  have p: "show_nat m = show_nat n \<and> c # x = d # y" by (rule digits_prefix [OF dm(1) dn(1) assms(2,3,1)])
  have "m = digits_value (show_nat m)" using dm(2) by (rule sym)
  also have "\<dots> = digits_value (show_nat n)" by (simp only: conjunct1 [OF p])
  also have "\<dots> = n" by (rule dn(2))
  finally show ?thesis using conjunct2 [OF p] by (rule conjI)
qed

lemma show_int_prefix:
  assumes "show_int i @ c # x = show_int j @ d # y" "\<not> is_digit c" "\<not> is_digit d"
  shows "i = j \<and> c # x = d # y"
proof -
  have same: "i < 0 \<longleftrightarrow> j < 0"
    using show_int_hd [of i "c # x"] show_int_hd [of j "d # y"] unfolding assms(1) by blast
  show ?thesis
  proof (cases "i < 0")
    case True
    then have i: "show_int i = CHR ''-'' # show_nat (nat (- i))" and j: "show_int j = CHR ''-'' # show_nat (nat (- j))"
      using same by (simp_all add: show_int_def)
    have "show_nat (nat (- i)) @ c # x = show_nat (nat (- j)) @ d # y"
      using assms(1) unfolding i j append_Cons list.inject by (rule conjunct2)
    from show_nat_prefix [OF this assms(2,3)] have "nat (- i) = nat (- j)" "c # x = d # y" by blast+
    moreover have "i = j" using \<open>nat (- i) = nat (- j)\<close> True same by linarith
    ultimately show ?thesis by blast
  next
    case False
    then have i: "show_int i = show_nat (nat i)" and j: "show_int j = show_nat (nat j)"
      using same by (simp_all add: show_int_def)
    from show_nat_prefix [OF assms(1) [unfolded i j] assms(2,3)]
    have "nat i = nat j" "c # x = d # y" by blast+
    moreover have "i = j" using \<open>nat i = nat j\<close> False same by linarith
    ultimately show ?thesis by blast
  qed
qed

definition json_opt_int :: "int option \<Rightarrow> string" where
  "json_opt_int v = (case v of None \<Rightarrow> ''null'' | Some i \<Rightarrow> show_int i)"

lemma json_opt_int_prefix:
  assumes "json_opt_int v @ c # x = json_opt_int u @ d # y" "\<not> is_digit c" "\<not> is_digit d"
  shows "v = u \<and> c # x = d # y"
proof -
  have null: "hd (''null'' @ z) = CHR ''n''" for z :: string by simp
  show ?thesis
  proof (cases v; cases u)
    fix i j
    assume "v = Some i" "u = Some j"
    with show_int_prefix [of i c x j d y] assms show ?thesis by (simp add: json_opt_int_def)
  next
    fix i
    assume "v = Some i" "u = None"
    then have "hd (show_int i @ c # x) = hd (''null'' @ d # y)"
      using assms(1) by (simp only: json_opt_int_def option.case)
    with show_int_hd_n [of i "c # x"] null [of "d # y"] show ?thesis by simp
  next
    fix j
    assume "v = None" "u = Some j"
    then have "hd (show_int j @ d # y) = hd (''null'' @ c # x)"
      using assms(1) by (simp only: json_opt_int_def option.case)
    with show_int_hd_n [of j "d # y"] null [of "c # x"] show ?thesis by simp
  qed (use assms(1) in \<open>simp add: json_opt_int_def\<close>)
qed

lemma encode_url_only: "base64url_only (base64url_encode bs)"
proof -
  have "list_all (\<lambda>v. v < 64) (sextets (map of_char bs))"
    by (rule sextets_bound) (simp add: list_all_iff)
  then show ?thesis
    unfolding base64url_only_def encode_sextets url_alphabet by (auto simp: list_all_iff)
qed

end
