(* ===== verification/Models.thy ===== *)
theory Models
  imports Codec
begin

text \<open>
  \<open>models.py\<close>: the requests the gateway accepts and the validators on their fields. A
  request is a record of the values pydantic hands to the code, a validator is a predicate
  on them (or a function, where it changes the value). Identifiers are UTF-8 strings;
  display names, which the validators look into, are code-point lists. Pydantic itself
  (parsing, coercion, the refusal of extra keys) is outside the model.
\<close>

section \<open>Field formats\<close>

definition utf8_length :: "string \<Rightarrow> nat" where
  \<comment> \<open>\<open>len\<close> of the text: its code points\<close>
  "utf8_length s = length (filter (\<lambda>c. \<not> (128 \<le> (of_char c :: nat) \<and> (of_char c :: nat) < 192)) s)"

definition ascii_letter :: "char \<Rightarrow> bool" where
  "ascii_letter c \<longleftrightarrow> (let n = of_char c :: nat in 65 \<le> n \<and> n \<le> 90 \<or> 97 \<le> n \<and> n \<le> 122)"

definition identifier_pattern :: "string \<Rightarrow> bool" where
  "identifier_pattern s \<longleftrightarrow> (case s of [] \<Rightarrow> False | c # cs \<Rightarrow> ascii_letter c \<and> length cs \<le> 63
     \<and> list_all (\<lambda>x. ascii_letter x \<or> is_digit x \<or> x \<in> set ''._-'') cs)"

definition device_id_pattern :: "string \<Rightarrow> bool" where
  "device_id_pattern s \<longleftrightarrow> (case s of [] \<Rightarrow> False | c # cs \<Rightarrow> (ascii_letter c \<or> is_digit c)
     \<and> 2 \<le> length cs \<and> length cs \<le> 63
     \<and> list_all (\<lambda>x. ascii_letter x \<or> is_digit x \<or> x \<in> set ''._:-'') cs)"

definition device_name_pattern :: "pytext \<Rightarrow> bool" where
  "device_name_pattern t \<longleftrightarrow> 1 \<le> length t \<and> length t \<le> 64 \<and> list_all (\<lambda>n. 32 \<le> n \<and> n \<noteq> 127) t"

definition segment_ok :: "string \<Rightarrow> bool" where
  "segment_ok s \<longleftrightarrow> 8 \<le> length s \<and> base64url_only s"

fun split_on :: "char \<Rightarrow> string \<Rightarrow> string list" where
  \<comment> \<open>\<open>s.split(c)\<close>\<close>
  "split_on c [] = [[]]"
| "split_on c (x # xs) = (if x = c then [] # split_on c xs
     else (case split_on c xs of [] \<Rightarrow> [[x]] | w # ws \<Rightarrow> (x # w) # ws))"

definition compact_jws_pattern :: "string \<Rightarrow> bool" where
  "compact_jws_pattern s \<longleftrightarrow> length (split_on (CHR ''.'') s) = 3 \<and> list_all segment_ok (split_on (CHR ''.'') s)"

definition whitespace :: "nat \<Rightarrow> bool" where
  \<comment> \<open>what \<open>str.strip\<close> removes\<close>
  "whitespace n \<longleftrightarrow> 9 \<le> n \<and> n \<le> 13 \<or> 28 \<le> n \<and> n \<le> 32 \<or> n \<in> {133, 160, 5760, 8232, 8233, 8239, 8287, 12288}
     \<or> 8192 \<le> n \<and> n \<le> 8202"

definition strip :: "pytext \<Rightarrow> pytext" where
  "strip t = rev (dropWhile whitespace (rev (dropWhile whitespace t)))"

section \<open>Requests\<close>

record identity =
  de_id :: string
  de_name :: pytext
  de_type :: string
  de_category :: string
  de_caps :: "string list"

definition valid_capabilities :: "string list \<Rightarrow> bool" where
  "valid_capabilities cs \<longleftrightarrow> distinct cs \<and> list_all identifier_pattern cs"

definition valid_device_name :: "pytext \<Rightarrow> bool" where
  "valid_device_name t \<longleftrightarrow> device_name_pattern t \<and> strip t \<noteq> []"

definition valid_declaration :: "'a identity_scheme \<Rightarrow> bool" where
  "valid_declaration d \<longleftrightarrow> device_id_pattern (de_id d) \<and> valid_device_name (de_name d)
     \<and> identifier_pattern (de_type d) \<and> identifier_pattern (de_category d)
     \<and> 1 \<le> length (de_caps d) \<and> length (de_caps d) \<le> 32 \<and> valid_capabilities (de_caps d)"

record registration = identity +
  re_room :: string
  re_proof :: string

definition valid_registration :: "registration \<Rightarrow> bool" where
  "valid_registration r \<longleftrightarrow> valid_declaration r \<and> identifier_pattern (re_room r)
     \<and> 25 \<le> length (re_proof r) \<and> length (re_proof r) \<le> 4096 \<and> compact_jws_pattern (re_proof r)"

definition require_and_strip_schema :: "pyval \<Rightarrow> exn + payload" where
  "require_and_strip_schema v = (case v of
       PDict d \<Rightarrow> if py_get d ''schema'' \<noteq> PStr ''devcontrol.device-registration'' then Inl (Raised ValueError)
         else Inr (dict_del ''schema'' d)
     | _ \<Rightarrow> Inl (Raised ValueError))"

record room_request =
  rq_id :: string
  rq_name :: pytext

definition valid_room_name :: "pytext \<Rightarrow> pytext option" where
  \<comment> \<open>the validator returns the stripped name\<close>
  "valid_room_name t = (if \<not> device_name_pattern t \<or> strip t = [] then None else Some (strip t))"

definition room_create_request :: "string \<Rightarrow> pytext \<Rightarrow> room_request option" where
  "room_create_request i t = (if \<not> identifier_pattern i then None
     else case valid_room_name t of None \<Rightarrow> None | Some n \<Rightarrow> Some \<lparr>rq_id = i, rq_name = n\<rparr>)"

record envelope =
  ev_message :: string
  ev_device :: string
  ev_timestamp :: int
  ev_action :: string
  ev_expected :: "int option"
  ev_nonce :: string
  ev_ciphertext :: string
  ev_tag :: string

definition valid_envelope :: "envelope \<Rightarrow> bool" where
  "valid_envelope e \<longleftrightarrow>
     16 \<le> length (ev_message e) \<and> length (ev_message e) \<le> 128 \<and> base64url_only (ev_message e)
     \<and> 3 \<le> utf8_length (ev_device e) \<and> utf8_length (ev_device e) \<le> 128
     \<and> 1 \<le> utf8_length (ev_action e) \<and> utf8_length (ev_action e) \<le> 64
     \<and> (case ev_expected e of None \<Rightarrow> True | Some v \<Rightarrow> 0 \<le> v)
     \<and> 16 \<le> length (ev_nonce e) \<and> length (ev_nonce e) \<le> 32 \<and> base64url_only (ev_nonce e)
     \<and> 1 \<le> length (ev_ciphertext e) \<and> length (ev_ciphertext e) \<le> 32768 \<and> base64url_only (ev_ciphertext e)
     \<and> 16 \<le> length (ev_tag e) \<and> length (ev_tag e) \<le> 32 \<and> base64url_only (ev_tag e)"

section \<open>The authenticated header\<close>

definition canonical_aad :: "envelope \<Rightarrow> string" where
  "canonical_aad e =
     ''{'' @ json_string ''protocolVersion'' @ '':'' @ json_string ''1.0''
     @ '','' @ json_string ''messageId'' @ '':'' @ json_string (ev_message e)
     @ '','' @ json_string ''deviceId'' @ '':'' @ json_string (ev_device e)
     @ '','' @ json_string ''timestamp'' @ '':'' @ show_int (ev_timestamp e)
     @ '','' @ json_string ''type'' @ '':'' @ json_string ''command.request''
     @ '','' @ json_string ''action'' @ '':'' @ json_string (ev_action e)
     @ '','' @ json_string ''expectedStateVersion'' @ '':'' @ json_opt_int (ev_expected e) @ ''}''"

lemma aad_fields:
  assumes "canonical_aad e = canonical_aad e'"
  shows "ev_message e = ev_message e' \<and> ev_device e = ev_device e' \<and> ev_timestamp e = ev_timestamp e'
    \<and> ev_action e = ev_action e' \<and> ev_expected e = ev_expected e'"
proof -
  let ?t = "\<lambda>e. '','' @ json_string ''action'' @ '':'' @ json_string (ev_action e)
     @ '','' @ json_string ''expectedStateVersion'' @ '':'' @ json_opt_int (ev_expected e) @ ''}''"
  let ?s = "\<lambda>e. '','' @ json_string ''type'' @ '':'' @ json_string ''command.request'' @ ?t e"
  let ?r = "\<lambda>e. '','' @ json_string ''timestamp'' @ '':'' @ show_int (ev_timestamp e) @ ?s e"
  let ?q = "\<lambda>e. '','' @ json_string ''deviceId'' @ '':'' @ json_string (ev_device e) @ ?r e"
  have comma: "\<not> is_digit (CHR '','')" "\<not> is_digit (CHR ''}'')" by (simp_all add: is_digit_def)
  have "json_string (ev_message e) @ ?q e = json_string (ev_message e') @ ?q e'"
    using assms unfolding canonical_aad_def by (simp only: append_same_eq same_append_eq append_assoc)
  from json_string_inj [OF this] have m: "ev_message e = ev_message e'" and q: "?q e = ?q e'" by blast+
  from q have "json_string (ev_device e) @ ?r e = json_string (ev_device e') @ ?r e'"
    by (simp only: same_append_eq)
  from json_string_inj [OF this] have d: "ev_device e = ev_device e'" and r: "?r e = ?r e'" by blast+
  from r have "show_int (ev_timestamp e) @ ?s e = show_int (ev_timestamp e') @ ?s e'"
    by (simp only: same_append_eq)
  then have "show_int (ev_timestamp e) @ CHR '','' # tl (?s e) = show_int (ev_timestamp e') @ CHR '','' # tl (?s e')"
    by (simp only: append_Cons append_Nil list.sel)
  from show_int_prefix [OF this comma(1) comma(1)]
  have t: "ev_timestamp e = ev_timestamp e'" and s: "CHR '','' # tl (?s e) = CHR '','' # tl (?s e')" by blast+
  from s have "json_string (ev_action e) @ '','' @ json_string ''expectedStateVersion'' @ '':'' @ json_opt_int (ev_expected e) @ ''}''
      = json_string (ev_action e') @ '','' @ json_string ''expectedStateVersion'' @ '':'' @ json_opt_int (ev_expected e') @ ''}''"
    by (simp only: same_append_eq append_Cons append_Nil list.sel list.inject simp_thms)
  from json_string_inj [OF this] have a: "ev_action e = ev_action e'"
    and x: "'','' @ json_string ''expectedStateVersion'' @ '':'' @ json_opt_int (ev_expected e) @ ''}''
      = '','' @ json_string ''expectedStateVersion'' @ '':'' @ json_opt_int (ev_expected e') @ ''}''" by blast+
  from x have "json_opt_int (ev_expected e) @ ''}'' = json_opt_int (ev_expected e') @ ''}''"
    by (simp only: same_append_eq)
  from json_opt_int_prefix [OF this comma(2) comma(2)] have "ev_expected e = ev_expected e'" by blast
  with m d t a show ?thesis by blast
qed

end
