(* ===== verification/Security.thy ===== *)
theory Security
  imports Models
begin

text \<open>
  The cryptographic part of \<open>security.py\<close>: sealing and opening the payload of a command, and
  the provisioning authority that signs and verifies device certificates. The primitives
  of the \<open>cryptography\<close> package and the hash and JSON reader of the standard library are
  fields of \<open>platform\<close>; what a property needs of them is one of its hypotheses.
\<close>

record platform =
  pf_sha256 :: "string \<Rightarrow> string"
  pf_json_loads :: "string \<Rightarrow> py_exc + pyval"
  pf_json_dumps :: "payload \<Rightarrow> string"
  pf_open :: "string \<Rightarrow> string \<Rightarrow> string \<Rightarrow> string \<Rightarrow> string option"
  pf_seal :: "string \<Rightarrow> string \<Rightarrow> string \<Rightarrow> string \<Rightarrow> string"
  pf_sign :: "string \<Rightarrow> nat \<times> nat"
  pf_verify :: "nat \<Rightarrow> nat \<Rightarrow> string \<Rightarrow> bool"

section \<open>Payloads\<close>

definition replay_error :: exn where
  "replay_error = Gateway (gw_status REPLAY_DETECTED m_cmd_auth 400)"

definition encrypt_payload :: "platform \<Rightarrow> string \<Rightarrow> payload \<Rightarrow> string \<Rightarrow> envelope \<Rightarrow> envelope" where
  \<comment> \<open>\<open>token\<close> is the result of \<open>secrets.token_bytes(12)\<close>; the answer is the header with the
     three encrypted fields filled in\<close>
  "encrypt_payload pf key p token header =
     (let e = header\<lparr>ev_nonce := base64url_encode token, ev_ciphertext := ''placeholder'',
            ev_tag := base64url_encode (replicate 16 (CHR ''0''))\<rparr>;
          sealed = pf_seal pf key token (pf_json_dumps pf p) (canonical_aad e);
          n = length sealed - 16
      in e\<lparr>ev_ciphertext := base64url_encode (take n sealed), ev_tag := base64url_encode (drop n sealed)\<rparr>)"

definition decrypt_payload :: "platform \<Rightarrow> string \<Rightarrow> envelope \<Rightarrow> exn + payload" where
  "decrypt_payload pf key e =
     (case base64url_decode (ev_nonce e) of None \<Rightarrow> Inl replay_error
      | Some nonce \<Rightarrow>
          if length nonce \<noteq> 12 then Inl replay_error
          else (case base64url_decode (ev_ciphertext e) of None \<Rightarrow> Inl replay_error
            | Some ciphertext \<Rightarrow>
                (case base64url_decode (ev_tag e) of None \<Rightarrow> Inl replay_error
                 | Some tag \<Rightarrow>
                     if length tag \<noteq> 16 then Inl replay_error
                     else (case pf_open pf key nonce (ciphertext @ tag) (canonical_aad e) of
                         None \<Rightarrow> Inl replay_error
                       | Some plaintext \<Rightarrow>
                           (case pf_json_loads pf plaintext of
                              Inl x \<Rightarrow> if x = ValueError then Inl replay_error else Inl (Raised x)
                            | Inr v \<Rightarrow> (case v of PDict d \<Rightarrow> Inr d | _ \<Rightarrow> Inl replay_error))))))"

section \<open>Device certificates\<close>

definition PROVISIONING_ISSUER :: string where "PROVISIONING_ISSUER = ''devcontrol-virtual-gateway''"
definition PROVISIONING_AUDIENCE :: string where "PROVISIONING_AUDIENCE = ''devcontrol.device-registration''"

definition utf8_char :: "nat \<Rightarrow> string" where
  "utf8_char n =
     (if n < 128 then [char_of n]
      else if n < 2048 then [char_of (192 + n div 64), char_of (128 + n mod 64)]
      else if n < 65536 then [char_of (224 + n div 4096), char_of (128 + n div 64 mod 64), char_of (128 + n mod 64)]
      else [char_of (240 + n div 262144), char_of (128 + n div 4096 mod 64),
            char_of (128 + n div 64 mod 64), char_of (128 + n mod 64)])"

definition utf8_encode :: "pytext \<Rightarrow> string" where
  "utf8_encode t = concat (map utf8_char t)"

definition identity_items :: "'a identity_scheme \<Rightarrow> payload" where
  "identity_items d =
     [(''deviceId'', PStr (de_id d)), (''deviceName'', PStr (utf8_encode (de_name d))),
      (''deviceType'', PStr (de_type d)), (''categoryId'', PStr (de_category d)),
      (''capabilities'', PList (map PStr (de_caps d)))]"

definition claims_of :: "'a identity_scheme \<Rightarrow> payload" where
  "claims_of d =
     [(''iss'', PStr PROVISIONING_ISSUER), (''aud'', PStr PROVISIONING_AUDIENCE),
      (''certificateType'', PStr ''device-identity-v1'')] @ identity_items d"

definition jws_header :: payload where
  "jws_header = [(''alg'', PStr ''ES256''), (''kid'', PStr ''local-device-provisioner''), (''typ'', PStr ''JWT'')]"

fun to_bytes_big :: "nat \<Rightarrow> nat \<Rightarrow> string" where
  "to_bytes_big 0 n = []"
| "to_bytes_big (Suc k) n = to_bytes_big k (n div 256) @ [char_of (n mod 256)]"

definition from_bytes_big :: "string \<Rightarrow> nat" where
  "from_bytes_big s = foldl (\<lambda>n c. 256 * n + of_char c) 0 s"

definition issue :: "platform \<Rightarrow> identity \<Rightarrow> string" where
  "issue pf d =
     (let encoded_header = base64url_encode (pf_json_dumps pf jws_header);
          encoded_claims = base64url_encode (pf_json_dumps pf (claims_of d));
          (r, s) = pf_sign pf (encoded_header @ ''.'' @ encoded_claims);
          jose_signature = to_bytes_big 32 r @ to_bytes_big 32 s
      in encoded_header @ ''.'' @ encoded_claims @ ''.'' @ base64url_encode jose_signature)"

fun split_max :: "nat \<Rightarrow> char \<Rightarrow> string \<Rightarrow> string list" where
  \<comment> \<open>\<open>s.split(c, n)\<close>\<close>
  "split_max n c [] = [[]]"
| "split_max n c (x # xs) =
     (if x = c \<and> 0 < n then [] # split_max (n - 1) c xs
      else (case split_max n c xs of [] \<Rightarrow> [[x]] | w # ws \<Rightarrow> (x # w) # ws))"

definition proof_error :: "pytext \<Rightarrow> exn" where
  "proof_error m = Gateway (gw_status DEVICE_PROOF_INVALID m 401)"

definition decode_object :: "platform \<Rightarrow> string \<Rightarrow> py_exc + payload" where
  "decode_object pf segment =
     (case base64url_decode segment of None \<Rightarrow> Inl ValueError
      | Some bs \<Rightarrow> (case pf_json_loads pf bs of Inl x \<Rightarrow> Inl x
          | Inr v \<Rightarrow> (case v of PDict d \<Rightarrow> Inr d | _ \<Rightarrow> Inl ValueError)))"

definition parse_proof :: "platform \<Rightarrow> string \<Rightarrow> py_exc + (string \<times> string \<times> payload \<times> payload \<times> string)" where
  \<comment> \<open>the \<open>try\<close> block: the two encoded segments, the header, the claims and the signature\<close>
  "parse_proof pf gateway_proof =
     (case split_max 2 (CHR ''.'') gateway_proof of
        [encoded_header, encoded_claims, encoded_signature] \<Rightarrow>
          (case decode_object pf encoded_header of Inl x \<Rightarrow> Inl x
           | Inr header \<Rightarrow>
               (case decode_object pf encoded_claims of Inl x \<Rightarrow> Inl x
                | Inr claims \<Rightarrow>
                    (case base64url_decode encoded_signature of None \<Rightarrow> Inl ValueError
                     | Some signature \<Rightarrow> Inr (encoded_header, encoded_claims, header, claims, signature))))
      | _ \<Rightarrow> Inl ValueError)"

definition claims_error :: "payload \<Rightarrow> registration \<Rightarrow> pytext option" where
  \<comment> \<open>the checks after the signature: the issuer, then the declared identity\<close>
  "claims_error claims reg =
     (if py_get claims ''iss'' \<noteq> PStr PROVISIONING_ISSUER \<or> py_get claims ''aud'' \<noteq> PStr PROVISIONING_AUDIENCE
         \<or> (dict_get claims ''certificateType'' \<noteq> None
            \<and> py_get claims ''certificateType'' \<noteq> PStr ''device-identity-v1'')
      then Some m_proof_foreign
      else if list_ex (\<lambda>(k, v). py_get claims k \<noteq> v) (identity_items reg) then Some m_proof_mismatch
      else None)"

definition verify :: "platform \<Rightarrow> registration \<Rightarrow> exn + string" where
  \<comment> \<open>the answer is the fingerprint of the certificate\<close>
  "verify pf reg =
     (case parse_proof pf (re_proof reg) of
        Inl x \<Rightarrow> if x = ValueError then Inl (proof_error m_proof_format) else Inl (Raised x)
      | Inr (encoded_header, encoded_claims, header, claims, signature) \<Rightarrow>
          if py_get header ''alg'' \<noteq> PStr ''ES256'' \<or> py_get header ''typ'' \<noteq> PStr ''JWT''
          then Inl (proof_error m_proof_alg)
          else if length signature \<noteq> 64 then Inl (proof_error m_proof_sig)
          else if \<not> pf_verify pf (from_bytes_big (take 32 signature)) (from_bytes_big (drop 32 signature))
                   (encoded_header @ ''.'' @ encoded_claims)
          then Inl (proof_error m_proof_sig)
          else (case claims_error claims reg of
              Some m \<Rightarrow> Inl (proof_error m)
            | None \<Rightarrow> Inr (pf_sha256 pf (re_proof reg))))"

section \<open>Opening what was sealed\<close>

lemma aad_encrypted_fields [simp]:
  "canonical_aad (e\<lparr>ev_nonce := n\<rparr>) = canonical_aad e" "canonical_aad (e\<lparr>ev_ciphertext := c\<rparr>) = canonical_aad e"
  "canonical_aad (e\<lparr>ev_tag := t\<rparr>) = canonical_aad e"
  by (simp_all add: canonical_aad_def)

definition aead_ok :: "platform \<Rightarrow> bool" where
  \<comment> \<open>documented behaviour of AES-GCM: opening undoes sealing, and a sealed text ends with a tag
     of 16 bytes\<close>
  "aead_ok pf \<longleftrightarrow>
     (\<forall>k n x a. length n = 12 \<longrightarrow> pf_open pf k n (pf_seal pf k n x a) a = Some x \<and> 16 \<le> length (pf_seal pf k n x a))"

definition json_ok :: "platform \<Rightarrow> payload \<Rightarrow> bool" where
  \<comment> \<open>\<open>json.loads\<close> undoes \<open>json.dumps\<close> on this object\<close>
  "json_ok pf p \<longleftrightarrow> pf_json_loads pf (pf_json_dumps pf p) = Inr (PDict p)"

definition signs :: "platform \<Rightarrow> string \<Rightarrow> bool" where
  \<comment> \<open>documented behaviour of ECDSA on P-256: a signature is two numbers of 32 bytes, and it verifies\<close>
  "signs pf x \<longleftrightarrow> fst (pf_sign pf x) < 256 ^ 32 \<and> snd (pf_sign pf x) < 256 ^ 32
     \<and> pf_verify pf (fst (pf_sign pf x)) (snd (pf_sign pf x)) x"

definition signing_input :: "platform \<Rightarrow> 'a identity_scheme \<Rightarrow> string" where
  "signing_input pf d =
     base64url_encode (pf_json_dumps pf jws_header) @ ''.'' @ base64url_encode (pf_json_dumps pf (claims_of d))"

lemma to_bytes_length [simp]: "length (to_bytes_big k n) = k"
  by (induction k arbitrary: n) simp_all

lemma from_to_bytes: "n < 256 ^ k \<Longrightarrow> from_bytes_big (to_bytes_big k n) = n"
proof (induction k arbitrary: n)
  case 0
  then show ?case by (simp add: from_bytes_big_def)
next
  case (Suc k)
  then have "n div 256 < 256 ^ k" by (simp add: less_mult_imp_div_less mult.commute)
  with Suc.IH [OF this] show ?case by (simp add: from_bytes_big_def)
qed

lemma encode_no_dot: "CHR ''.'' \<notin> set (base64url_encode bs)"
proof
  assume m: "CHR ''.'' \<in> set (base64url_encode bs)"
  have "list_all (\<lambda>v. v < 64) (sextets (map of_char bs))"
    by (rule sextets_bound) (simp add: list_all_iff)
  with m obtain v where "v < 64" "CHR ''.'' = b64_char v" by (auto simp: encode_sextets list_all_iff)
  then have "b64_value (CHR ''.'') = Some v" by simp
  then show False by (simp add: b64_value_def)
qed

lemma split_max_last: "split_max 0 c s = [s]"
  by (induction s) simp_all

lemma split_max_step: "c \<notin> set w \<Longrightarrow> split_max (Suc n) c (w @ c # s) = w # split_max n c s"
  by (induction w) auto

lemma split_proof:
  assumes "CHR ''.'' \<notin> set h" "CHR ''.'' \<notin> set c"
  shows "split_max 2 (CHR ''.'') (h @ ''.'' @ c @ ''.'' @ s) = [h, c, s]"
  using split_max_step [OF assms(1), of 1 "c @ ''.'' @ s"] split_max_step [OF assms(2), of 0 s]
  by (simp add: numeral_2_eq_2 split_max_last)

lemma split_max_join:
  "split_max n c t = w # v # ws \<Longrightarrow> c \<notin> set w \<and> 0 < n \<and> (\<exists>u. t = w @ c # u \<and> split_max (n - 1) c u = v # ws)"
proof (induction t arbitrary: w)
  case (Cons x t)
  show ?case
  proof (cases "x = c \<and> 0 < n")
    case True
    then show ?thesis using Cons.prems by simp
  next
    case False
    then obtain w' where w': "w = x # w'" "split_max n c t = w' # v # ws"
      using Cons.prems by (auto split: list.splits)
    with Cons.IH [OF w'(2)] False show ?thesis by auto
  qed
qed simp

lemma split_two:
  assumes "split_max 2 (CHR ''.'') t = [h, c, s]"
  shows "CHR ''.'' \<notin> set h" "CHR ''.'' \<notin> set c"
proof -
  from split_max_join [OF assms] obtain u where u: "CHR ''.'' \<notin> set h" "split_max 1 (CHR ''.'') u = [c, s]"
    by (auto simp: numeral_2_eq_2)
  then show "CHR ''.'' \<notin> set h" by simp
  from split_max_join [OF u(2)] show "CHR ''.'' \<notin> set c" by simp
qed

lemma join_inj:
  assumes "h @ c # t = h' @ c # t'" "c \<notin> set h" "c \<notin> set h'"
  shows "h = h' \<and> t = t'"
proof -
  have "takeWhile (\<lambda>x. x \<noteq> c) (h @ c # t) = h" "takeWhile (\<lambda>x. x \<noteq> c) (h' @ c # t') = h'"
    using assms(2,3) by (auto simp: takeWhile_append intro: takeWhile_eq_all_conv [THEN iffD2])
  with assms(1) show ?thesis by auto
qed

text \<open>What an accepted proof contains.\<close>

lemma verify_accepts:
  assumes "verify pf reg = Inr f"
  obtains h c s header claims signature where "split_max 2 (CHR ''.'') (re_proof reg) = [h, c, s]"
    "decode_object pf c = Inr claims" "f = pf_sha256 pf (re_proof reg)"
    "pf_verify pf (from_bytes_big (take 32 signature)) (from_bytes_big (drop 32 signature)) (h @ ''.'' @ c)"
    "claims_error claims reg = None"
proof -
  obtain h c header claims signature where pp: "parse_proof pf (re_proof reg) = Inr (h, c, header, claims, signature)"
    using assms by (auto simp: verify_def split: sum.splits if_splits)
  then obtain s where "split_max 2 (CHR ''.'') (re_proof reg) = [h, c, s]" "decode_object pf c = Inr claims"
    by (auto simp: parse_proof_def split: list.splits sum.splits option.splits)
  moreover have "f = pf_sha256 pf (re_proof reg)"
    "pf_verify pf (from_bytes_big (take 32 signature)) (from_bytes_big (drop 32 signature)) (h @ ''.'' @ c)"
    "claims_error claims reg = None"
    using assms pp by (auto simp: verify_def split: if_splits option.splits)
  ultimately show ?thesis by (rule that)
qed

lemma identity_items_get:
  "list_ex (\<lambda>(k, v). py_get (claims_of d) k \<noteq> v) (identity_items e) \<longleftrightarrow> identity_items d \<noteq> identity_items e"
  by (auto simp: identity_items_def claims_of_def py_get_def)

lemma claims_error_own: "claims_error (claims_of d) e = None \<longleftrightarrow> identity_items d = identity_items e"
  by (simp add: claims_error_def identity_items_get) (simp add: claims_of_def py_get_def)

section \<open>UTF-8\<close>

definition utf8_head :: "string \<Rightarrow> nat" where
  "utf8_head s = (let b = (\<lambda>i. of_char (s ! i) :: nat) in
     if b 0 < 128 then b 0
     else if b 0 < 224 then (b 0 - 192) * 64 + (b 1 - 128)
     else if b 0 < 240 then (b 0 - 224) * 4096 + (b 1 - 128) * 64 + (b 2 - 128)
     else (b 0 - 240) * 262144 + (b 1 - 128) * 4096 + (b 2 - 128) * 64 + (b 3 - 128))"

lemma utf8_mid: "n div 64 mod 64 + 64 * (n div 4096) = (n :: nat) div 64"
  using div_mult2_eq [of n 64 64] mod_div_mult_eq [of "n div 64" 64] by simp

lemma utf8_top: "n div 4096 mod 64 + 64 * (n div 262144) = (n :: nat) div 4096"
  using div_mult2_eq [of n 4096 64] mod_div_mult_eq [of "n div 4096" 64] by simp

lemma utf8_head_char: "n < 1114112 \<Longrightarrow> utf8_head (utf8_char n @ r) = n"
proof -
  assume n: "n < 1114112"
  have m64: "n mod 64 + 64 * (n div 64) = n" by simp
  consider "n < 128" | "128 \<le> n" "n < 2048" | "2048 \<le> n" "n < 65536" | "65536 \<le> n" by linarith
  then show ?thesis
  proof cases
    case 1
    then show ?thesis by (simp add: utf8_head_def utf8_char_def)
  next
    case 2
    then have b: "n div 64 < 32" by (simp add: less_mult_imp_div_less)
    show ?thesis using 2 b by (simp add: utf8_head_def utf8_char_def Let_def)
  next
    case 3
    then have b: "n div 4096 < 16" by (simp add: less_mult_imp_div_less)
    have e: "n div 4096 * 4096 + n div 64 mod 64 * 64 + n mod 64 = n"
      using m64 utf8_mid [of n] by linarith
    show ?thesis using 3 b e by (simp add: utf8_head_def utf8_char_def Let_def)
  next
    case 4
    have b: "n div 262144 < 5" using n by (simp add: less_mult_imp_div_less)
    have e: "n div 262144 * 262144 + n div 4096 mod 64 * 4096 + n div 64 mod 64 * 64 + n mod 64 = n"
      using m64 utf8_mid [of n] utf8_top [of n] by linarith
    show ?thesis using 4 b e by (simp add: utf8_head_def utf8_char_def Let_def)
  qed
qed

lemma utf8_encode_inj:
  "utf8_encode t = utf8_encode t' \<Longrightarrow> list_all (\<lambda>n. n < 1114112) t \<Longrightarrow> list_all (\<lambda>n. n < 1114112) t' \<Longrightarrow> t = t'"
proof (induction t arbitrary: t')
  case Nil
  then show ?case by (cases t') (auto simp: utf8_encode_def utf8_char_def split: if_splits)
next
  case (Cons x t)
  then obtain y u where t': "t' = y # u"
    by (cases t') (auto simp: utf8_encode_def utf8_char_def split: if_splits)
  have e: "utf8_char x @ utf8_encode t = utf8_char y @ utf8_encode u"
    using Cons.prems(1) t' by (simp add: utf8_encode_def)
  from arg_cong [OF e, of utf8_head] have "x = y"
    using Cons.prems(2,3) t' by (simp add: utf8_head_char)
  with e Cons t' show ?case by simp
qed

definition plain_identity :: "'a identity_scheme \<Rightarrow> identity" where
  \<comment> \<open>the identity part of a request\<close>
  "plain_identity r = \<lparr>de_id = de_id r, de_name = de_name r, de_type = de_type r, de_category = de_category r,
     de_caps = de_caps r\<rparr>"

definition code_points :: "'a identity_scheme \<Rightarrow> bool" where
  "code_points d \<longleftrightarrow> list_all (\<lambda>n. n < 1114112) (de_name d)"

lemma identity_items_inj:
  assumes "identity_items d = identity_items e" "code_points d" "code_points e"
  shows "plain_identity d = plain_identity e"
proof -
  have "inj PStr" by (auto simp: inj_def)
  from inj_map_eq_map [OF this] have "de_caps d = de_caps e" using assms(1) by (auto simp: identity_items_def)
  moreover have "de_name d = de_name e"
    using assms utf8_encode_inj [of "de_name d" "de_name e"] by (simp add: identity_items_def code_points_def)
  ultimately show ?thesis using assms(1) by (simp add: plain_identity_def identity_items_def)
qed

section \<open>Properties\<close>

text \<open>The text form of bytes that credentials, nonces, tags and certificates travel in loses
nothing: decoding what was encoded gives the bytes back, the encoded text is plain ASCII of
four characters for every three bytes, and it never contains the dot that separates the
segments of a certificate.\<close>

lemma base64url_round_trip:
  "base64url_decode (base64url_encode bs) = Some bs \<and> is_ascii (base64url_encode bs)
   \<and> length (base64url_encode bs) = (4 * length bs + 2) div 3 \<and> CHR ''.'' \<notin> set (base64url_encode bs)"
  by (intro conjI decode_encode encode_ascii encode_length encode_no_dot)

lemma encode_inj: "base64url_encode a = base64url_encode b \<Longrightarrow> a = b"
  by (metis decode_encode option.inject)

text \<open>The replay check compares nonces as text. For the texts the request model lets
through this is as good as comparing the 12 bytes that decryption uses: two different
accepted texts never decode to the same nonce, so no replay can hide behind another
spelling.\<close>

lemma nonce_no_alias:
  assumes "valid_envelope e" "valid_envelope e'"
    and "base64url_decode (ev_nonce e) = Some n" "base64url_decode (ev_nonce e') = Some n" "length n = 12"
  shows "ev_nonce e = ev_nonce e'"
  using assms by (intro decode_unique [of "ev_nonce e" "ev_nonce e'" n 4]) (simp_all add: valid_envelope_def)

definition demo_token :: string where
  "demo_token = map char_of [0::nat, 1, 2, 3, 4, 5, 6, 7, 8, 9, 10, 11]"

definition demo_envelope :: envelope where
  "demo_envelope = \<lparr>ev_message = base64url_encode demo_token, ev_device = ''light-1'', ev_timestamp = 1000,
     ev_action = ''setPower'', ev_expected = Some 3, ev_nonce = base64url_encode demo_token,
     ev_ciphertext = base64url_encode ''P'', ev_tag = base64url_encode (replicate 16 (CHR ''0''))\<rparr>"

lemma demo_token_length [simp]: "length demo_token = 12"
  by (simp add: demo_token_def)

lemma demo_envelope_sel [simp]:
  "ev_nonce demo_envelope = base64url_encode demo_token" "ev_ciphertext demo_envelope = base64url_encode ''P''"
  "ev_tag demo_envelope = base64url_encode (replicate 16 (CHR ''0''))"
  by (simp_all add: demo_envelope_def)

lemma demo_valid: "valid_envelope (demo_envelope\<lparr>ev_timestamp := t\<rparr>)"
proof -
  have "utf8_length ''light-1'' = 7" "utf8_length ''setPower'' = 8" by (simp_all add: utf8_length_def)
  then show ?thesis by (simp add: valid_envelope_def demo_envelope_def encode_url_only encode_length)
qed

lemma demo_decode:
  "base64url_decode (ev_nonce demo_envelope) = Some demo_token"
  "base64url_decode (ev_nonce (demo_envelope\<lparr>ev_timestamp := t\<rparr>)) = Some demo_token"
  by (simp_all add: decode_encode)

text \<open>Opening undoes sealing. Whatever header, key, payload and 12-byte nonce the client
uses, \<open>decrypt_payload\<close> returns the payload that \<open>encrypt_payload\<close> sealed.\<close>

lemma payload_round_trip:
  assumes "aead_ok pf" "json_ok pf p" "length token = 12"
  shows "decrypt_payload pf key (encrypt_payload pf key p token header) = Inr p"
proof -
  let ?e = "header\<lparr>ev_nonce := base64url_encode token, ev_ciphertext := ''placeholder'',
     ev_tag := base64url_encode (replicate 16 (CHR ''0''))\<rparr>"
  have "pf_open pf key token (pf_seal pf key token (pf_json_dumps pf p) (canonical_aad header)) (canonical_aad header)
      = Some (pf_json_dumps pf p)"
    "16 \<le> length (pf_seal pf key token (pf_json_dumps pf p) (canonical_aad header))"
    using assms(1,3) by (simp_all add: aead_ok_def)
  then show ?thesis using assms(2,3)
    by (simp add: decrypt_payload_def encrypt_payload_def Let_def decode_encode json_ok_def)
qed

definition demo_claims :: identity where
  "demo_claims = \<lparr>de_id = ''lamp-7'', de_name = [21488, 28783], de_type = ''light'', de_category = ''lighting'',
     de_caps = [''power'', ''level'']\<rparr>"

definition demo_tag :: "string \<Rightarrow> string \<Rightarrow> string \<Rightarrow> string" where
  "demo_tag k n a = take 16 ((k @ n @ a) @ replicate 16 (CHR ''0''))"

lemma demo_tag_length [simp]: "length (demo_tag k n a) = 16"
  unfolding demo_tag_def length_take length_append length_replicate by (rule min_absorb2) (rule le_add2)

definition demo_platform :: platform where
  \<comment> \<open>a platform with two known objects besides the payload of a power command\<close>
  "demo_platform = \<lparr>
     pf_sha256 = (\<lambda>b. take 4 (b @ ''0000'')),
     pf_json_loads = (\<lambda>b. if b = ''H'' then Inr (PDict jws_header) else if b = ''C'' then Inr (PDict (claims_of demo_claims))
        else if b = ''P'' then Inr (PDict [(''power'', PBool True)]) else Inl ValueError),
     pf_json_dumps = (\<lambda>p. if p = jws_header then ''H'' else if p = claims_of demo_claims then ''C''
        else if p = [(''power'', PBool True)] then ''P'' else ''?''),
     pf_open = (\<lambda>k n c a. if drop (length c - 16) c = demo_tag k n a
        then Some (take (length c - 16) c) else None),
     pf_seal = (\<lambda>k n x a. x @ demo_tag k n a),
     pf_sign = (\<lambda>x. (7, 9)),
     pf_verify = (\<lambda>r s x. r = 7 \<and> s = 9 \<and> x = ''SA.Qw'')\<rparr>"

lemma demo_aead: "aead_ok demo_platform"
  by (simp add: aead_ok_def demo_platform_def)

lemma demo_objects [simp]:
  "jws_header \<noteq> claims_of d" "claims_of d \<noteq> jws_header" "[(''power'', PBool True)] \<noteq> jws_header"
  "[(''power'', PBool True)] \<noteq> claims_of d"
  by (simp_all add: jws_header_def claims_of_def)

lemma demo_json:
  "json_ok demo_platform [(''power'', PBool True)]" "json_ok demo_platform jws_header"
  "json_ok demo_platform (claims_of demo_claims)"
  by (simp_all add: json_ok_def demo_platform_def)

text \<open>C11: a command that opens is one that its client sealed, in every header field. If the
cipher authenticates (it opens a text only under a header and a nonce with which the holder
of the key sealed that text), then whatever \<open>decrypt_payload\<close> accepts has the message id, the
device, the timestamp, the action, the expected version and the payload of a command that
was sealed with this key: an attacker who changes any of them is refused.\<close>

theorem payload_authentic:
  assumes authentic: "\<And>n c a x. pf_open pf key n c a = Some x \<Longrightarrow>
      \<exists>(p, token, h) \<in> set sealed. n = token \<and> a = canonical_aad h \<and> x = pf_json_dumps pf p"
    and json: "\<And>p token h. (p, token, h) \<in> set sealed \<Longrightarrow> json_ok pf p"
    and opened: "decrypt_payload pf key e = Inr q"
  shows "\<exists>(p, token, h) \<in> set sealed. q = p \<and> base64url_decode (ev_nonce e) = Some token
    \<and> ev_message e = ev_message h \<and> ev_device e = ev_device h \<and> ev_timestamp e = ev_timestamp h
    \<and> ev_action e = ev_action h \<and> ev_expected e = ev_expected h"
proof -
  obtain n c x where n: "base64url_decode (ev_nonce e) = Some n"
    and o: "pf_open pf key n c (canonical_aad e) = Some x" and x: "pf_json_loads pf x = Inr (PDict q)"
    using opened unfolding decrypt_payload_def
    by (auto split: option.splits if_splits sum.splits pyval.splits)
  from authentic [OF o] obtain p token h where h: "(p, token, h) \<in> set sealed"
    and eq: "n = token" "canonical_aad e = canonical_aad h" "x = pf_json_dumps pf p" by auto
  have "q = p" using json [OF h] x eq(3) by (simp add: json_ok_def)
  with aad_fields [OF eq(2)] n eq(1) have "q = p \<and> base64url_decode (ev_nonce e) = Some token
    \<and> ev_message e = ev_message h \<and> ev_device e = ev_device h \<and> ev_timestamp e = ev_timestamp h
    \<and> ev_action e = ev_action h \<and> ev_expected e = ev_expected h" by blast
  with h show ?thesis by (intro bexI [of _ "(p, token, h)"]) simp_all
qed

definition demo_cipher :: platform where
  \<comment> \<open>opens exactly one sealed command\<close>
  "demo_cipher = demo_platform\<lparr>pf_open := \<lambda>k n c a.
     if n = demo_token \<and> a = canonical_aad demo_envelope \<and> take 1 c = ''P'' then Some ''P'' else None\<rparr>"

theorem payload_authentic_witness:
  "\<exists>(p, token, h) \<in> set [([(''power'', PBool True)], demo_token, demo_envelope)].
     [(''power'', PBool True)] = p \<and> base64url_decode (ev_nonce (demo_envelope\<lparr>ev_tag := base64url_encode (replicate 16 (CHR ''7''))\<rparr>)) = Some token
     \<and> ev_message (demo_envelope\<lparr>ev_tag := base64url_encode (replicate 16 (CHR ''7''))\<rparr>) = ev_message h
     \<and> ev_device (demo_envelope\<lparr>ev_tag := base64url_encode (replicate 16 (CHR ''7''))\<rparr>) = ev_device h
     \<and> ev_timestamp (demo_envelope\<lparr>ev_tag := base64url_encode (replicate 16 (CHR ''7''))\<rparr>) = ev_timestamp h
     \<and> ev_action (demo_envelope\<lparr>ev_tag := base64url_encode (replicate 16 (CHR ''7''))\<rparr>) = ev_action h
     \<and> ev_expected (demo_envelope\<lparr>ev_tag := base64url_encode (replicate 16 (CHR ''7''))\<rparr>) = ev_expected h"
proof (rule payload_authentic [of demo_cipher "''key''"])
  fix n c a x
  assume "pf_open demo_cipher ''key'' n c a = Some x"
  then show "\<exists>(p, token, h) \<in> set [([(''power'', PBool True)], demo_token, demo_envelope)].
     n = token \<and> a = canonical_aad h \<and> x = pf_json_dumps demo_cipher p"
    by (simp add: demo_cipher_def demo_platform_def split: if_split_asm)
next
  fix p token h
  assume "(p, token, h) \<in> set [([(''power'', PBool True)], demo_token, demo_envelope)]"
  then show "json_ok demo_cipher p"
    using demo_json(1) by (simp add: json_ok_def demo_cipher_def)
next
  have "canonical_aad (demo_envelope\<lparr>ev_tag := base64url_encode (replicate 16 (CHR ''7''))\<rparr>) = canonical_aad demo_envelope"
    by (rule aad_encrypted_fields)
  then show "decrypt_payload demo_cipher ''key'' (demo_envelope\<lparr>ev_tag := base64url_encode (replicate 16 (CHR ''7''))\<rparr>) = Inr [(''power'', PBool True)]"
    by (simp add: decrypt_payload_def decode_encode demo_cipher_def demo_platform_def)
qed

lemma verify_issued:
  assumes "json_ok pf jws_header" "json_ok pf (claims_of d)" "signs pf (signing_input pf d)"
    and "plain_identity reg = d" "re_proof reg = issue pf d"
  shows "verify pf reg = Inr (pf_sha256 pf (issue pf d))"
proof -
  let ?h = "base64url_encode (pf_json_dumps pf jws_header)"
  let ?c = "base64url_encode (pf_json_dumps pf (claims_of d))"
  obtain r s where rs: "pf_sign pf (?h @ ''.'' @ ?c) = (r, s)" by (cases "pf_sign pf (?h @ ''.'' @ ?c)")
  let ?sig = "to_bytes_big 32 r @ to_bytes_big 32 s"
  have g: "r < 256 ^ 32" "s < 256 ^ 32" "pf_verify pf r s (?h @ ''.'' @ ?c)"
    using assms(3) rs by (simp_all add: signs_def signing_input_def)
  have i: "issue pf d = ?h @ ''.'' @ ?c @ ''.'' @ base64url_encode ?sig"
    using rs by (simp add: issue_def)
  have sp: "split_max 2 (CHR ''.'') (issue pf d) = [?h, ?c, base64url_encode ?sig]"
    unfolding i by (rule split_proof) (rule encode_no_dot)+
  have o: "decode_object pf ?h = Inr jws_header" "decode_object pf ?c = Inr (claims_of d)"
    using assms(1,2) by (simp_all add: decode_object_def decode_encode json_ok_def)
  have p: "parse_proof pf (re_proof reg) = Inr (?h, ?c, jws_header, claims_of d, ?sig)"
    unfolding assms(5) parse_proof_def sp using o by (simp add: decode_encode)
  have ce: "claims_error (claims_of d) reg = None"
    unfolding claims_error_own using assms(4) by (auto simp: plain_identity_def identity_items_def)
  have al: "py_get jws_header ''alg'' = PStr ''ES256''" "py_get jws_header ''typ'' = PStr ''JWT''"
    by (simp_all add: jws_header_def py_get_def)
  show ?thesis unfolding verify_def p using g(3)
    by (simp add: al ce from_to_bytes [OF g(1)] from_to_bytes [OF g(2)] assms(5))
qed

text \<open>A device certificate printed on a device registers it. Whatever identity the
authority signs with \<open>issue\<close>, \<open>verify\<close> accepts a registration that carries the certificate
and repeats the identity, in any room, and answers with the fingerprint of the certificate;
the room is not part of what was signed.\<close>

lemma certificate_round_trip:
  assumes "json_ok pf jws_header" "json_ok pf (claims_of d)" "signs pf (signing_input pf d)"
    and "plain_identity reg = d" "re_proof reg = issue pf d"
  shows "verify pf reg = Inr (pf_sha256 pf (issue pf d))"
  using assms by (rule verify_issued)

definition demo_registration :: registration where
  "demo_registration = identity.extend demo_claims \<lparr>re_room = ''living'', re_proof = issue demo_platform demo_claims\<rparr>"

lemma demo_encoded: "base64url_encode ''H'' = ''SA''" "base64url_encode ''C'' = ''Qw''"
  by code_simp+

lemma demo_dumps: "pf_json_dumps demo_platform jws_header = ''H''" "pf_json_dumps demo_platform (claims_of demo_claims) = ''C''"
  by (simp_all add: demo_platform_def)

lemma demo_input: "signing_input demo_platform demo_claims = ''SA.Qw''"
  by (simp add: signing_input_def demo_dumps demo_encoded)

lemma demo_signs: "signs demo_platform (signing_input demo_platform demo_claims)"
  by (simp add: signs_def demo_input) (simp add: demo_platform_def)

lemma demo_registration_sel [simp]:
  "plain_identity demo_registration = demo_claims" "re_proof demo_registration = issue demo_platform demo_claims"
  by (simp_all add: demo_registration_def plain_identity_def identity.defs demo_claims_def)

text \<open>C12: nobody can register an identity the authority did not sign. If a signature verifies
only on texts that \<open>issue\<close> signed, then an accepted registration repeats, field by field,
the identity of a declaration a certificate was issued for: a changed name, type, category
or capability list, a foreign certificate and a forged one are all refused.\<close>

theorem certificate_authentic:
  assumes unforgeable: "\<And>r s x. pf_verify pf r s x \<Longrightarrow> \<exists>d \<in> set issued. x = signing_input pf d"
    and json: "\<And>d. d \<in> set issued \<Longrightarrow> json_ok pf (claims_of d)"
    and names: "\<And>d. d \<in> set issued \<Longrightarrow> code_points d" "code_points reg"
    and accepted: "verify pf reg = Inr f"
  shows "plain_identity reg \<in> plain_identity ` set issued \<and> f = pf_sha256 pf (re_proof reg)"
proof -
  obtain h c s header claims signature where sp: "split_max 2 (CHR ''.'') (re_proof reg) = [h, c, s]"
    and cl: "decode_object pf c = Inr claims" and f: "f = pf_sha256 pf (re_proof reg)"
    and v: "pf_verify pf (from_bytes_big (take 32 signature)) (from_bytes_big (drop 32 signature)) (h @ ''.'' @ c)"
    and ce: "claims_error claims reg = None"
    by (rule verify_accepts [OF accepted])
  from unforgeable [OF v] obtain d where d: "d \<in> set issued" and x: "h @ ''.'' @ c = signing_input pf d" by blast
  have "c = base64url_encode (pf_json_dumps pf (claims_of d))"
    using join_inj [of h "CHR ''.''" c] x split_two(1) [OF sp] encode_no_dot by (fastforce simp: signing_input_def)
  then have "claims = claims_of d"
    using cl json [OF d] by (simp add: decode_object_def decode_encode json_ok_def)
  with ce have "identity_items d = identity_items reg" by (simp add: claims_error_own)
  from identity_items_inj [OF this names(1) [OF d] names(2)] d f show ?thesis by (metis imageI)
qed

theorem certificate_authentic_witness:
  "plain_identity demo_registration \<in> plain_identity ` set [demo_claims]
   \<and> pf_sha256 demo_platform (issue demo_platform demo_claims) = pf_sha256 demo_platform (re_proof demo_registration)"
proof (rule certificate_authentic)
  fix r s x
  assume "pf_verify demo_platform r s x"
  then have "x = ''SA.Qw''" by (simp add: demo_platform_def)
  then show "\<exists>d \<in> set [demo_claims]. x = signing_input demo_platform d" by (simp add: demo_input)
next
  fix d
  assume "d \<in> set [demo_claims]"
  then show "json_ok demo_platform (claims_of d)" using demo_json(3) by simp
next
  show "code_points d" if "d \<in> set [demo_claims]" for d
    using that by (simp add: code_points_def demo_claims_def)
next
  show "code_points demo_registration"
    by (simp add: demo_registration_def code_points_def identity.defs demo_claims_def)
next
  show "verify demo_platform demo_registration = Inr (pf_sha256 demo_platform (issue demo_platform demo_claims))"
    by (rule verify_issued [OF demo_json(2,3) demo_signs]) simp_all
qed

end
