(* ===== verification/Sessions.thy ===== *)
theory Sessions
  imports Security
begin

text \<open>
  \<open>SessionRegistry\<close> of \<open>security.py\<close>: the pairing code and its rotation, the failed attempts
  of each network source and the lock after five of them, and the sessions a successful
  pairing creates.

  The object is the record \<open>sessions\<close>. Its two clocks, its generator of codes and
  \<open>secrets.token_bytes\<close> are readings: an operation takes the values it reads as arguments,
  one for every call the code makes, so they may differ between two reads of one operation.
  A monotonic reading is a double, given as the rational it stands for; sums with it are
  rounded as Python rounds them. \<open>isdigit\<close> is the Unicode property of a code point that
  \<open>str.isdigit\<close> looks up.
\<close>

section \<open>State\<close>

record client_session =
  cs_client :: string
  cs_digest :: string
  cs_key :: string
  cs_issued :: int
  cs_expires :: int

record pair_attempt =
  at_failures :: nat
  at_locked_until :: rat

definition new_attempt :: pair_attempt where
  "new_attempt = \<lparr>at_failures = 0, at_locked_until = 0\<rparr>"

record sessions =
  se_ttl_ms :: int
  se_code :: pytext
  se_code_expires :: rat
  se_attempts :: "(string, pair_attempt) dict"
  se_sessions :: "(string, client_session) dict"

definition PAIRING_LIFETIME_SECONDS :: int where "PAIRING_LIFETIME_SECONDS = 300"
definition LOCK_SECONDS :: int where "LOCK_SECONDS = 600"
definition MAX_FAILURES :: nat where "MAX_FAILURES = 5"

record pair_response =
  rp_client :: string
  rp_credential :: string
  rp_data_key :: string
  rp_issued :: int
  rp_expires :: int

section \<open>The pairing code\<close>

definition validate_pairing_code :: "(nat \<Rightarrow> bool) \<Rightarrow> pytext \<Rightarrow> py_exc + pytext" where
  "validate_pairing_code isdigit code =
     (if length code \<noteq> 6 \<or> \<not> (code \<noteq> [] \<and> list_all isdigit code) then Inl ValueError else Inr code)"

definition random_pairing_code :: "nat \<Rightarrow> pytext" where
  \<comment> \<open>\<open>f"{n:06d}"\<close> of the random number \<open>n\<close> below a million\<close>
  "random_pairing_code n = map (\<lambda>p. 48 + n div p mod 10) [100000, 10000, 1000, 100, 10, 1]"

fun try_codes :: "(nat \<Rightarrow> bool) \<Rightarrow> pytext option \<Rightarrow> pytext list \<Rightarrow> py_exc + pytext" where
  "try_codes isdigit previous [] = Inl RuntimeError"
| "try_codes isdigit previous (draw # draws) = (case validate_pairing_code isdigit draw of
       Inl x \<Rightarrow> Inl x
     | Inr candidate \<Rightarrow> if Some candidate \<noteq> previous then Inr candidate else try_codes isdigit previous draws)"

definition new_pairing_code :: "(nat \<Rightarrow> bool) \<Rightarrow> pytext option \<Rightarrow> (nat \<Rightarrow> pytext) \<Rightarrow> py_exc + pytext" where
  \<comment> \<open>\<open>draws n\<close> is the answer to the call number \<open>n\<close> of the factory\<close>
  "new_pairing_code isdigit previous draws = try_codes isdigit previous (map draws [0..<16])"

definition new_sessions ::
  "(nat \<Rightarrow> bool) \<Rightarrow> pytext option \<Rightarrow> int \<Rightarrow> (nat \<Rightarrow> pytext) \<Rightarrow> rat \<Rightarrow> py_exc + sessions" where
  "new_sessions isdigit initial_pairing_code credential_ttl_seconds draws clock =
     (if credential_ttl_seconds \<le> 0 then Inl ValueError
      else case (case initial_pairing_code of
             Some code \<Rightarrow> validate_pairing_code isdigit code | None \<Rightarrow> new_pairing_code isdigit None draws) of
        Inl x \<Rightarrow> Inl x
      | Inr code \<Rightarrow> Inr \<lparr>se_ttl_ms = credential_ttl_seconds * 1000, se_code = code,
          se_code_expires = fadd clock (of_int PAIRING_LIFETIME_SECONDS), se_attempts = [], se_sessions = []\<rparr>)"

definition rotate_pairing_code ::
  "(nat \<Rightarrow> bool) \<Rightarrow> (nat \<Rightarrow> pytext) \<Rightarrow> rat \<Rightarrow> sessions \<Rightarrow> (pytext, sessions) outcome" where
  "rotate_pairing_code isdigit draws clock s = (case new_pairing_code isdigit (Some (se_code s)) draws of
       Inl x \<Rightarrow> (Inl (Raised x), s)
     | Inr code \<Rightarrow> (Inr code, s\<lparr>se_code := code,
         se_code_expires := fadd clock (of_int PAIRING_LIFETIME_SECONDS)\<rparr>))"

definition rotate_if_expired ::
  "(nat \<Rightarrow> bool) \<Rightarrow> rat \<Rightarrow> (nat \<Rightarrow> pytext) \<Rightarrow> rat \<Rightarrow> sessions \<Rightarrow> (unit, sessions) outcome" where
  "rotate_if_expired isdigit now draws clock s =
     (if se_code_expires s \<le> now then (case rotate_pairing_code isdigit draws clock s of
          (Inl x, s') \<Rightarrow> (Inl x, s') | (Inr _, s') \<Rightarrow> (Inr (), s'))
      else (Inr (), s))"

definition pairing_code ::
  "(nat \<Rightarrow> bool) \<Rightarrow> rat \<Rightarrow> (nat \<Rightarrow> pytext) \<Rightarrow> rat \<Rightarrow> sessions \<Rightarrow> (pytext, sessions) outcome" where
  "pairing_code isdigit now draws clock s = (case rotate_if_expired isdigit now draws clock s of
       (Inl x, s') \<Rightarrow> (Inl x, s') | (Inr _, s') \<Rightarrow> (Inr (se_code s'), s'))"

definition pairing_expires_in :: "rat \<Rightarrow> sessions \<Rightarrow> int" where
  "pairing_expires_in clock s = max 0 (trunc (fsub (se_code_expires s) clock))"

section \<open>Pairing\<close>

record pair_readings =
  pr_now :: rat
  pr_draws :: "nat \<Rightarrow> pytext"
  pr_rotated :: rat
  pr_clock :: rat
  pr_credential :: string
  pr_key :: string
  pr_wall :: int
  pr_new_draws :: "nat \<Rightarrow> pytext"
  pr_new_rotated :: rat

definition rate_limited :: "pytext \<Rightarrow> int \<Rightarrow> exn" where
  "rate_limited m seconds = Gateway ((gw_status RATE_LIMITED m 429)\<lparr>err_retry := Some seconds\<rparr>)"

definition auth_failed :: "pytext \<Rightarrow> exn" where
  "auth_failed m = Gateway (gw_status AUTH_FAILED m 401)"

definition compare_digest :: "pytext \<Rightarrow> pytext \<Rightarrow> py_exc + bool" where
  \<comment> \<open>\<open>secrets.compare_digest\<close> takes strings only when both are ASCII\<close>
  "compare_digest a b = (if list_all (\<lambda>n. n < 128) a \<and> list_all (\<lambda>n. n < 128) b then Inr (a = b) else Inl TypeError)"

definition put_attempt :: "string \<Rightarrow> pair_attempt \<Rightarrow> sessions \<Rightarrow> sessions" where
  "put_attempt source a s = s\<lparr>se_attempts := dict_set source a (se_attempts s)\<rparr>"

definition attempt_of :: "sessions \<Rightarrow> string \<Rightarrow> pair_attempt" where
  "attempt_of s source = (case dict_get (se_attempts s) source of None \<Rightarrow> new_attempt | Some a \<Rightarrow> a)"

definition open_session ::
  "platform \<Rightarrow> (nat \<Rightarrow> bool) \<Rightarrow> pair_readings \<Rightarrow> string \<Rightarrow> sessions \<Rightarrow> (pair_response, sessions) outcome" where
  \<comment> \<open>the end of \<open>pair\<close>, from the draw of the credential\<close>
  "open_session pf isdigit rd client_id s =
     (let digest = pf_sha256 pf (pr_credential rd);
          issued_at = pr_wall rd;
          expires_at = issued_at + se_ttl_ms s;
          s1 = s\<lparr>se_sessions := dict_set digest
            \<lparr>cs_client = client_id, cs_digest = digest, cs_key = pr_key rd, cs_issued = issued_at, cs_expires = expires_at\<rparr>
            (se_sessions s)\<rparr>
      in case rotate_pairing_code isdigit (pr_new_draws rd) (pr_new_rotated rd) s1 of
           (Inl x, s2) \<Rightarrow> (Inl x, s2)
         | (Inr _, s2) \<Rightarrow> (Inr \<lparr>rp_client = client_id, rp_credential = base64url_encode (pr_credential rd),
             rp_data_key = base64url_encode (pr_key rd), rp_issued = issued_at, rp_expires = expires_at\<rparr>, s2))"

definition pair ::
  "platform \<Rightarrow> (nat \<Rightarrow> bool) \<Rightarrow> pair_readings \<Rightarrow> string \<Rightarrow> string \<Rightarrow> pytext \<Rightarrow> sessions \<Rightarrow> (pair_response, sessions) outcome" where
  "pair pf isdigit rd source client_id code s =
     (case rotate_if_expired isdigit (pr_now rd) (pr_draws rd) (pr_rotated rd) s of
        (Inl x, s') \<Rightarrow> (Inl x, s')
      | (Inr _, s') \<Rightarrow>
          (let attempt = attempt_of s' source; s1 = put_attempt source attempt s'; now = pr_clock rd in
           if now < at_locked_until attempt
             then (Inl (rate_limited m_pair_limited (max 1 (trunc (fsub (at_locked_until attempt) now)))), s1)
           else case compare_digest code (se_code s1) of
             Inl x \<Rightarrow> (Inl (Raised x), s1)
           | Inr False \<Rightarrow>
               if MAX_FAILURES \<le> at_failures attempt + 1
               then (Inl (rate_limited m_pair_locked LOCK_SECONDS),
                 put_attempt source \<lparr>at_failures = 0, at_locked_until = fadd now (of_int LOCK_SECONDS)\<rparr> s1)
               else (Inl (auth_failed m_pair_bad),
                 put_attempt source (attempt\<lparr>at_failures := at_failures attempt + 1\<rparr>) s1)
           | Inr True \<Rightarrow> open_session pf isdigit rd client_id (put_attempt source new_attempt s1)))"

section \<open>Sessions\<close>

definition revoke :: "string \<Rightarrow> sessions \<Rightarrow> sessions" where
  "revoke digest s = s\<lparr>se_sessions := dict_del digest (se_sessions s)\<rparr>"

definition authenticate :: "platform \<Rightarrow> int \<Rightarrow> string \<Rightarrow> sessions \<Rightarrow> (client_session, sessions) outcome" where
  \<comment> \<open>\<open>wall\<close> is the reading of the wall clock, in milliseconds\<close>
  "authenticate pf wall credential s = (case base64url_decode credential of
       None \<Rightarrow> (Inl (auth_failed m_cred_bad), s)
     | Some bytes \<Rightarrow>
         (let digest = pf_sha256 pf bytes in
          case dict_get (se_sessions s) digest of
            None \<Rightarrow> (Inl (auth_failed m_cred_unknown), s)
          | Some session \<Rightarrow>
              if cs_expires session \<le> wall then (Inl (auth_failed m_cred_expired), revoke digest s)
              else (Inr session, s)))"

definition remaining_seconds :: "int \<Rightarrow> client_session \<Rightarrow> rat" where
  "remaining_seconds wall session = max 0 (fdiv (of_int (cs_expires session - wall)) 1000)"

section \<open>Runs\<close>

datatype session_op =
    Pair pair_readings string string pytext
  | Authenticate int string
  | ShowCode rat "nat \<Rightarrow> pytext" rat

definition session_step :: "platform \<Rightarrow> (nat \<Rightarrow> bool) \<Rightarrow> session_op \<Rightarrow> sessions \<Rightarrow> sessions" where
  "session_step pf isdigit x s = (case x of
       Pair rd source client code \<Rightarrow> snd (pair pf isdigit rd source client code s)
     | Authenticate wall credential \<Rightarrow> snd (authenticate pf wall credential s)
     | ShowCode now draws clock \<Rightarrow> snd (pairing_code isdigit now draws clock s))"

definition session_run :: "platform \<Rightarrow> (nat \<Rightarrow> bool) \<Rightarrow> session_op list \<Rightarrow> sessions \<Rightarrow> sessions" where
  "session_run pf isdigit xs s = fold (session_step pf isdigit) xs s"

section \<open>What one operation does\<close>

lemma attempt_of_put [simp]: "attempt_of (put_attempt source a s) = (attempt_of s)(source := a)"
  by (auto simp: attempt_of_def put_attempt_def dict_simps)

lemma put_attempt_sel [simp]:
  "se_code (put_attempt source a s) = se_code s" "se_code_expires (put_attempt source a s) = se_code_expires s"
  "se_sessions (put_attempt source a s) = se_sessions s" "se_ttl_ms (put_attempt source a s) = se_ttl_ms s"
  by (simp_all add: put_attempt_def)

lemma try_codes_fresh: "try_codes isdigit previous draws = Inr code \<Longrightarrow> Some code \<noteq> previous"
  by (induction draws) (auto split: sum.split_asm if_split_asm)

lemma try_codes_digits: "try_codes isdigit previous draws = Inr code \<Longrightarrow> length code = 6 \<and> list_all isdigit code"
  by (induction draws) (auto simp: validate_pairing_code_def split: sum.split_asm if_split_asm)

lemma rotate_cases:
  assumes "rotate_pairing_code isdigit draws clock s = (r, s')"
  obtains x where "r = Inl (Raised x)" "s' = s"
  | code where "r = Inr code" "code \<noteq> se_code s"
      "s' = s\<lparr>se_code := code, se_code_expires := fadd clock (of_int PAIRING_LIFETIME_SECONDS)\<rparr>"
proof (cases "new_pairing_code isdigit (Some (se_code s)) draws")
  case (Inl x)
  then have "r = Inl (Raised x)" "s' = s" using assms by (simp_all add: rotate_pairing_code_def)
  then show ?thesis by (rule that(1))
next
  case (Inr code)
  have "code \<noteq> se_code s" using try_codes_fresh [of isdigit "Some (se_code s)"] Inr by (auto simp: new_pairing_code_def)
  moreover have "r = Inr code" "s' = s\<lparr>se_code := code, se_code_expires := fadd clock (of_int PAIRING_LIFETIME_SECONDS)\<rparr>"
    using assms Inr by (simp_all add: rotate_pairing_code_def)
  ultimately show ?thesis by (intro that(2))
qed

lemma rotate_if_expired_cases:
  assumes "rotate_if_expired isdigit now draws clock s = (r, s')"
  obtains x where "se_code_expires s \<le> now" "r = Inl (Raised x)" "s' = s"
  | code where "se_code_expires s \<le> now" "r = Inr ()" "code \<noteq> se_code s"
      "s' = s\<lparr>se_code := code, se_code_expires := fadd clock (of_int PAIRING_LIFETIME_SECONDS)\<rparr>"
  | "now < se_code_expires s" "r = Inr ()" "s' = s"
proof (cases "se_code_expires s \<le> now")
  case False
  then have "r = Inr ()" "s' = s" using assms by (simp_all add: rotate_if_expired_def)
  with False show ?thesis by (intro that(3)) simp_all
next
  case True
  obtain q t where q: "rotate_pairing_code isdigit draws clock s = (q, t)"
    by (cases "rotate_pairing_code isdigit draws clock s")
  then have st: "s' = t" "r = (case q of Inl x \<Rightarrow> Inl x | Inr _ \<Rightarrow> Inr ())"
    using assms True by (auto simp: rotate_if_expired_def split: sum.split_asm)
  from q show ?thesis
  proof (cases rule: rotate_cases)
    case (1 x)
    show ?thesis by (rule that(1) [OF True]) (simp_all add: st 1)
  next
    case (2 code)
    show ?thesis by (rule that(2) [OF True _ 2(2)]) (simp_all add: st 2)
  qed
qed

text \<open>Only the pairing code is touched by rotation.\<close>

lemma rotated_parts:
  assumes "rotate_if_expired isdigit now draws clock s = (r, s')"
  shows "se_attempts s' = se_attempts s" "se_sessions s' = se_sessions s" "se_ttl_ms s' = se_ttl_ms s"
    "attempt_of s' = attempt_of s"
proof -
  have "se_attempts s' = se_attempts s \<and> se_sessions s' = se_sessions s \<and> se_ttl_ms s' = se_ttl_ms s"
    using assms by (cases rule: rotate_if_expired_cases) simp_all
  then show "se_attempts s' = se_attempts s" "se_sessions s' = se_sessions s" "se_ttl_ms s' = se_ttl_ms s"
    "attempt_of s' = attempt_of s" by (simp_all add: attempt_of_def fun_eq_iff)
qed

definition session_opened :: "platform \<Rightarrow> pair_readings \<Rightarrow> string \<Rightarrow> int \<Rightarrow> client_session" where
  "session_opened pf rd client ttl = \<lparr>cs_client = client, cs_digest = pf_sha256 pf (pr_credential rd),
     cs_key = pr_key rd, cs_issued = pr_wall rd, cs_expires = pr_wall rd + ttl\<rparr>"

definition response_of :: "pair_readings \<Rightarrow> string \<Rightarrow> int \<Rightarrow> pair_response" where
  "response_of rd client ttl = \<lparr>rp_client = client, rp_credential = base64url_encode (pr_credential rd),
     rp_data_key = base64url_encode (pr_key rd), rp_issued = pr_wall rd, rp_expires = pr_wall rd + ttl\<rparr>"

lemma open_session_cases:
  assumes "open_session pf isdigit rd client s = (r, s')"
  shows "attempt_of s' = attempt_of s" "se_ttl_ms s' = se_ttl_ms s"
    "se_sessions s' = dict_set (pf_sha256 pf (pr_credential rd)) (session_opened pf rd client (se_ttl_ms s)) (se_sessions s)"
    "(\<exists>x. r = Inl (Raised x)) \<or> r = Inr (response_of rd client (se_ttl_ms s)) \<and> se_code s' \<noteq> se_code s
      \<and> se_code_expires s' = fadd (pr_new_rotated rd) (of_int PAIRING_LIFETIME_SECONDS)"
proof -
  let ?s1 = "s\<lparr>se_sessions := dict_set (pf_sha256 pf (pr_credential rd)) (session_opened pf rd client (se_ttl_ms s)) (se_sessions s)\<rparr>"
  obtain q t where q: "rotate_pairing_code isdigit (pr_new_draws rd) (pr_new_rotated rd) ?s1 = (q, t)"
    by (cases "rotate_pairing_code isdigit (pr_new_draws rd) (pr_new_rotated rd) ?s1")
  have st: "s' = t" "r = (case q of Inl x \<Rightarrow> Inl x | Inr _ \<Rightarrow> Inr (response_of rd client (se_ttl_ms s)))"
    using assms q by (auto simp: open_session_def Let_def session_opened_def response_of_def split: sum.split_asm)
  have "se_attempts s' = se_attempts s \<and> se_ttl_ms s' = se_ttl_ms s
     \<and> se_sessions s' = dict_set (pf_sha256 pf (pr_credential rd)) (session_opened pf rd client (se_ttl_ms s)) (se_sessions s)
     \<and> ((\<exists>x. r = Inl (Raised x)) \<or> r = Inr (response_of rd client (se_ttl_ms s)) \<and> se_code s' \<noteq> se_code s
       \<and> se_code_expires s' = fadd (pr_new_rotated rd) (of_int PAIRING_LIFETIME_SECONDS))"
    using q by (cases rule: rotate_cases) (simp_all add: st)
  then show "attempt_of s' = attempt_of s" "se_ttl_ms s' = se_ttl_ms s"
    "se_sessions s' = dict_set (pf_sha256 pf (pr_credential rd)) (session_opened pf rd client (se_ttl_ms s)) (se_sessions s)"
    "(\<exists>x. r = Inl (Raised x)) \<or> r = Inr (response_of rd client (se_ttl_ms s)) \<and> se_code s' \<noteq> se_code s
      \<and> se_code_expires s' = fadd (pr_new_rotated rd) (of_int PAIRING_LIFETIME_SECONDS)"
    by (simp_all add: attempt_of_def fun_eq_iff)
qed

definition compared :: "exn + pair_response \<Rightarrow> bool" where
  \<comment> \<open>the guess was looked at: it was answered with a success, a refusal, or the lock it causes\<close>
  "compared r \<longleftrightarrow> (\<exists>p. r = Inr p) \<or> r = Inl (auth_failed m_pair_bad) \<or> r = Inl (rate_limited m_pair_locked LOCK_SECONDS)"

lemma compared_simps [simp]:
  "compared (Inr p)" "\<not> compared (Inl (Raised x))" "compared (Inl (auth_failed m_pair_bad))"
  "compared (Inl (rate_limited m_pair_locked LOCK_SECONDS))" "\<not> compared (Inl (rate_limited m_pair_limited n))"
  by (simp_all add: compared_def auth_failed_def rate_limited_def m_pair_limited_def m_pair_locked_def
      RATE_LIMITED_def AUTH_FAILED_def gw_status_def gw_def)

text \<open>The four ways a pairing ends, seen from the attempts and the sessions.\<close>

lemma pair_cases:
  assumes "pair pf isdigit rd source client code s = (r, s')"
  obtains (refused) "attempt_of s' = attempt_of s" "se_sessions s' = se_sessions s" "se_ttl_ms s' = se_ttl_ms s"
      "\<not> compared r" "\<exists>e. r = Inl e"
  | (locked) "r = Inl (rate_limited m_pair_locked LOCK_SECONDS)" "\<not> pr_clock rd < at_locked_until (attempt_of s source)"
      "MAX_FAILURES \<le> at_failures (attempt_of s source) + 1" "se_sessions s' = se_sessions s" "se_ttl_ms s' = se_ttl_ms s"
      "attempt_of s' = (attempt_of s)(source := \<lparr>at_failures = 0, at_locked_until = fadd (pr_clock rd) (of_int LOCK_SECONDS)\<rparr>)"
  | (wrong) "r = Inl (auth_failed m_pair_bad)" "\<not> pr_clock rd < at_locked_until (attempt_of s source)"
      "\<not> MAX_FAILURES \<le> at_failures (attempt_of s source) + 1" "se_sessions s' = se_sessions s" "se_ttl_ms s' = se_ttl_ms s"
      "attempt_of s' = (attempt_of s)(source := (attempt_of s source)\<lparr>at_failures := at_failures (attempt_of s source) + 1\<rparr>)"
  | (right) s1 s2 where "rotate_if_expired isdigit (pr_now rd) (pr_draws rd) (pr_rotated rd) s = (Inr (), s1)"
      "code = se_code s1" "attempt_of s2 = (attempt_of s)(source := new_attempt)" "se_sessions s2 = se_sessions s"
      "se_ttl_ms s2 = se_ttl_ms s" "se_code s2 = se_code s1" "open_session pf isdigit rd client s2 = (r, s')"
proof -
  obtain q s1 where rot: "rotate_if_expired isdigit (pr_now rd) (pr_draws rd) (pr_rotated rd) s = (q, s1)"
    by (cases "rotate_if_expired isdigit (pr_now rd) (pr_draws rd) (pr_rotated rd) s")
  note parts = rotated_parts [OF rot]
  show ?thesis
  proof (cases q)
    case (Inl e)
    with rot obtain x where "q = Inl (Raised x)" by (cases rule: rotate_if_expired_cases) auto
    with rot assms parts show ?thesis by (intro refused) (auto simp: pair_def)
  next
    case (Inr u)
    then have rot': "rotate_if_expired isdigit (pr_now rd) (pr_draws rd) (pr_rotated rd) s = (Inr (), s1)"
      using rot by simp
    let ?a = "attempt_of s source"
    let ?s1 = "put_attempt source ?a s1"
    show ?thesis
    proof (cases "pr_clock rd < at_locked_until ?a")
      case True
      with rot' assms parts show ?thesis by (intro refused) (auto simp: pair_def Let_def)
    next
      case now: False
      show ?thesis
      proof (cases "compare_digest code (se_code s1)")
        case (Inl x)
        then have "x = TypeError" by (auto simp: compare_digest_def split: if_split_asm)
        with Inl rot' assms parts now show ?thesis by (intro refused) (auto simp: pair_def Let_def)
      next
        case (Inr eq)
        then have c: "eq \<longleftrightarrow> code = se_code s1" by (auto simp: compare_digest_def split: if_split_asm)
        show ?thesis
        proof (cases eq)
          case True
          with rot' assms parts now Inr c show ?thesis
            by (intro right [of s1 "put_attempt source new_attempt ?s1"]) (auto simp: pair_def Let_def)
        next
          case False
          show ?thesis
          proof (cases "MAX_FAILURES \<le> at_failures ?a + 1")
            case True
            with rot' assms parts now Inr False show ?thesis by (intro locked) (auto simp: pair_def Let_def)
          next
            case f: False
            with rot' assms parts now Inr False show ?thesis by (intro wrong) (auto simp: pair_def Let_def)
          qed
        qed
      qed
    qed
  qed
qed

lemma authenticate_cases:
  assumes "authenticate pf wall credential s = (r, s')"
  shows "attempt_of s' = attempt_of s" "se_ttl_ms s' = se_ttl_ms s" "se_code s' = se_code s"
    "s' = s \<or> (\<exists>bytes c. base64url_decode credential = Some bytes \<and> dict_get (se_sessions s) (pf_sha256 pf bytes) = Some c
       \<and> cs_expires c \<le> wall \<and> s' = revoke (pf_sha256 pf bytes) s)"
proof -
  show d: "s' = s \<or> (\<exists>bytes c. base64url_decode credential = Some bytes \<and> dict_get (se_sessions s) (pf_sha256 pf bytes) = Some c
       \<and> cs_expires c \<le> wall \<and> s' = revoke (pf_sha256 pf bytes) s)"
    using assms by (auto simp: authenticate_def Let_def split: option.split_asm if_split_asm)
  then show "attempt_of s' = attempt_of s" "se_ttl_ms s' = se_ttl_ms s" "se_code s' = se_code s"
    by (auto simp: revoke_def attempt_of_def fun_eq_iff)
qed

lemma show_code_parts:
  assumes "pairing_code isdigit now draws clock s = (r, s')"
  shows "se_sessions s' = se_sessions s" "se_ttl_ms s' = se_ttl_ms s" "attempt_of s' = attempt_of s"
proof -
  obtain q where "rotate_if_expired isdigit now draws clock s = (q, s')"
    using assms by (auto simp: pairing_code_def split: prod.split_asm sum.split_asm)
  from rotated_parts [OF this]
  show "se_sessions s' = se_sessions s" "se_ttl_ms s' = se_ttl_ms s" "attempt_of s' = attempt_of s" by simp_all
qed

section \<open>Guessing the code\<close>

fun pair_results ::
  "platform \<Rightarrow> (nat \<Rightarrow> bool) \<Rightarrow> session_op list \<Rightarrow> sessions \<Rightarrow> (string \<times> (exn + pair_response)) list" where
  \<comment> \<open>who tried to pair in a run, and the answers\<close>
  "pair_results pf isdigit [] s = []"
| "pair_results pf isdigit (x # xs) s = (case x of
       Pair rd source client code \<Rightarrow> (source, fst (pair pf isdigit rd source client code s)) #
         pair_results pf isdigit xs (session_step pf isdigit x s)
     | _ \<Rightarrow> pair_results pf isdigit xs (session_step pf isdigit x s))"

definition guesses :: "string \<Rightarrow> (string \<times> (exn + pair_response)) list \<Rightarrow> nat" where
  "guesses source results = length (filter (\<lambda>(who, r). who = source \<and> compared r) results)"

definition op_time :: "session_op \<Rightarrow> rat option" where
  "op_time x = (case x of Pair rd _ _ _ \<Rightarrow> Some (pr_clock rd) | _ \<Rightarrow> None)"

definition attempts_ok :: "sessions \<Rightarrow> bool" where
  "attempts_ok s \<longleftrightarrow> (\<forall>source. at_failures (attempt_of s source) < MAX_FAILURES)"

definition budget :: "rat \<Rightarrow> sessions \<Rightarrow> string \<Rightarrow> nat" where
  \<comment> \<open>the guesses a source still has before the time \<open>t\<close>\<close>
  "budget t s source = (if t < at_locked_until (attempt_of s source) then 0
     else MAX_FAILURES - at_failures (attempt_of s source))"

lemma random_code_valid:
  "(\<And>d. 48 \<le> d \<Longrightarrow> d \<le> 57 \<Longrightarrow> isdigit d) \<Longrightarrow> validate_pairing_code isdigit (random_pairing_code n) = Inr (random_pairing_code n)"
proof -
  assume d: "\<And>d. 48 \<le> d \<Longrightarrow> d \<le> 57 \<Longrightarrow> isdigit d"
  have "isdigit (48 + k mod 10)" for k :: nat using d [of "48 + k mod 10"] by simp
  then show ?thesis by (simp add: validate_pairing_code_def random_pairing_code_def)
qed

lemma new_sessions_ok: "new_sessions isdigit initial ttl draws clock = Inr s \<Longrightarrow> attempts_ok s"
  by (auto simp: new_sessions_def attempts_ok_def attempt_of_def new_attempt_def MAX_FAILURES_def split: if_split_asm sum.split_asm)

lemma step_attempts_ok: "attempts_ok s \<Longrightarrow> attempts_ok (session_step pf isdigit x s)"
proof (cases x)
  case (Pair rd source client code)
  assume ok: "attempts_ok s"
  obtain r s' where p: "pair pf isdigit rd source client code s = (r, s')" by (cases "pair pf isdigit rd source client code s")
  from p have "attempts_ok s'"
  proof (cases rule: pair_cases)
    case (right s1 s2)
    with ok open_session_cases(1) [OF right(7)] show ?thesis by (simp add: attempts_ok_def new_attempt_def MAX_FAILURES_def)
  qed (use ok in \<open>auto simp: attempts_ok_def MAX_FAILURES_def\<close>)
  with p Pair show ?thesis by (simp add: session_step_def)
next
  case (Authenticate wall credential)
  then show "attempts_ok s \<Longrightarrow> ?thesis"
    using authenticate_cases(1) [of pf wall credential s] by (simp add: session_step_def attempts_ok_def prod_eq_iff)
next
  case (ShowCode now draws clock)
  then show "attempts_ok s \<Longrightarrow> ?thesis"
    using show_code_parts(3) [of isdigit now draws clock s] by (simp add: session_step_def attempts_ok_def prod_eq_iff)
qed

lemma run_attempts_ok: "attempts_ok s \<Longrightarrow> attempts_ok (session_run pf isdigit xs s)"
  by (induction xs arbitrary: s) (simp_all add: session_run_def step_attempts_ok)

lemma lock_outlasts:
  assumes "0 \<le> a" "a < 2 ^ 50" "a \<le> now" "now \<le> a + 599" "t \<le> a + 599"
  shows "t < fadd now (of_int LOCK_SECONDS)"
proof -
  have "of_int (\<lfloor>a\<rfloor> + 600) \<le> fl (a + 600)"
  proof (rule order_trans)
    have b: "\<bar>\<lfloor>a\<rfloor> + 600\<bar> < 2 ^ 53"
    proof -
      have "\<lfloor>a\<rfloor> < 2 ^ 50" using assms(2) by (simp add: floor_less_iff)
      moreover have "0 \<le> \<lfloor>a\<rfloor>" using assms(1) by simp
      ultimately show ?thesis by simp
    qed
    show "of_int (\<lfloor>a\<rfloor> + 600) \<le> fl (of_int (\<lfloor>a\<rfloor> + 600))" using fl_int [OF b] by simp
    show "fl (of_int (\<lfloor>a\<rfloor> + 600)) \<le> fl (a + 600)" by (rule fl_mono) simp
  qed
  also have "fl (a + 600) \<le> fl (now + 600)" using assms(3) by (intro fl_mono) simp
  finally have "of_int \<lfloor>a\<rfloor> + 600 \<le> fadd now (of_int LOCK_SECONDS)" by (simp add: fadd_def LOCK_SECONDS_def)
  moreover have "a < of_int \<lfloor>a\<rfloor> + 1" by linarith
  ultimately show ?thesis using assms(5) by linarith
qed

lemma try_codes_no_type: "try_codes isdigit previous draws \<noteq> Inl TypeError"
  by (induction draws) (auto simp: validate_pairing_code_def split: sum.split)

lemma open_session_no_type: "fst (open_session pf isdigit rd client s) \<noteq> Inl (Raised TypeError)"
  by (auto simp: open_session_def rotate_pairing_code_def new_pairing_code_def try_codes_no_type Let_def
      split: sum.split)

lemma budget_step:
  assumes ok: "attempts_ok s" and window: "0 \<le> a" "a < 2 ^ 50"
    and time: "\<And>now. op_time x = Some now \<Longrightarrow> a \<le> now \<and> now \<le> a + 599"
    and refused: "\<And>r. (source, r) \<in> set (pair_results pf isdigit [x] s) \<Longrightarrow> \<exists>e. r = Inl (Gateway e) \<or> r = Inl (Raised TypeError)"
  shows "guesses source (pair_results pf isdigit [x] s) + budget (a + 599) (session_step pf isdigit x s) source
     \<le> budget (a + 599) s source"
proof (cases x)
  case (Pair rd who client code)
  obtain r s' where p: "pair pf isdigit rd who client code s = (r, s')" by (cases "pair pf isdigit rd who client code s")
  have res: "pair_results pf isdigit [x] s = [(who, r)]" "session_step pf isdigit x s = s'"
    using Pair p by (simp_all add: session_step_def)
  have now: "a \<le> pr_clock rd" "pr_clock rd \<le> a + 599" using time Pair by (simp_all add: op_time_def)
  note lock = lock_outlasts [OF window now order_refl]
  have f: "at_failures (attempt_of s source) < MAX_FAILURES" using ok by (simp add: attempts_ok_def)
  have g: "guesses source (pair_results pf isdigit [x] s) = (if who = source \<and> compared r then 1 else 0)"
    unfolding res guesses_def by simp
  from p show ?thesis
  proof (cases rule: pair_cases)
    case refused
    then show ?thesis unfolding g unfolding res by (simp add: budget_def)
  next
    case locked
    then show ?thesis unfolding g unfolding res using lock now f by (auto simp: budget_def)
  next
    case wrong
    then show ?thesis unfolding g unfolding res using now f by (auto simp: budget_def)
  next
    case (right s1 s2)
    show ?thesis
    proof (cases "who = source")
      case False
      then show ?thesis unfolding g unfolding res using open_session_cases(1) [OF right(7)] right(3) by (simp add: budget_def)
    next
      case True
      with refused res(1) obtain e where "r = Inl (Gateway e) \<or> r = Inl (Raised TypeError)" by auto
      moreover have "r \<noteq> Inl (Gateway e)" using open_session_cases(4) [OF right(7)] by auto
      ultimately have "r = Inl (Raised TypeError)" by simp
      then show ?thesis using open_session_no_type [of pf isdigit rd client s2] right(7) by simp
    qed
  qed
next
  case (Authenticate wall credential)
  then show ?thesis using authenticate_cases(1) [of pf wall credential s]
    by (simp add: guesses_def session_step_def budget_def prod_eq_iff)
next
  case (ShowCode now draws clock)
  then show ?thesis using show_code_parts(3) [of isdigit now draws clock s]
    by (simp add: guesses_def session_step_def budget_def prod_eq_iff)
qed

lemma pair_results_Cons:
  "pair_results pf isdigit (x # xs) s = pair_results pf isdigit [x] s @ pair_results pf isdigit xs (session_step pf isdigit x s)"
  by (cases x) simp_all

lemma budget_run:
  assumes "attempts_ok s" and window: "0 \<le> a" "a < 2 ^ 50"
    and "\<And>x now. x \<in> set xs \<Longrightarrow> op_time x = Some now \<Longrightarrow> a \<le> now \<and> now \<le> a + 599"
    and "\<And>r. (source, r) \<in> set (pair_results pf isdigit xs s) \<Longrightarrow> \<exists>e. r = Inl (Gateway e) \<or> r = Inl (Raised TypeError)"
  shows "guesses source (pair_results pf isdigit xs s) \<le> budget (a + 599) s source"
  using assms(1,4,5)
proof (induction xs arbitrary: s)
  case Nil
  then show ?case by (simp add: guesses_def)
next
  case (Cons x xs)
  let ?s = "session_step pf isdigit x s"
  have mem: "(source, r) \<in> set (pair_results pf isdigit [x] s) \<or> (source, r) \<in> set (pair_results pf isdigit xs ?s)
      \<Longrightarrow> (source, r) \<in> set (pair_results pf isdigit (x # xs) s)" for r
    by (subst pair_results_Cons) auto
  have "guesses source (pair_results pf isdigit [x] s) + budget (a + 599) ?s source \<le> budget (a + 599) s source"
    by (rule budget_step [OF Cons.prems(1) window]) (use Cons.prems(2,3) mem in auto)
  moreover have "guesses source (pair_results pf isdigit xs ?s) \<le> budget (a + 599) ?s source"
    by (rule Cons.IH [OF step_attempts_ok [OF Cons.prems(1)]]) (use Cons.prems(2,3) mem in auto)
  ultimately show ?case by (subst pair_results_Cons) (simp add: guesses_def)
qed

text \<open>C7: a network source cannot guess the pairing code. In any run of the session registry,
after any history and with other sources, credentials and code displays interleaved at
will, at most five guesses of one source are compared with the code in any window of 599
seconds, as long as none of them is right; all its other attempts are turned away unread.
The lock is a rounded sum of doubles, which is why the window is a second shorter than
the lock.\<close>

theorem guess_bound:
  assumes "new_sessions isdigit initial ttl draws clock = Inr s0"
    and "0 \<le> a" "a < 2 ^ 50"
    and "\<And>x now. x \<in> set xs \<Longrightarrow> op_time x = Some now \<Longrightarrow> a \<le> now \<and> now \<le> a + 599"
    and "\<And>r. (source, r) \<in> set (pair_results pf isdigit xs (session_run pf isdigit earlier s0))
       \<Longrightarrow> \<exists>e. r = Inl (Gateway e) \<or> r = Inl (Raised TypeError)"
  shows "guesses source (pair_results pf isdigit xs (session_run pf isdigit earlier s0)) \<le> 5"
proof -
  have "guesses source (pair_results pf isdigit xs (session_run pf isdigit earlier s0))
     \<le> budget (a + 599) (session_run pf isdigit earlier s0) source"
    by (rule budget_run [OF run_attempts_ok [OF new_sessions_ok [OF assms(1)]] assms(2-5)])
  also have "\<dots> \<le> 5" by (simp add: budget_def MAX_FAILURES_def)
  finally show ?thesis .
qed

definition ascii_digit :: "nat \<Rightarrow> bool" where
  "ascii_digit n \<longleftrightarrow> 48 \<le> n \<and> n \<le> 57"

definition demo_readings :: "rat \<Rightarrow> pair_readings" where
  \<comment> \<open>the readings of a pairing at the monotonic time \<open>t\<close>; the next code is 111111 or 222222\<close>
  "demo_readings t = \<lparr>pr_now = t, pr_draws = (\<lambda>n. replicate 6 (49 + n mod 2)), pr_rotated = t, pr_clock = t,
     pr_credential = ''0123456789abcdef'', pr_key = ''key'', pr_wall = 1000,
     pr_new_draws = (\<lambda>n. replicate 6 (49 + n mod 2)), pr_new_rotated = t\<rparr>"

definition demo_sessions :: sessions where
  "demo_sessions = \<lparr>se_ttl_ms = 60000, se_code = replicate 6 48, se_code_expires = 300, se_attempts = [], se_sessions = []\<rparr>"

lemma demo_new: "new_sessions ascii_digit (Some (replicate 6 48)) 60 (\<lambda>n. []) 0 = Inr demo_sessions"
proof -
  have "fadd 0 300 = 300" using fl_int [of 300] by (simp add: fadd_def)
  then show ?thesis
    by (simp add: new_sessions_def validate_pairing_code_def ascii_digit_def demo_sessions_def PAIRING_LIFETIME_SECONDS_def
        list_all_iff)
qed

lemma demo_wrong:
  assumes "se_code s = replicate 6 48" "se_code_expires s = 300"
  shows "\<exists>e s'. pair pf isdigit (demo_readings 1) who client (replicate 6 57) s = (Inl (Gateway e), s')
    \<and> se_code s' = replicate 6 48 \<and> se_code_expires s' = 300"
  using assms
  by (simp add: pair_def rotate_if_expired_def demo_readings_def compare_digest_def Let_def rate_limited_def auth_failed_def
      numeral_eq_Suc)

lemma demo_wrong_run:
  assumes "se_code s = replicate 6 48" "se_code_expires s = 300"
    and "(who, r) \<in> set (pair_results pf isdigit (replicate n (Pair (demo_readings 1) who client (replicate 6 57))) s)"
  shows "\<exists>e. r = Inl (Gateway e)"
  using assms
proof (induction n arbitrary: s)
  case (Suc n)
  from demo_wrong [OF Suc.prems(1,2), of pf isdigit who client] obtain e s'
    where p: "pair pf isdigit (demo_readings 1) who client (replicate 6 57) s = (Inl (Gateway e), s')"
      and s': "se_code s' = replicate 6 48" "se_code_expires s' = 300" by blast
  from Suc.prems(3) p have "r = Inl (Gateway e) \<or>
      (who, r) \<in> set (pair_results pf isdigit (replicate n (Pair (demo_readings 1) who client (replicate 6 57))) s')"
    by (auto simp: session_step_def)
  with Suc.IH [OF s'] show ?case by blast
qed simp

theorem guess_bound_witness:
  "guesses ''home'' (pair_results demo_platform ascii_digit (replicate 7 (Pair (demo_readings 1) ''home'' ''app'' (replicate 6 57)))
     (session_run demo_platform ascii_digit [] demo_sessions)) \<le> 5"
proof (rule guess_bound [OF demo_new, of 0])
  fix x now
  assume "x \<in> set (replicate 7 (Pair (demo_readings 1) ''home'' ''app'' (replicate 6 57)))" "op_time x = Some now"
  then show "0 \<le> now \<and> now \<le> 0 + 599" by (auto simp: op_time_def demo_readings_def)
next
  fix r
  assume "(''home'', r) \<in> set (pair_results demo_platform ascii_digit (replicate 7 (Pair (demo_readings 1) ''home'' ''app'' (replicate 6 57)))
     (session_run demo_platform ascii_digit [] demo_sessions))"
  then have "(''home'', r) \<in> set (pair_results demo_platform ascii_digit
     (replicate 7 (Pair (demo_readings 1) ''home'' ''app'' (replicate 6 57))) demo_sessions)"
    unfolding session_run_def fold_simps by simp
  from demo_wrong_run [OF _ _ this] show "\<exists>e. r = Inl (Gateway e) \<or> r = Inl (Raised TypeError)"
    unfolding demo_sessions_def sessions.select_convs by blast
qed simp_all

section \<open>A code is used once, and only while it is shown\<close>

lemma pair_success:
  assumes "pair pf isdigit rd source client code s = (Inr resp, s')"
  obtains s1 where "rotate_if_expired isdigit (pr_now rd) (pr_draws rd) (pr_rotated rd) s = (Inr (), s1)"
    "code = se_code s1" "resp = response_of rd client (se_ttl_ms s)" "se_code s' \<noteq> code"
    "se_code_expires s' = fadd (pr_new_rotated rd) (of_int PAIRING_LIFETIME_SECONDS)" "se_ttl_ms s' = se_ttl_ms s"
    "se_sessions s' = dict_set (pf_sha256 pf (pr_credential rd)) (session_opened pf rd client (se_ttl_ms s)) (se_sessions s)"
  using assms
proof (cases rule: pair_cases)
  case (right s1 s2)
  note op = open_session_cases [OF right(7)]
  show ?thesis
    by (rule that [OF right(1,2)]) (use op right(2,4,5,6) in auto)
qed simp_all

text \<open>C19: a pairing code works once and only while it is valid. A pairing succeeds only with the
code in force: the displayed one before its expiry, and after the expiry a new code, never
the displayed one. The success puts another code in force, for 300 seconds, and until then
no pairing with the used code succeeds, whoever tries.\<close>

theorem pairing_code_once:
  assumes "pair pf isdigit rd source client code s = (Inr resp, s')"
  shows "(if se_code_expires s \<le> pr_now rd then code \<noteq> se_code s else code = se_code s)
    \<and> se_code s' \<noteq> code \<and> se_code_expires s' = fadd (pr_new_rotated rd) 300
    \<and> (pr_now rd' < se_code_expires s' \<longrightarrow> (\<exists>e. fst (pair pf isdigit rd' source' client' code s') = Inl e))"
proof -
  obtain s1 where rot: "rotate_if_expired isdigit (pr_now rd) (pr_draws rd) (pr_rotated rd) s = (Inr (), s1)"
    and c: "code = se_code s1" "se_code s' \<noteq> code"
    and x: "se_code_expires s' = fadd (pr_new_rotated rd) (of_int PAIRING_LIFETIME_SECONDS)"
    by (rule pair_success [OF assms]) blast
  from rot have "if se_code_expires s \<le> pr_now rd then code \<noteq> se_code s else code = se_code s"
    by (cases rule: rotate_if_expired_cases) (simp_all add: c(1))
  moreover have "\<exists>e. fst (pair pf isdigit rd' source' client' code s') = Inl e" if now: "pr_now rd' < se_code_expires s'"
  proof (cases "pair pf isdigit rd' source' client' code s'")
    case (Pair r t)
    have "r \<noteq> Inr p" for p
    proof
      assume "r = Inr p"
      with Pair obtain s2 where "rotate_if_expired isdigit (pr_now rd') (pr_draws rd') (pr_rotated rd') s' = (Inr (), s2)"
        "code = se_code s2" by (auto elim: pair_success)
      with now c(2) show False by (auto simp: rotate_if_expired_def)
    qed
    with Pair show ?thesis by (cases r) auto
  qed
  ultimately show ?thesis using c x by (simp add: PAIRING_LIFETIME_SECONDS_def)
qed

lemma demo_pair:
  "\<exists>s'. pair demo_platform ascii_digit (demo_readings 1) ''home'' ''app'' (replicate 6 48) demo_sessions
     = (Inr (response_of (demo_readings 1) ''app'' 60000), s') \<and> se_code_expires s' = fadd 1 300"
proof -
  have m: "map (\<lambda>n. replicate 6 (49 + n mod 2)) [0..<16] = replicate 6 49 # map (\<lambda>n. replicate 6 (49 + n mod 2)) [1..<16]"
    by (subst upt_conv_Cons) simp_all
  have n: "new_pairing_code ascii_digit (Some (replicate 6 48)) (\<lambda>n. replicate 6 (49 + n mod 2)) = Inr (replicate 6 49)"
    unfolding new_pairing_code_def m by (simp add: validate_pairing_code_def ascii_digit_def numeral_eq_Suc)
  have c: "compare_digest (replicate 6 48) (replicate 6 48) = Inr True" by (simp add: compare_digest_def list_all_iff)
  have a: "attempt_of demo_sessions ''home'' = new_attempt" by (simp add: attempt_of_def demo_sessions_def)
  show ?thesis
    by (simp add: pair_def rotate_if_expired_def demo_readings_def demo_sessions_def Let_def open_session_def
        rotate_pairing_code_def n c a [unfolded demo_sessions_def] new_attempt_def put_attempt_def response_of_def
        PAIRING_LIFETIME_SECONDS_def)
qed

theorem pairing_code_once_witness:
  "\<exists>s'. pair demo_platform ascii_digit (demo_readings 1) ''home'' ''app'' (replicate 6 48) demo_sessions
     = (Inr (response_of (demo_readings 1) ''app'' 60000), s') \<and> se_code s' \<noteq> replicate 6 48
     \<and> (\<exists>e. fst (pair demo_platform ascii_digit (demo_readings 2) ''away'' ''spy'' (replicate 6 48) s') = Inl e)"
proof -
  obtain s' where p: "pair demo_platform ascii_digit (demo_readings 1) ''home'' ''app'' (replicate 6 48) demo_sessions
     = (Inr (response_of (demo_readings 1) ''app'' 60000), s')" and x: "se_code_expires s' = fadd 1 300"
    using demo_pair by blast
  have "fadd 1 300 = 301" using fl_int [of 301] by (simp add: fadd_def)
  then have "pr_now (demo_readings 2) < se_code_expires s'" by (simp add: x demo_readings_def)
  with pairing_code_once [OF p, of "demo_readings 2" "''away''" "''spy''"] p show ?thesis by blast
qed

section \<open>The life of a credential\<close>

lemma pair_sessions:
  assumes "pair pf isdigit rd source client code s = (r, s')"
  obtains "se_sessions s' = se_sessions s" "se_ttl_ms s' = se_ttl_ms s"
  | s1 where "rotate_if_expired isdigit (pr_now rd) (pr_draws rd) (pr_rotated rd) s = (Inr (), s1)" "code = se_code s1"
      "se_sessions s' = dict_set (pf_sha256 pf (pr_credential rd)) (session_opened pf rd client (se_ttl_ms s)) (se_sessions s)"
      "se_ttl_ms s' = se_ttl_ms s"
  using assms
proof (cases rule: pair_cases)
  case (right s1 s2)
  show ?thesis
    by (rule that(2) [OF right(1,2)]) (use open_session_cases [OF right(7)] right(4,5) in simp_all)
qed (rule that(1); assumption)+

lemma step_ttl: "se_ttl_ms (session_step pf isdigit x s) = se_ttl_ms s"
proof (cases x)
  case (Pair rd source client code)
  obtain r s' where p: "pair pf isdigit rd source client code s = (r, s')" by (cases "pair pf isdigit rd source client code s")
  from p have "se_ttl_ms s' = se_ttl_ms s" by (cases rule: pair_sessions)
  with p Pair show ?thesis by (simp add: session_step_def)
next
  case (Authenticate wall credential)
  then show ?thesis using authenticate_cases(2) [of pf wall credential s] by (simp add: session_step_def prod_eq_iff)
next
  case (ShowCode now draws clock)
  then show ?thesis using show_code_parts(2) [of isdigit now draws clock s] by (simp add: session_step_def prod_eq_iff)
qed

lemma run_ttl: "se_ttl_ms (session_run pf isdigit xs s) = se_ttl_ms s"
  by (induction xs arbitrary: s) (simp_all add: session_run_def step_ttl)

definition harmless :: "platform \<Rightarrow> string \<Rightarrow> int \<Rightarrow> session_op \<Rightarrow> bool" where
  \<comment> \<open>the operation draws another credential and does not look at the clock after \<open>expires\<close>\<close>
  "harmless pf digest expires x = (case x of
       Pair rd _ _ _ \<Rightarrow> pf_sha256 pf (pr_credential rd) \<noteq> digest
     | Authenticate wall _ \<Rightarrow> wall < expires
     | ShowCode _ _ _ \<Rightarrow> True)"

lemma step_keeps_session:
  assumes "dict_get (se_sessions s) digest = Some c" "harmless pf digest (cs_expires c) x"
  shows "dict_get (se_sessions (session_step pf isdigit x s)) digest = Some c"
proof (cases x)
  case (Pair rd source client code)
  obtain r s' where p: "pair pf isdigit rd source client code s = (r, s')" by (cases "pair pf isdigit rd source client code s")
  from p have "dict_get (se_sessions s') digest = Some c"
    by (cases rule: pair_sessions) (use assms Pair in \<open>simp_all add: harmless_def dict_simps\<close>)
  with p Pair show ?thesis by (simp add: session_step_def)
next
  case (Authenticate wall credential)
  obtain r s' where p: "authenticate pf wall credential s = (r, s')" by (cases "authenticate pf wall credential s")
  from authenticate_cases(4) [OF p] have "dict_get (se_sessions s') digest = Some c"
    using assms Authenticate by (auto simp: harmless_def revoke_def dict_simps)
  with p Authenticate show ?thesis by (simp add: session_step_def)
next
  case (ShowCode now draws clock)
  then show ?thesis using show_code_parts(1) [of isdigit now draws clock s] assms
    by (simp add: session_step_def prod_eq_iff)
qed

lemma run_keeps_session:
  assumes "dict_get (se_sessions s) digest = Some c" "list_all (harmless pf digest (cs_expires c)) xs"
  shows "dict_get (se_sessions (session_run pf isdigit xs s)) digest = Some c"
  using assms
  by (induction xs arbitrary: s) (simp_all add: session_run_def step_keeps_session)

text \<open>C20: a credential lives exactly as long as the pairing said. After a successful pairing and
any further operations that draw other credentials, the returned credential authenticates,
with the returned client and data key, at every time before \<open>expiresAt\<close>; the first use at or
after it is refused and revokes the session, and from then on the credential is unknown at
every time, even if the clock goes back.\<close>

theorem credential_lifetime:
  assumes "pair pf isdigit rd source client code s = (Inr resp, s1)"
    and "list_all (harmless pf (pf_sha256 pf (pr_credential rd)) (rp_expires resp)) xs"
  shows "\<exists>c. cs_client c = rp_client resp \<and> base64url_encode (cs_key c) = rp_data_key resp
      \<and> rp_expires resp = pr_wall rd + se_ttl_ms s
      \<and> (\<forall>wall. wall < rp_expires resp \<longrightarrow> authenticate pf wall (rp_credential resp) (session_run pf isdigit xs s1)
            = (Inr c, session_run pf isdigit xs s1))
      \<and> (\<forall>wall wall'. rp_expires resp \<le> wall \<longrightarrow> (\<exists>s2. authenticate pf wall (rp_credential resp) (session_run pf isdigit xs s1)
            = (Inl (auth_failed m_cred_expired), s2)
          \<and> authenticate pf wall' (rp_credential resp) s2 = (Inl (auth_failed m_cred_unknown), s2)))"
proof -
  let ?c = "session_opened pf rd client (se_ttl_ms s)"
  let ?d = "pf_sha256 pf (pr_credential rd)"
  let ?t = "session_run pf isdigit xs s1"
  have resp: "resp = response_of rd client (se_ttl_ms s)" and st: "dict_get (se_sessions s1) ?d = Some ?c"
    by (rule pair_success [OF assms(1)], simp add: dict_simps)+
  have e: "cs_expires ?c = rp_expires resp" by (simp add: resp session_opened_def response_of_def)
  have g: "dict_get (se_sessions ?t) ?d = Some ?c"
    by (rule run_keeps_session [OF st]) (use assms(2) e in simp)
  have cr: "base64url_decode (rp_credential resp) = Some (pr_credential rd)"
    by (simp add: resp response_of_def decode_encode)
  have "authenticate pf wall (rp_credential resp) ?t =
      (if rp_expires resp \<le> wall then (Inl (auth_failed m_cred_expired), revoke ?d ?t) else (Inr ?c, ?t))" for wall
    by (simp add: authenticate_def cr g e)
  moreover have "authenticate pf wall (rp_credential resp) (revoke ?d ?t) = (Inl (auth_failed m_cred_unknown), revoke ?d ?t)" for wall
    by (simp add: authenticate_def cr revoke_def dict_simps)
  moreover have "cs_client ?c = rp_client resp" "base64url_encode (cs_key ?c) = rp_data_key resp"
    "rp_expires resp = pr_wall rd + se_ttl_ms s"
    by (simp_all add: resp session_opened_def response_of_def)
  ultimately show ?thesis by (intro exI [of _ ?c]) auto
qed

theorem credential_lifetime_witness:
  "\<exists>s1 c. cs_client c = ''app'' \<and> authenticate demo_platform 2000 (base64url_encode ''0123456789abcdef'')
      (session_run demo_platform ascii_digit [Authenticate 1500 ''AA''] s1) = (Inr c, session_run demo_platform ascii_digit [Authenticate 1500 ''AA''] s1)"
proof -
  obtain s1 where p: "pair demo_platform ascii_digit (demo_readings 1) ''home'' ''app'' (replicate 6 48) demo_sessions
     = (Inr (response_of (demo_readings 1) ''app'' 60000), s1)" using demo_pair by blast
  have r: "rp_expires (response_of (demo_readings 1) ''app'' 60000) = 61000" "rp_client (response_of (demo_readings 1) ''app'' 60000) = ''app''"
    "rp_credential (response_of (demo_readings 1) ''app'' 60000) = base64url_encode ''0123456789abcdef''"
    by (simp_all add: response_of_def demo_readings_def)
  have "list_all (harmless demo_platform (pf_sha256 demo_platform (pr_credential (demo_readings 1)))
      (rp_expires (response_of (demo_readings 1) ''app'' 60000))) [Authenticate 1500 ''AA'']"
    by (simp add: harmless_def r)
  from credential_lifetime [OF p this] obtain c where "cs_client c = ''app''"
    "\<forall>wall. wall < 61000 \<longrightarrow> authenticate demo_platform wall (base64url_encode ''0123456789abcdef'')
      (session_run demo_platform ascii_digit [Authenticate 1500 ''AA''] s1) = (Inr c, session_run demo_platform ascii_digit [Authenticate 1500 ''AA''] s1)"
    unfolding r by blast
  then show ?thesis by (intro exI [of _ s1] exI [of _ c]) simp
qed

lemma sessions_origin:
  assumes "dict_get (se_sessions (session_run pf isdigit xs s0)) digest = Some c" "se_sessions s0 = []"
  shows "\<exists>ys zs rd source client code s1. xs = ys @ Pair rd source client code # zs
    \<and> rotate_if_expired isdigit (pr_now rd) (pr_draws rd) (pr_rotated rd) (session_run pf isdigit ys s0) = (Inr (), s1)
    \<and> code = se_code s1 \<and> digest = pf_sha256 pf (pr_credential rd) \<and> c = session_opened pf rd client (se_ttl_ms s0)"
  using assms(1)
proof (induction xs rule: rev_induct)
  case Nil
  then show ?case using assms(2) by (simp add: session_run_def)
next
  case (snoc x xs)
  let ?s = "session_run pf isdigit xs s0"
  have run: "session_run pf isdigit (xs @ [x]) s0 = session_step pf isdigit x ?s" by (simp add: session_run_def)
  have older: ?case if "dict_get (se_sessions ?s) digest = Some c"
  proof -
    from snoc.IH [OF that] obtain ys zs rd source client code s1 where "xs = ys @ Pair rd source client code # zs"
      "rotate_if_expired isdigit (pr_now rd) (pr_draws rd) (pr_rotated rd) (session_run pf isdigit ys s0) = (Inr (), s1)
       \<and> code = se_code s1 \<and> digest = pf_sha256 pf (pr_credential rd) \<and> c = session_opened pf rd client (se_ttl_ms s0)"
      by blast
    then show ?thesis by (intro exI [of _ ys] exI [of _ "zs @ [x]"] exI [of _ rd] exI [of _ source] exI [of _ client]
        exI [of _ code] exI [of _ s1]) simp
  qed
  show ?case
  proof (cases x)
    case (Pair rd source client code)
    obtain r s' where p: "pair pf isdigit rd source client code ?s = (r, s')" by (cases "pair pf isdigit rd source client code ?s")
    then have s': "session_run pf isdigit (xs @ [x]) s0 = s'" unfolding run using Pair by (simp add: session_step_def)
    from p show ?thesis
    proof (cases rule: pair_sessions)
      case 1
      with snoc.prems s' show ?thesis by (intro older) simp
    next
      case (2 s1)
      show ?thesis
      proof (cases "digest = pf_sha256 pf (pr_credential rd)")
        case True
        with 2(3) snoc.prems s' have "c = session_opened pf rd client (se_ttl_ms s0)" by (simp add: dict_simps run_ttl)
        with True 2(1,2) Pair show ?thesis
          by (intro exI [of _ xs] exI [of _ "[]"] exI [of _ rd] exI [of _ source] exI [of _ client] exI [of _ code]
              exI [of _ s1]) simp
      next
        case False
        with 2(3) snoc.prems s' show ?thesis by (intro older) (simp add: dict_simps)
      qed
    qed
  next
    case (Authenticate wall credential)
    obtain r s' where p: "authenticate pf wall credential ?s = (r, s')" by (cases "authenticate pf wall credential ?s")
    then have s': "session_run pf isdigit (xs @ [x]) s0 = s'" unfolding run using Authenticate by (simp add: session_step_def)
    from authenticate_cases(4) [OF p] snoc.prems show ?thesis unfolding s'
      by (intro older) (auto simp: revoke_def dict_simps split: if_split_asm)
  next
    case (ShowCode now draws clock)
    with snoc.prems show_code_parts(1) [of isdigit now draws clock ?s] show ?thesis unfolding run
      by (intro older) (simp add: session_step_def prod_eq_iff)
  qed
qed

text \<open>C21: whoever is authenticated has paired. In any run of a new registry, a credential that
authenticates was handed out (up to a collision of the hash) by an earlier pairing of the
run, whose guess was the code then in force, to the client the session names, and less than
the credential lifetime ago.\<close>

theorem authenticated_was_paired:
  assumes "new_sessions isdigit initial ttl draws clock = Inr s0"
    and "authenticate pf wall credential (session_run pf isdigit xs s0) = (Inr c, s')"
  shows "\<exists>ys zs rd source code s1 bytes. xs = ys @ Pair rd source (cs_client c) code # zs
    \<and> rotate_if_expired isdigit (pr_now rd) (pr_draws rd) (pr_rotated rd) (session_run pf isdigit ys s0) = (Inr (), s1)
    \<and> code = se_code s1 \<and> base64url_decode credential = Some bytes \<and> pf_sha256 pf bytes = pf_sha256 pf (pr_credential rd)
    \<and> cs_key c = pr_key rd \<and> wall < pr_wall rd + ttl * 1000"
proof -
  have s0: "se_sessions s0 = []" "se_ttl_ms s0 = ttl * 1000"
    using assms(1) by (auto simp: new_sessions_def split: if_split_asm sum.split_asm)
  obtain bytes where b: "base64url_decode credential = Some bytes"
    "dict_get (se_sessions (session_run pf isdigit xs s0)) (pf_sha256 pf bytes) = Some c" "wall < cs_expires c"
    using assms(2) by (auto simp: authenticate_def Let_def split: option.split_asm if_split_asm)
  from sessions_origin [OF b(2) s0(1)] obtain ys zs rd source client code s1 where
    o: "xs = ys @ Pair rd source client code # zs"
      "rotate_if_expired isdigit (pr_now rd) (pr_draws rd) (pr_rotated rd) (session_run pf isdigit ys s0) = (Inr (), s1)"
      "code = se_code s1" "pf_sha256 pf bytes = pf_sha256 pf (pr_credential rd)"
    and c: "c = session_opened pf rd client (ttl * 1000)" unfolding s0(2) by blast
  have "client = cs_client c" "cs_key c = pr_key rd" "wall < pr_wall rd + ttl * 1000"
    using b(3) by (simp_all add: c session_opened_def)
  with o b(1) show ?thesis by blast
qed

theorem authenticated_was_paired_witness:
  "\<exists>c s' ys zs rd source code. authenticate demo_platform 2000 (base64url_encode ''0123456789abcdef'')
       (session_run demo_platform ascii_digit [Pair (demo_readings 1) ''home'' ''app'' (replicate 6 48)] demo_sessions) = (Inr c, s')
     \<and> [Pair (demo_readings 1) ''home'' ''app'' (replicate 6 48)] = ys @ Pair rd source (cs_client c) code # zs"
proof -
  obtain s1 where p: "pair demo_platform ascii_digit (demo_readings 1) ''home'' ''app'' (replicate 6 48) demo_sessions
     = (Inr (response_of (demo_readings 1) ''app'' 60000), s1)" using demo_pair by blast
  have st: "se_sessions s1 = dict_set (pf_sha256 demo_platform (pr_credential (demo_readings 1)))
      (session_opened demo_platform (demo_readings 1) ''app'' (se_ttl_ms demo_sessions)) (se_sessions demo_sessions)"
    by (rule pair_success [OF p])
  have run: "session_run demo_platform ascii_digit [Pair (demo_readings 1) ''home'' ''app'' (replicate 6 48)] demo_sessions = s1"
    using p by (simp add: session_run_def session_step_def)
  have "authenticate demo_platform 2000 (base64url_encode ''0123456789abcdef'') s1
      = (Inr (session_opened demo_platform (demo_readings 1) ''app'' 60000), s1)"
    by (simp add: authenticate_def decode_encode st dict_simps session_opened_def)
      (simp add: demo_readings_def demo_sessions_def)
  then have a: "authenticate demo_platform 2000 (base64url_encode ''0123456789abcdef'')
       (session_run demo_platform ascii_digit [Pair (demo_readings 1) ''home'' ''app'' (replicate 6 48)] demo_sessions)
      = (Inr (session_opened demo_platform (demo_readings 1) ''app'' 60000), s1)" unfolding run .
  from authenticated_was_paired [OF demo_new a] a show ?thesis by blast
qed

end
