(* ===== verification/Service.thy ===== *)
theory Service
  imports Scenes Sessions
begin

text \<open>
  \<open>GatewayService\<close> of \<open>service.py\<close>: the command pipeline with its two replay windows, the
  audited registrations, the event sinks and the telemetry step.

  The object is the record \<open>service\<close>; its storage is the one inside the registry's driver
  context. The asyncio locks make every operation of the model atomic, which is how they are
  modelled: an operation maps a state to an answer and a state. The readings a command takes
  from the clocks, one per call the code makes, are a record.
\<close>

section \<open>State\<close>

record command_result =
  cr_timestamp :: int
  cr_message :: string
  cr_device :: string
  cr_action :: string
  cr_success :: bool
  cr_error :: "gateway_error option"
  cr_details :: "scene_result list option"
  cr_version :: "pyval option"

datatype event =
    StateChanged int pyval pyval payload
  | AlertRaised alert_event
  | Heartbeat int
  | RoomCreated room
  | DeviceRemoved int pyval

record service =
  sv_sessions :: sessions
  sv_devices :: registry
  sv_results :: "(string \<times> string, rat \<times> command_result) dict"
  sv_nonces :: "(string \<times> string, rat) dict"
  sv_sinks :: "nat list"

definition IDEMPOTENCY_WINDOW_SECONDS :: int where "IDEMPOTENCY_WINDOW_SECONDS = 300"
definition TIMESTAMP_WINDOW_MS :: int where "TIMESTAMP_WINDOW_MS = 30000"

definition in_storage :: "(storage \<Rightarrow> storage) \<Rightarrow> registry \<Rightarrow> registry" where
  "in_storage f rg = rg\<lparr>rg_cx := (rg_cx rg)\<lparr>cx_storage := f (cx_storage (rg_cx rg))\<rparr>\<rparr>"

section \<open>Sinks\<close>

definition add_sink :: "nat \<Rightarrow> service \<Rightarrow> service" where
  "add_sink sink sv = sv\<lparr>sv_sinks := (if sink \<in> set (sv_sinks sv) then sv_sinks sv else sv_sinks sv @ [sink])\<rparr>"

definition remove_sink :: "nat \<Rightarrow> service \<Rightarrow> service" where
  "remove_sink sink sv = sv\<lparr>sv_sinks := filter (\<lambda>s. s \<noteq> sink) (sv_sinks sv)\<rparr>"

definition broadcast :: "(nat \<Rightarrow> bool) \<Rightarrow> event \<Rightarrow> service \<Rightarrow> nat list \<times> service" where
  \<comment> \<open>\<open>takes s\<close>: the sink returns; the others raise and are dropped. The answer lists the
     sinks that took the event.\<close>
  "broadcast takes event sv = (filter takes (sv_sinks sv),
     fold remove_sink (filter (\<lambda>s. \<not> takes s) (sv_sinks sv)) sv)"

section \<open>Events and results\<close>

definition state_event :: "int \<Rightarrow> payload \<Rightarrow> exn + event" where
  "state_event timestamp d = (case (dict_get d ''id'', dict_get d ''stateVersion'') of
       (Some i, Some v) \<Rightarrow> Inr (StateChanged timestamp i v d) | _ \<Rightarrow> Inl (Raised KeyError))"

definition error_result :: "int \<Rightarrow> envelope \<Rightarrow> gateway_error \<Rightarrow> command_result" where
  "error_result timestamp e error = \<lparr>cr_timestamp = timestamp, cr_message = ev_message e, cr_device = ev_device e,
     cr_action = ev_action e, cr_success = False, cr_error = Some error, cr_details = None, cr_version = None\<rparr>"

definition json_bool :: "bool \<Rightarrow> string" where
  "json_bool b = (if b then ''true'' else ''false'')"

definition json_opt_string :: "string option \<Rightarrow> string" where
  "json_opt_string x = (case x of None \<Rightarrow> ''null'' | Some s \<Rightarrow> json_string s)"

definition scene_result_json :: "scene_result \<Rightarrow> string" where
  "scene_result_json r =
     ''{'' @ json_string ''deviceId'' @ '':'' @ json_string (sr_device r)
     @ '','' @ json_string ''success'' @ '':'' @ json_bool (sr_success r)
     @ '','' @ json_string ''errorCode'' @ '':'' @ json_opt_string (sr_error r) @ ''}''"

fun join_with :: "string \<Rightarrow> string list \<Rightarrow> string" where
  "join_with sep [] = []"
| "join_with sep [x] = x"
| "join_with sep (x # xs) = x @ sep @ join_with sep xs"

definition details_json :: "scene_result list \<Rightarrow> string" where
  "details_json rs = ''['' @ join_with '','' (map scene_result_json rs) @ '']''"

section \<open>The command pipeline\<close>

record command_readings =
  rd_prune :: rat
  rd_wall :: int
  rd_nonce :: rat
  rd_worlds :: "nat \<Rightarrow> world"
  rd_result :: int
  rd_events :: "nat \<Rightarrow> int"
  rd_cache :: rat
  rd_audit :: int

definition keep_since :: "rat \<Rightarrow> ('v \<Rightarrow> rat) \<Rightarrow> ('k, 'v) dict \<Rightarrow> ('k, 'v) dict" where
  \<comment> \<open>the two comprehensions that rebuild a cache without its old entries\<close>
  "keep_since cutoff time_of d = filter (\<lambda>(k, v). cutoff \<le> time_of v) d"

definition prune_security_windows :: "rat \<Rightarrow> service \<Rightarrow> service" where
  "prune_security_windows now sv =
     (let cutoff = fsub now (of_int IDEMPOTENCY_WINDOW_SECONDS)
      in sv\<lparr>sv_results := keep_since cutoff fst (sv_results sv), sv_nonces := keep_since cutoff id (sv_nonces sv)\<rparr>)"

definition cache_result :: "rat \<Rightarrow> string \<times> string \<Rightarrow> command_result \<Rightarrow> service \<Rightarrow> service" where
  "cache_result now key result sv = sv\<lparr>sv_results := dict_set key (now, result) (sv_results sv)\<rparr>"

definition audit :: "int \<Rightarrow> client_session \<Rightarrow> envelope \<Rightarrow> command_result \<Rightarrow> service \<Rightarrow> service" where
  "audit timestamp session e result sv = sv\<lparr>sv_devices := in_storage
     (record_audit timestamp (cs_client session) (ev_device e) (ev_action e)
        (if cr_success result then ''success'' else ''failed'')
        (map_option err_code (cr_error result)) (ev_message e)
        (map_option details_json (cr_details result))) (sv_devices sv)\<rparr>"

fun scene_events :: "(nat \<Rightarrow> int) \<Rightarrow> nat \<Rightarrow> registry \<Rightarrow> scene_result list \<Rightarrow> exn + event list" where
  \<comment> \<open>the loop over the details: one event for every device that succeeded\<close>
  "scene_events stamps n rg [] = Inr []"
| "scene_events stamps n rg (r # rs) =
     (if \<not> sr_success r then scene_events stamps n rg rs
      else case get_device rg (sr_device r) of Inl x \<Rightarrow> Inl x
      | Inr d \<Rightarrow> (case public_device (rg_categories rg) d of Inl x \<Rightarrow> Inl x
        | Inr p \<Rightarrow> (case state_event (stamps n) p of Inl x \<Rightarrow> Inl x
          | Inr ev \<Rightarrow> (case scene_events stamps (Suc n) rg rs of Inl x \<Rightarrow> Inl x | Inr evs \<Rightarrow> Inr (ev # evs)))))"

definition success_result ::
  "command_readings \<Rightarrow> envelope \<Rightarrow> registry \<Rightarrow> command_value \<Rightarrow> exn + (command_result \<times> event list)" where
  "success_result rd e rg v =
     (let result = \<lparr>cr_timestamp = rd_result rd, cr_message = ev_message e, cr_device = ev_device e,
            cr_action = ev_action e, cr_success = True, cr_error = None, cr_details = None, cr_version = None\<rparr>
      in case v of
           DeviceState d \<Rightarrow>
             (case dict_get d ''stateVersion'' of None \<Rightarrow> Inl (Raised KeyError)
              | Some version \<Rightarrow> (case state_event (rd_events rd 0) d of Inl x \<Rightarrow> Inl x
                | Inr ev \<Rightarrow> Inr (result\<lparr>cr_version := Some version\<rparr>, [ev])))
         | SceneResults rs \<Rightarrow>
             (case scene_events (rd_events rd) 0 rg rs of Inl x \<Rightarrow> Inl x
              | Inr evs \<Rightarrow> Inr (result\<lparr>cr_details := Some rs\<rparr>, evs)))"

definition gateway_error_of :: "exn \<Rightarrow> gateway_error" where
  \<comment> \<open>the two \<open>except\<close> clauses\<close>
  "gateway_error_of x = (case x of Gateway g \<Rightarrow> g | Raised _ \<Rightarrow> gw INTERNAL_ERROR m_internal)"

definition run_command ::
  "platform \<Rightarrow> command_readings \<Rightarrow> client_session \<Rightarrow> envelope \<Rightarrow> registry \<Rightarrow> command_result \<times> event list \<times> registry" where
  \<comment> \<open>the \<open>try\<close> block and its handlers\<close>
  "run_command pf rd session e rg =
     (let failed = (\<lambda>x. (error_result (rd_result rd) e (gateway_error_of x), [])) in
      case decrypt_payload pf (cs_key session) e of
        Inl x \<Rightarrow> (case failed x of (result, events) \<Rightarrow> (result, events, rg))
      | Inr p \<Rightarrow>
          (case execute (rd_worlds rd) (ev_device e) (ev_action e) p (ev_expected e) rg of
             (Inl x, rg') \<Rightarrow> (case failed x of (result, events) \<Rightarrow> (result, events, rg'))
           | (Inr v, rg') \<Rightarrow>
               (case (case success_result rd e rg' v of Inl x \<Rightarrow> failed x | Inr y \<Rightarrow> y) of
                  (result, events) \<Rightarrow> (result, events, rg'))))"

definition process_command ::
  "platform \<Rightarrow> command_readings \<Rightarrow> client_session \<Rightarrow> envelope \<Rightarrow> service \<Rightarrow> (command_result \<times> event list) \<times> service" where
  "process_command pf rd session e sv =
     (let sv1 = prune_security_windows (rd_prune rd) sv;
          cache_key = (cs_digest session, ev_message e);
          nonce_key = (cs_digest session, ev_nonce e);
          finish = (\<lambda>result sv. audit (rd_audit rd) session e result (cache_result (rd_cache rd) cache_key result sv));
          refuse = (\<lambda>m. let result = error_result (rd_result rd) e (gw REPLAY_DETECTED m) in ((result, []), finish result sv1))
      in case dict_get (sv_results sv1) cache_key of
           Some (_, result) \<Rightarrow> ((result, []), sv1)
         | None \<Rightarrow>
             if TIMESTAMP_WINDOW_MS < \<bar>rd_wall rd - ev_timestamp e\<bar> then refuse m_ts_window
             else if dict_get (sv_nonces sv1) nonce_key \<noteq> None then refuse m_nonce_dup
             else (case run_command pf rd session e (sv_devices sv1) of
                 (result, events, rg) \<Rightarrow>
                   (case drain_alerts rg of (alerts, rg') \<Rightarrow>
                      ((result, events @ map AlertRaised alerts),
                       finish result (sv1\<lparr>sv_nonces := dict_set nonce_key (rd_nonce rd) (sv_nonces sv1), sv_devices := rg'\<rparr>)))))"

section \<open>Rooms, registrations and removals\<close>

definition audit_success :: "int \<Rightarrow> client_session \<Rightarrow> string \<Rightarrow> string \<Rightarrow> string \<Rightarrow> service \<Rightarrow> service" where
  "audit_success timestamp session device_id action message_id sv = sv\<lparr>sv_devices := in_storage
     (record_audit timestamp (cs_client session) device_id action ''success'' None message_id None) (sv_devices sv)\<rparr>"

definition service_create_room ::
  "int \<Rightarrow> client_session \<Rightarrow> room_request \<Rightarrow> service \<Rightarrow> (room, service) outcome" where
  "service_create_room timestamp session r sv = (case create_room (rq_id r) (rq_name r) (sv_devices sv) of
       (Inl x, rg) \<Rightarrow> (Inl x, sv\<lparr>sv_devices := rg\<rparr>)
     | (Inr created, rg) \<Rightarrow> (Inr created,
         audit_success timestamp session (rq_id r) ''createRoom'' (''create-room-'' @ rq_id r) (sv\<lparr>sv_devices := rg\<rparr>)))"

definition register_device ::
  "platform \<Rightarrow> string \<Rightarrow> int \<Rightarrow> client_session \<Rightarrow> registration \<Rightarrow> service \<Rightarrow> (payload, service) outcome" where
  \<comment> \<open>\<open>stamp\<close> is the ISO time the driver puts on the device\<close>
  "register_device pf stamp timestamp session reg sv = (case verify pf reg of
       Inl x \<Rightarrow> (Inl x, sv)
     | Inr fingerprint \<Rightarrow>
         (case register_provisioned stamp (de_id reg) (de_name reg) (re_room reg) (de_type reg) (de_category reg)
                 (de_caps reg) (sv_devices sv) of
            (Inl x, rg) \<Rightarrow> (Inl x, sv\<lparr>sv_devices := rg\<rparr>)
          | (Inr d, rg) \<Rightarrow> (Inr d,
              audit_success timestamp session (de_id reg) ''registerDevice'' fingerprint (sv\<lparr>sv_devices := rg\<rparr>))))"

definition delete_device :: "int \<Rightarrow> client_session \<Rightarrow> string \<Rightarrow> service \<Rightarrow> (payload, service) outcome" where
  "delete_device timestamp session device_id sv = (case remove_provisioned device_id (sv_devices sv) of
       (Inl x, rg) \<Rightarrow> (Inl x, sv\<lparr>sv_devices := rg\<rparr>)
     | (Inr removed, rg) \<Rightarrow> (Inr removed,
         audit_success timestamp session device_id ''deleteDevice'' (''delete-'' @ device_id) (sv\<lparr>sv_devices := rg\<rparr>)))"

section \<open>Telemetry\<close>

fun broadcast_states ::
  "(nat \<Rightarrow> bool) \<Rightarrow> (nat \<Rightarrow> int) \<Rightarrow> nat \<Rightarrow> payload list \<Rightarrow> service \<Rightarrow> (event list, service) outcome" where
  "broadcast_states takes stamps n [] sv = (Inr [], sv)"
| "broadcast_states takes stamps n (p # ps) sv = (case state_event (stamps n) p of
       Inl x \<Rightarrow> (Inl x, sv)
     | Inr ev \<Rightarrow> (case broadcast_states takes stamps (Suc n) ps (snd (broadcast takes ev sv)) of
           (Inl x, sv') \<Rightarrow> (Inl x, sv') | (Inr evs, sv') \<Rightarrow> (Inr (ev # evs), sv')))"

definition telemetry_step ::
  "(nat \<Rightarrow> world) \<Rightarrow> (nat \<Rightarrow> bool) \<Rightarrow> (nat \<Rightarrow> int) \<Rightarrow> int \<Rightarrow> service \<Rightarrow> (event list, service) outcome" where
  \<comment> \<open>one turn of \<open>_telemetry_loop\<close>; an exception ends the loop\<close>
  "telemetry_step ws takes stamps wall sv = (case tick ws (sv_devices sv) of
       (Inl x, rg) \<Rightarrow> (Inl x, sv\<lparr>sv_devices := rg\<rparr>)
     | (Inr changed, rg) \<Rightarrow>
         (case broadcast_states takes stamps 0 changed (sv\<lparr>sv_devices := rg\<rparr>) of
            (Inl x, sv') \<Rightarrow> (Inl x, sv')
          | (Inr events, sv') \<Rightarrow> (Inr events, sv'\<lparr>sv_devices := in_storage
              (prune_environment_history (wall - 7 * 24 * 60 * 60 * 1000)) (sv_devices sv')\<rparr>)))"

definition heartbeat_step :: "(nat \<Rightarrow> bool) \<Rightarrow> int \<Rightarrow> service \<Rightarrow> nat list \<times> service" where
  "heartbeat_step takes wall sv = broadcast takes (Heartbeat wall) sv"

end
