(* ===== verification/ServiceRuns.thy ===== *)
theory ServiceRuns
  imports Service
begin

text \<open>
  Runs of the gateway: the contract of the two replay windows as a locale, what one command
  does on each of its three paths, and the properties of commands in any sequence of
  operations of the service.
\<close>

section \<open>The contract of a replay window\<close>

locale replay_window =
  fixes get :: "'c \<Rightarrow> 'k \<Rightarrow> 'v option"
    and put :: "'k \<Rightarrow> 'v \<Rightarrow> 'c \<Rightarrow> 'c"
    and prune :: "rat \<Rightarrow> 'c \<Rightarrow> 'c"
    and time_of :: "'v \<Rightarrow> rat"
    and invar :: "'c \<Rightarrow> bool"
  assumes get_put: "invar c \<Longrightarrow> get (put k v c) k' = (if k' = k then Some v else get c k')"
    and get_prune: "invar c \<Longrightarrow> get (prune t c) k = (case get c k of None \<Rightarrow> None | Some v \<Rightarrow> if t \<le> time_of v then Some v else None)"
    and invar_put: "invar c \<Longrightarrow> invar (put k v c)"
    and invar_prune: "invar c \<Longrightarrow> invar (prune t c)"
begin

text \<open>The history of a window is everything that was ever put into it, newest first. A window
  that was last pruned at \<open>t\<close> shows the part of the history since \<open>t\<close>.\<close>

definition shows_since :: "rat \<Rightarrow> ('k \<times> 'v) list \<Rightarrow> 'c \<Rightarrow> bool" where
  "shows_since t h c \<longleftrightarrow> invar c \<and>
     (\<forall>k. get c k = (case map_of h k of None \<Rightarrow> None | Some v \<Rightarrow> if t \<le> time_of v then Some v else None))"

lemma shows_get:
  "shows_since t h c \<Longrightarrow> get c k = (case map_of h k of None \<Rightarrow> None | Some v \<Rightarrow> if t \<le> time_of v then Some v else None)"
  by (simp add: shows_since_def)

lemma shows_prune: "shows_since t h c \<Longrightarrow> t \<le> t' \<Longrightarrow> shows_since t' h (prune t' c)"
  by (auto simp: shows_since_def get_prune invar_prune split: option.split)

lemma shows_put: "shows_since t h c \<Longrightarrow> t \<le> time_of v \<Longrightarrow> shows_since t ((k, v) # h) (put k v c)"
  by (auto simp: shows_since_def get_put invar_put)

lemma kept_prune: "invar c \<Longrightarrow> get c k = Some v \<Longrightarrow> t \<le> time_of v \<Longrightarrow> get (prune t c) k = Some v"
  by (simp add: get_prune)

end

lemma keep_since_get:
  "dict_ok d \<Longrightarrow> dict_get (keep_since t time_of d) k
     = (case dict_get d k of None \<Rightarrow> None | Some v \<Rightarrow> if t \<le> time_of v then Some v else None)"
proof (induction d)
  case (Cons x d)
  obtain k' v' where x: "x = (k', v')" by (cases x)
  have "dict_get d k = None" if "k = k'" using Cons.prems x that by (simp add: dict_get_None_iff)
  with Cons x show ?case by (auto simp: keep_since_def split: option.split)
qed (simp add: keep_since_def)

lemma keep_since_ok: "dict_ok d \<Longrightarrow> dict_ok (keep_since t time_of d)"
  by (simp add: keep_since_def distinct_map_filter)

interpretation results: replay_window dict_get "dict_set :: string \<times> string \<Rightarrow> _" "\<lambda>t. keep_since t fst"
  "fst :: rat \<times> command_result \<Rightarrow> rat" "dict_ok :: (string \<times> string, rat \<times> command_result) dict \<Rightarrow> bool"
  by unfold_locales (simp_all add: dict_simps keep_since_get keep_since_ok)

interpretation nonces: replay_window dict_get "dict_set :: string \<times> string \<Rightarrow> _" "\<lambda>t. keep_since t id"
  "id :: rat \<Rightarrow> rat" "dict_ok :: (string \<times> string, rat) dict \<Rightarrow> bool"
  by unfold_locales (simp_all add: dict_simps keep_since_get keep_since_ok)

section \<open>The three paths of a command\<close>

definition caches_ok :: "service \<Rightarrow> bool" where
  "caches_ok sv \<longleftrightarrow> dict_ok (sv_results sv) \<and> dict_ok (sv_nonces sv)"

abbreviation result_key :: "client_session \<Rightarrow> envelope \<Rightarrow> string \<times> string" where
  "result_key session e \<equiv> (cs_digest session, ev_message e)"

abbreviation nonce_key :: "client_session \<Rightarrow> envelope \<Rightarrow> string \<times> string" where
  "nonce_key session e \<equiv> (cs_digest session, ev_nonce e)"

definition cutoff_of :: "command_readings \<Rightarrow> rat" where
  "cutoff_of rd = fsub (rd_prune rd) (of_int IDEMPOTENCY_WINDOW_SECONDS)"

definition cached_answer :: "command_readings \<Rightarrow> client_session \<Rightarrow> envelope \<Rightarrow> service \<Rightarrow> (rat \<times> command_result) option" where
  "cached_answer rd session e sv = dict_get (keep_since (cutoff_of rd) fst (sv_results sv)) (result_key session e)"

definition in_time :: "command_readings \<Rightarrow> envelope \<Rightarrow> bool" where
  "in_time rd e \<longleftrightarrow> \<bar>rd_wall rd - ev_timestamp e\<bar> \<le> TIMESTAMP_WINDOW_MS"

definition nonce_seen :: "command_readings \<Rightarrow> client_session \<Rightarrow> envelope \<Rightarrow> service \<Rightarrow> bool" where
  "nonce_seen rd session e sv \<longleftrightarrow> dict_get (keep_since (cutoff_of rd) id (sv_nonces sv)) (nonce_key session e) \<noteq> None"

definition accepted :: "command_readings \<Rightarrow> client_session \<Rightarrow> envelope \<Rightarrow> service \<Rightarrow> bool" where
  \<comment> \<open>the command reaches decryption and execution\<close>
  "accepted rd session e sv \<longleftrightarrow> cached_answer rd session e sv = None \<and> in_time rd e \<and> \<not> nonce_seen rd session e sv"

definition audited :: "command_readings \<Rightarrow> client_session \<Rightarrow> envelope \<Rightarrow> command_result \<Rightarrow> registry \<Rightarrow> registry" where
  "audited rd session e result rg = in_storage
     (record_audit (rd_audit rd) (cs_client session) (ev_device e) (ev_action e)
        (if cr_success result then ''success'' else ''failed'')
        (map_option err_code (cr_error result)) (ev_message e) (map_option details_json (cr_details result))) rg"

definition replay_refusal :: "command_readings \<Rightarrow> envelope \<Rightarrow> command_result" where
  "replay_refusal rd e = error_result (rd_result rd) e
     (gw REPLAY_DETECTED (if in_time rd e then m_nonce_dup else m_ts_window))"

lemma process_cases:
  assumes "process_command pf rd session e sv = ((result, events), sv')"
  obtains (cached) t where "cached_answer rd session e sv = Some (t, result)" "events = []"
      "sv_results sv' = keep_since (cutoff_of rd) fst (sv_results sv)"
      "sv_nonces sv' = keep_since (cutoff_of rd) id (sv_nonces sv)" "sv_devices sv' = sv_devices sv"
  | (refused) "cached_answer rd session e sv = None" "\<not> in_time rd e \<or> nonce_seen rd session e sv"
      "result = replay_refusal rd e" "events = []"
      "sv_results sv' = dict_set (result_key session e) (rd_cache rd, result) (keep_since (cutoff_of rd) fst (sv_results sv))"
      "sv_nonces sv' = keep_since (cutoff_of rd) id (sv_nonces sv)"
      "sv_devices sv' = audited rd session e result (sv_devices sv)"
  | (ran) evs rg where "accepted rd session e sv" "run_command pf rd session e (sv_devices sv) = (result, evs, rg)"
      "events = evs @ map AlertRaised (cx_pending (rg_cx rg))"
      "sv_results sv' = dict_set (result_key session e) (rd_cache rd, result) (keep_since (cutoff_of rd) fst (sv_results sv))"
      "sv_nonces sv' = dict_set (nonce_key session e) (rd_nonce rd) (keep_since (cutoff_of rd) id (sv_nonces sv))"
      "sv_devices sv' = audited rd session e result (snd (drain_alerts rg))"
proof (cases "cached_answer rd session e sv")
  case (Some a)
  obtain t r where a: "a = (t, r)" by (cases a)
  have "r = result" "events = []" "sv' = prune_security_windows (rd_prune rd) sv"
    using assms Some a by (simp_all add: process_command_def cached_answer_def prune_security_windows_def cutoff_of_def Let_def)
  with Some a show ?thesis
    by (intro cached [of t]) (simp_all add: prune_security_windows_def cutoff_of_def Let_def)
next
  case None
  show ?thesis
  proof (cases "in_time rd e \<and> \<not> nonce_seen rd session e sv")
    case False
    have "result = replay_refusal rd e \<and> events = [] \<and>
      sv' = audit (rd_audit rd) session e result (cache_result (rd_cache rd) (result_key session e) result
        (prune_security_windows (rd_prune rd) sv))"
      using assms None False
      by (auto simp: process_command_def cached_answer_def prune_security_windows_def cutoff_of_def Let_def in_time_def
          nonce_seen_def replay_refusal_def split: if_split_asm)
    with None False show ?thesis
      by (intro refused) (simp_all add: audit_def audited_def cache_result_def prune_security_windows_def cutoff_of_def Let_def)
  next
    case True
    obtain r evs rg where run: "run_command pf rd session e (sv_devices sv) = (r, evs, rg)"
      by (cases "run_command pf rd session e (sv_devices sv)")
    have "result = r \<and> events = evs @ map AlertRaised (cx_pending (rg_cx rg)) \<and>
      sv' = audit (rd_audit rd) session e result (cache_result (rd_cache rd) (result_key session e) result
        ((prune_security_windows (rd_prune rd) sv)\<lparr>sv_nonces := dict_set (nonce_key session e) (rd_nonce rd)
            (keep_since (cutoff_of rd) id (sv_nonces sv)), sv_devices := snd (drain_alerts rg)\<rparr>))"
      using assms None True run
      by (simp add: process_command_def cached_answer_def prune_security_windows_def cutoff_of_def Let_def in_time_def
          nonce_seen_def drain_alerts_def) blast
    with None True run show ?thesis
      by (intro ran [of evs rg])
        (simp_all add: accepted_def audit_def audited_def cache_result_def prune_security_windows_def cutoff_of_def Let_def)
  qed
qed

section \<open>Operations and runs\<close>

datatype service_op =
    Command command_readings client_session envelope
  | AddRoom int client_session room_request
  | Register string int client_session registration
  | Delete int client_session string
  | Telemetry "nat \<Rightarrow> world" "nat \<Rightarrow> bool" "nat \<Rightarrow> int" int
  | Session session_op
  | Attach nat
  | Detach nat

fun service_step :: "platform \<Rightarrow> (nat \<Rightarrow> bool) \<Rightarrow> service_op \<Rightarrow> service \<Rightarrow> service" where
  "service_step pf isdigit (Command rd session e) sv = snd (process_command pf rd session e sv)"
| "service_step pf isdigit (AddRoom t session r) sv = snd (service_create_room t session r sv)"
| "service_step pf isdigit (Register stamp t session reg) sv = snd (register_device pf stamp t session reg sv)"
| "service_step pf isdigit (Delete t session i) sv = snd (delete_device t session i sv)"
| "service_step pf isdigit (Telemetry ws takes stamps wall) sv = snd (telemetry_step ws takes stamps wall sv)"
| "service_step pf isdigit (Session x) sv = sv\<lparr>sv_sessions := session_step pf isdigit x (sv_sessions sv)\<rparr>"
| "service_step pf isdigit (Attach sink) sv = add_sink sink sv"
| "service_step pf isdigit (Detach sink) sv = remove_sink sink sv"

definition service_run :: "platform \<Rightarrow> (nat \<Rightarrow> bool) \<Rightarrow> service_op list \<Rightarrow> service \<Rightarrow> service" where
  "service_run pf isdigit xs sv = fold (service_step pf isdigit) xs sv"

lemma service_run_simps [simp]:
  "service_run pf isdigit [] sv = sv"
  "service_run pf isdigit (x # xs) sv = service_run pf isdigit xs (service_step pf isdigit x sv)"
  by (simp_all add: service_run_def)

lemma remove_sinks_sel:
  "sv_results (fold remove_sink ss sv) = sv_results sv \<and> sv_nonces (fold remove_sink ss sv) = sv_nonces sv
   \<and> sv_devices (fold remove_sink ss sv) = sv_devices sv \<and> sv_sessions (fold remove_sink ss sv) = sv_sessions sv"
  by (induction ss arbitrary: sv) (simp_all add: remove_sink_def)

lemma broadcast_sel [simp]:
  "sv_results (snd (broadcast takes ev sv)) = sv_results sv" "sv_nonces (snd (broadcast takes ev sv)) = sv_nonces sv"
  "sv_devices (snd (broadcast takes ev sv)) = sv_devices sv" "sv_sessions (snd (broadcast takes ev sv)) = sv_sessions sv"
  using remove_sinks_sel by (simp_all add: broadcast_def)

lemma broadcast_states_sel:
  "broadcast_states takes stamps n ps sv = (r, sv') \<Longrightarrow>
   sv_results sv' = sv_results sv \<and> sv_nonces sv' = sv_nonces sv \<and> sv_devices sv' = sv_devices sv \<and> sv_sessions sv' = sv_sessions sv"
proof (induction takes stamps n ps sv arbitrary: r sv' rule: broadcast_states.induct)
  case (2 takes stamps n p ps sv)
  show ?case
  proof (cases "state_event (stamps n) p")
    case (Inr ev)
    obtain q t where q: "broadcast_states takes stamps (Suc n) ps (snd (broadcast takes ev sv)) = (q, t)"
      by (cases "broadcast_states takes stamps (Suc n) ps (snd (broadcast takes ev sv))")
    with 2(1) [OF Inr q] 2(2) Inr show ?thesis by (auto split: sum.split_asm)
  qed (use 2(2) in simp)
qed simp

lemma other_caches:
  assumes "\<forall>rd session e. x \<noteq> Command rd session e"
  shows "sv_results (service_step pf isdigit x sv) = sv_results sv \<and> sv_nonces (service_step pf isdigit x sv) = sv_nonces sv"
proof (cases x)
  case (Telemetry ws takes stamps wall)
  obtain r rg where t: "tick ws (sv_devices sv) = (r, rg)" by (cases "tick ws (sv_devices sv)")
  show ?thesis
  proof (cases r)
    case (Inr changed)
    obtain q sv' where q: "broadcast_states takes stamps 0 changed (sv\<lparr>sv_devices := rg\<rparr>) = (q, sv')"
      by (cases "broadcast_states takes stamps 0 changed (sv\<lparr>sv_devices := rg\<rparr>)")
    from broadcast_states_sel [OF q] t q Inr Telemetry show ?thesis
      by (cases q) (simp_all add: telemetry_step_def)
  qed (use t Telemetry in \<open>simp add: telemetry_step_def\<close>)
qed (use assms in \<open>auto simp: service_create_room_def register_device_def delete_device_def audit_success_def add_sink_def
      remove_sink_def split: prod.split sum.split\<close>)

definition prune_times :: "service_op list \<Rightarrow> rat set" where
  \<comment> \<open>the monotonic times at which the commands of a run prune the windows\<close>
  "prune_times xs = {rd_prune rd |rd session e. Command rd session e \<in> set xs}"

definition still_open :: "rat \<Rightarrow> service_op list \<Rightarrow> bool" where
  \<comment> \<open>no command of the run prunes entries of the time \<open>t\<close>\<close>
  "still_open t xs \<longleftrightarrow> (\<forall>now \<in> prune_times xs. fsub now (of_int IDEMPOTENCY_WINDOW_SECONDS) \<le> t)"

lemma still_open_Cons [simp]:
  "still_open t (x # xs) \<longleftrightarrow> (case x of Command rd _ _ \<Rightarrow> cutoff_of rd \<le> t | _ \<Rightarrow> True) \<and> still_open t xs"
  by (auto simp: still_open_def prune_times_def cutoff_of_def split: service_op.split)

lemma step_caches:
  assumes ok: "caches_ok sv"
  shows "caches_ok (service_step pf isdigit x sv)"
    and "dict_get (sv_results sv) key = Some (t, result) \<Longrightarrow> still_open t [x] \<Longrightarrow>
       dict_get (sv_results (service_step pf isdigit x sv)) key = Some (t, result)"
    and "dict_get (sv_nonces sv) nonce = Some t \<Longrightarrow> still_open t [x] \<Longrightarrow>
       dict_get (sv_nonces (service_step pf isdigit x sv)) nonce = Some t"
proof -
  have ok': "dict_ok (sv_results sv)" "dict_ok (sv_nonces sv)" using ok by (simp_all add: caches_ok_def)
  have "caches_ok (service_step pf isdigit x sv)
     \<and> (dict_get (sv_results sv) key = Some (t, result) \<longrightarrow> still_open t [x] \<longrightarrow>
         dict_get (sv_results (service_step pf isdigit x sv)) key = Some (t, result))
     \<and> (dict_get (sv_nonces sv) nonce = Some t \<longrightarrow> still_open t [x] \<longrightarrow>
         dict_get (sv_nonces (service_step pf isdigit x sv)) nonce = Some t)"
  proof (cases "\<exists>rd session e. x = Command rd session e")
    case False
    then have "\<forall>rd session e. x \<noteq> Command rd session e" by blast
    from other_caches [OF this, of pf isdigit sv] ok show ?thesis by (simp add: caches_ok_def)
  next
    case True
    then obtain rd session e where x: "x = Command rd session e" by blast
    obtain r evs sv' where p: "process_command pf rd session e sv = ((r, evs), sv')"
      by (metis prod.collapse)
    have st: "service_step pf isdigit x sv = sv'" using p x by simp
    have rk: "dict_get (keep_since (cutoff_of rd) fst (sv_results sv)) key = Some (t, result)"
      if "dict_get (sv_results sv) key = Some (t, result)" "still_open t [x]"
      using results.kept_prune [OF ok'(1) that(1), of "cutoff_of rd"] that(2) x by simp
    have nk: "dict_get (keep_since (cutoff_of rd) id (sv_nonces sv)) nonce = Some t"
      if "dict_get (sv_nonces sv) nonce = Some t" "still_open t [x]"
      using nonces.kept_prune [OF ok'(2) that(1), of "cutoff_of rd"] that(2) x by simp
    have ok2: "dict_ok (keep_since (cutoff_of rd) fst (sv_results sv))" "dict_ok (keep_since (cutoff_of rd) id (sv_nonces sv))"
      using ok' by (simp_all add: keep_since_ok)
    from p have "caches_ok sv'
      \<and> (dict_get (sv_results sv) key = Some (t, result) \<longrightarrow> still_open t [x] \<longrightarrow> dict_get (sv_results sv') key = Some (t, result))
      \<and> (dict_get (sv_nonces sv) nonce = Some t \<longrightarrow> still_open t [x] \<longrightarrow> dict_get (sv_nonces sv') nonce = Some t)"
    proof (cases rule: process_cases)
      case (cached u)
      with rk nk ok2 show ?thesis by (simp add: caches_ok_def)
    next
      case refused
      have "result_key session e \<noteq> key \<or> dict_get (keep_since (cutoff_of rd) fst (sv_results sv)) key = None"
        using refused(1) by (auto simp: cached_answer_def)
      with refused rk nk ok2 show ?thesis by (auto simp: caches_ok_def dict_simps)
    next
      case (ran es rg)
      have "result_key session e \<noteq> key \<or> dict_get (keep_since (cutoff_of rd) fst (sv_results sv)) key = None"
        "nonce_key session e \<noteq> nonce \<or> dict_get (keep_since (cutoff_of rd) id (sv_nonces sv)) nonce = None"
        using ran(1) by (auto simp: accepted_def cached_answer_def nonce_seen_def)
      with ran rk nk ok2 show ?thesis by (auto simp: caches_ok_def dict_simps)
    qed
    then show ?thesis unfolding st .
  qed
  then show "caches_ok (service_step pf isdigit x sv)"
    and "dict_get (sv_results sv) key = Some (t, result) \<Longrightarrow> still_open t [x] \<Longrightarrow>
       dict_get (sv_results (service_step pf isdigit x sv)) key = Some (t, result)"
    and "dict_get (sv_nonces sv) nonce = Some t \<Longrightarrow> still_open t [x] \<Longrightarrow>
       dict_get (sv_nonces (service_step pf isdigit x sv)) nonce = Some t" by blast+
qed

lemma run_caches:
  assumes "caches_ok sv"
  shows "caches_ok (service_run pf isdigit xs sv)"
    and "dict_get (sv_results sv) key = Some (t, result) \<Longrightarrow> still_open t xs \<Longrightarrow>
       dict_get (sv_results (service_run pf isdigit xs sv)) key = Some (t, result)"
    and "dict_get (sv_nonces sv) nonce = Some t \<Longrightarrow> still_open t xs \<Longrightarrow>
       dict_get (sv_nonces (service_run pf isdigit xs sv)) nonce = Some t"
proof -
  have open1: "still_open t [x]" if "still_open t (x # xs)" for x t xs
    using that by (auto simp: still_open_def prune_times_def)
  have open2: "still_open t xs" if "still_open t (x # xs)" for x t xs
    using that by simp
  show "caches_ok (service_run pf isdigit xs sv)"
    using assms by (induction xs arbitrary: sv) (simp_all add: step_caches(1))
  show "dict_get (sv_results (service_run pf isdigit xs sv)) key = Some (t, result)"
    if "dict_get (sv_results sv) key = Some (t, result)" "still_open t xs"
    using assms that
  proof (induction xs arbitrary: sv)
    case (Cons x xs)
    show ?case unfolding service_run_simps
      by (rule Cons.IH [OF step_caches(1) [OF Cons.prems(1)] step_caches(2) [OF Cons.prems(1,2) open1] open2])
        (rule Cons.prems)+
  qed simp
  show "dict_get (sv_nonces (service_run pf isdigit xs sv)) nonce = Some t"
    if "dict_get (sv_nonces sv) nonce = Some t" "still_open t xs"
    using assms that
  proof (induction xs arbitrary: sv)
    case (Cons x xs)
    show ?case unfolding service_run_simps
      by (rule Cons.IH [OF step_caches(1) [OF Cons.prems(1)] step_caches(3) [OF Cons.prems(1,2) open1] open2])
        (rule Cons.prems)+
  qed simp
qed

lemma refused_keeps_devices:
  assumes "\<not> accepted rd session e sv" "process_command pf rd session e sv = ((result, events), sv')"
  shows "events = [] \<and> rg_devices (sv_devices sv') = rg_devices (sv_devices sv) \<and> rg_rooms (sv_devices sv') = rg_rooms (sv_devices sv)"
  using assms(2) by (cases rule: process_cases) (use assms(1) in \<open>simp_all add: audited_def in_storage_def\<close>)

text \<open>C1: a command is never executed twice. Once a command has been let through to decryption
and execution, no later command of the same session with the same nonce and the same
timestamp is let through, after any run of operations in between: it is answered from the
cache or refused as a replay, it produces no event and leaves every device and room as it
is. This needs the two clocks to agree roughly: when a command prunes entries as old as the
first one, the wall clock must have moved on by more than a minute since.\<close>

theorem no_replay:
  assumes caches: "caches_ok sv"
    and first: "accepted rd session e sv"
    and same: "cs_digest session' = cs_digest session" "ev_nonce e' = ev_nonce e" "ev_timestamp e' = ev_timestamp e"
    and clocks: "\<And>now. now \<in> prune_times (between @ [Command rd' session' e']) \<Longrightarrow> rd_nonce rd < fsub now 300
        \<Longrightarrow> rd_wall rd + 60000 < rd_wall rd'"
    and again: "process_command pf rd' session' e' (service_run pf isdigit (Command rd session e # between) sv) = ((result, events), sv')"
  shows "events = []
    \<and> rg_devices (sv_devices sv') = rg_devices (sv_devices (service_run pf isdigit (Command rd session e # between) sv))
    \<and> rg_rooms (sv_devices sv') = rg_rooms (sv_devices (service_run pf isdigit (Command rd session e # between) sv))"
proof (rule refused_keeps_devices [OF _ again])
  let ?sv = "service_run pf isdigit between (service_step pf isdigit (Command rd session e) sv)"
  show "\<not> accepted rd' session' e' (service_run pf isdigit (Command rd session e # between) sv)"
  proof (rule notI)
    assume "accepted rd' session' e' (service_run pf isdigit (Command rd session e # between) sv)"
    then have acc: "in_time rd' e'" "\<not> nonce_seen rd' session' e' ?sv" by (simp_all add: accepted_def)
    have "rd_wall rd' \<le> rd_wall rd + 60000"
      using acc(1) first same(3) by (auto simp: accepted_def in_time_def TIMESTAMP_WINDOW_MS_def abs_le_iff)
    with clocks have cut: "fsub now 300 \<le> rd_nonce rd" if "now \<in> prune_times (between @ [Command rd' session' e'])" for now
      using that by force
    then have open': "still_open (rd_nonce rd) between" "cutoff_of rd' \<le> rd_nonce rd"
      by (auto simp: still_open_def prune_times_def cutoff_of_def IDEMPOTENCY_WINDOW_SECONDS_def)
    obtain r evs sv1 where p: "process_command pf rd session e sv = ((r, evs), sv1)" by (metis prod.collapse)
    then have st: "service_step pf isdigit (Command rd session e) sv = sv1" by simp
    have ok1: "caches_ok sv1" using step_caches(1) [OF caches, of pf isdigit "Command rd session e"] st by simp
    from p have "dict_get (sv_nonces sv1) (nonce_key session e) = Some (rd_nonce rd)"
      by (cases rule: process_cases) (use first in \<open>simp_all add: accepted_def dict_simps\<close>)
    from run_caches(3) [OF ok1 this open'(1), of pf isdigit]
    have "dict_get (sv_nonces ?sv) (nonce_key session' e') = Some (rd_nonce rd)" unfolding st using same by simp
    from nonces.kept_prune [OF _ this, of "cutoff_of rd'"] run_caches(1) [OF ok1, of pf isdigit between] acc(2) open'(2)
    show False unfolding st by (simp add: nonce_seen_def caches_ok_def)
  qed
qed

definition demo_service :: service where
  "demo_service = \<lparr>sv_sessions = demo_sessions, sv_devices = one_light, sv_results = [], sv_nonces = [], sv_sinks = []\<rparr>"

definition demo_clock :: "rat \<Rightarrow> int \<Rightarrow> command_readings" where
  "demo_clock t wall = \<lparr>rd_prune = t, rd_wall = wall, rd_nonce = t, rd_worlds = (\<lambda>_. calm_world), rd_result = wall,
     rd_events = (\<lambda>_. wall), rd_cache = t, rd_audit = wall\<rparr>"

definition demo_session :: client_session where
  "demo_session = \<lparr>cs_client = ''app'', cs_digest = ''d'', cs_key = ''key'', cs_issued = 0, cs_expires = 100000\<rparr>"

lemma demo_caches: "caches_ok demo_service"
  by (simp add: caches_ok_def demo_service_def)

lemma demo_accepted: "accepted (demo_clock 10 2000) demo_session demo_envelope demo_service"
  by (simp add: accepted_def cached_answer_def nonce_seen_def keep_since_def demo_service_def in_time_def demo_clock_def
      demo_envelope_def TIMESTAMP_WINDOW_MS_def)

lemma demo_cutoff: "fsub 20 300 = - 280"
  using fl_int [of "- 280"] by (simp add: fsub_def)

theorem no_replay_witness:
  "\<exists>result sv'. process_command demo_platform (demo_clock 20 9000) demo_session (demo_envelope\<lparr>ev_message := ''other-message-id''\<rparr>)
      (service_run demo_platform ascii_digit [Command (demo_clock 10 2000) demo_session demo_envelope, Detach 0] demo_service)
    = ((result, []), sv')"
proof -
  obtain result events sv' where p: "process_command demo_platform (demo_clock 20 9000) demo_session
      (demo_envelope\<lparr>ev_message := ''other-message-id''\<rparr>)
      (service_run demo_platform ascii_digit [Command (demo_clock 10 2000) demo_session demo_envelope, Detach 0] demo_service)
    = ((result, events), sv')" by (metis prod.collapse)
  have "events = []"
    by (rule conjunct1 [OF no_replay [OF demo_caches demo_accepted _ _ _ _ p]])
      (auto simp: prune_times_def demo_clock_def demo_cutoff)
  with p show ?thesis by blast
qed

text \<open>C9: a retry gets the answer of the first attempt. When a command was not itself answered
from the cache, then a later command of the same session with the same message id, after any
run of operations, gets the identical result, no events, and changes no device, no room
and no audit row, as long as no command has pruned entries that old, that is for 300
seconds. This holds whatever else the retry contains.\<close>

theorem retry_idempotent:
  assumes caches: "caches_ok sv" and new: "cached_answer rd session e sv = None"
    and first: "process_command pf rd session e sv = ((result, events), sv1)"
    and same: "cs_digest session' = cs_digest session" "ev_message e' = ev_message e"
    and recent: "still_open (rd_cache rd) (between @ [Command rd' session' e'])"
  shows "\<exists>sv2. process_command pf rd' session' e' (service_run pf isdigit between sv1) = ((result, []), sv2)
    \<and> sv_devices sv2 = sv_devices (service_run pf isdigit between sv1)"
proof -
  let ?sv = "service_run pf isdigit between sv1"
  have ok1: "caches_ok sv1" using step_caches(1) [OF caches, of pf isdigit "Command rd session e"] first by simp
  have open': "still_open (rd_cache rd) between" "cutoff_of rd' \<le> rd_cache rd"
    using recent by (auto simp: still_open_def prune_times_def cutoff_of_def)
  from first have "dict_get (sv_results sv1) (result_key session e) = Some (rd_cache rd, result)"
    by (cases rule: process_cases) (use new in \<open>simp_all add: dict_simps\<close>)
  from run_caches(2) [OF ok1 this open'(1), of pf isdigit]
  have "dict_get (sv_results ?sv) (result_key session' e') = Some (rd_cache rd, result)" using same by simp
  from results.kept_prune [OF _ this, of "cutoff_of rd'"] run_caches(1) [OF ok1, of pf isdigit between] open'(2)
  have c: "cached_answer rd' session' e' ?sv = Some (rd_cache rd, result)" by (simp add: cached_answer_def caches_ok_def)
  obtain r evs sv2 where p: "process_command pf rd' session' e' ?sv = ((r, evs), sv2)" by (metis prod.collapse)
  from p have "r = result \<and> evs = [] \<and> sv_devices sv2 = sv_devices ?sv"
    by (cases rule: process_cases) (use c in \<open>simp_all add: accepted_def\<close>)
  with p show ?thesis by blast
qed

theorem retry_idempotent_witness:
  "\<exists>result events sv1 sv2. process_command demo_platform (demo_clock 10 2000) demo_session demo_envelope demo_service = ((result, events), sv1)
    \<and> process_command demo_platform (demo_clock 20 9000) demo_session (demo_envelope\<lparr>ev_action := ''lock''\<rparr>) sv1 = ((result, []), sv2)"
proof -
  obtain result events sv1 where p: "process_command demo_platform (demo_clock 10 2000) demo_session demo_envelope demo_service
    = ((result, events), sv1)" by (metis prod.collapse)
  have new: "cached_answer (demo_clock 10 2000) demo_session demo_envelope demo_service = None"
    using demo_accepted by (simp add: accepted_def)
  have "still_open (rd_cache (demo_clock 10 2000)) ([] @ [Command (demo_clock 20 9000) demo_session (demo_envelope\<lparr>ev_action := ''lock''\<rparr>)])"
    by (simp add: cutoff_of_def demo_clock_def IDEMPOTENCY_WINDOW_SECONDS_def demo_cutoff still_open_def prune_times_def)
  from retry_idempotent [OF demo_caches new p _ _ this, of ascii_digit] p show ?thesis by auto
qed

section \<open>The audit log\<close>

abbreviation audit_rows :: "registry \<Rightarrow> (int \<times> audit_row) list" where
  "audit_rows rg \<equiv> tb_rows (st_audit (cx_storage (rg_cx rg)))"

lemma success_result_parts:
  "success_result rd e rg v = Inr (result, events) \<Longrightarrow> cr_success result \<and> cr_error result = None
     \<and> cr_message result = ev_message e \<and> cr_device result = ev_device e \<and> cr_action result = ev_action e"
  by (auto simp: success_result_def Let_def split: command_value.split_asm option.split_asm sum.split_asm)

lemma error_result_parts [simp]:
  "cr_success (error_result t e g) = False" "cr_error (error_result t e g) = Some g" "cr_details (error_result t e g) = None"
  "cr_message (error_result t e g) = ev_message e" "cr_device (error_result t e g) = ev_device e"
  "cr_action (error_result t e g) = ev_action e"
  by (simp_all add: error_result_def)

lemma run_command_step:
  assumes ok: "registry_ok rg" and run: "run_command pf rd session e rg = (result, events, rg')"
  shows "registry_step_ok rg rg' \<and> quiet rg rg' \<and> (cr_success result \<longleftrightarrow> cr_error result = None)
    \<and> cr_message result = ev_message e \<and> cr_device result = ev_device e \<and> cr_action result = ev_action e"
proof (cases "decrypt_payload pf (cs_key session) e")
  case (Inl x)
  with run have "rg' = rg" "result = error_result (rd_result rd) e (gateway_error_of x)" by (simp_all add: run_command_def Let_def)
  then show ?thesis by (simp add: registry_step_ok_refl ok)
next
  case (Inr p)
  obtain r rg2 where ex: "execute (rd_worlds rd) (ev_device e) (ev_action e) p (ev_expected e) rg = (r, rg2)"
    by (cases "execute (rd_worlds rd) (ev_device e) (ev_action e) p (ev_expected e) rg")
  have st: "registry_step_ok rg rg2" "quiet rg rg2" using execute_step [OF ok ex] by blast+
  show ?thesis
  proof (cases r)
    case (Inl x)
    with run Inr ex st show ?thesis by (auto simp: run_command_def Let_def)
  next
    case v: (Inr v)
    show ?thesis
    proof (cases "success_result rd e rg2 v")
      case (Inl x)
      with run Inr ex st v show ?thesis by (auto simp: run_command_def Let_def)
    next
      case y: (Inr y)
      obtain r2 evs2 where y2: "y = (r2, evs2)" by (cases y)
      have "result = r2" "rg' = rg2" using run Inr ex v y y2 by (simp_all add: run_command_def Let_def)
      with success_result_parts [OF y [unfolded y2]] st show ?thesis by simp
    qed
  qed
qed

lemma audited_rows [simp]:
  "audit_rows (audited rd session e result rg) = audit_rows rg @
     [(tb_last (st_audit (cx_storage (rg_cx rg))) + 1, \<lparr>ar_timestamp = rd_audit rd, ar_client = cs_client session,
        ar_device = ev_device e, ar_action = ev_action e, ar_result = (if cr_success result then ''success'' else ''failed''),
        ar_error = map_option err_code (cr_error result), ar_suffix = last8 (ev_message e),
        ar_details = map_option details_json (cr_details result)\<rparr>)]"
  by (simp add: audited_def in_storage_def)

lemma audited_ok: "registry_ok rg \<Longrightarrow> registry_ok (audited rd session e result rg)"
  by (simp add: audited_def in_storage_def registry_ok_parts context_ok_def)

lemma drained:
  "registry_ok rg \<Longrightarrow> registry_ok (snd (drain_alerts rg)) \<and> audit_rows (snd (drain_alerts rg)) = audit_rows rg"
  by (simp add: drain_alerts_def registry_ok_parts context_ok_def)

text \<open>C10: every command leaves exactly one trace. A command that is not answered from the cache,
whether it succeeds, fails in any way, or is refused as a replay, appends exactly one row to
the audit log: who sent it, what it asked of which device, whether it succeeded, with the code
of its error, and the last characters of its message id; a success has no error and every
failure has one, and the answer names the message, device and action of the command. A command
answered from the cache leaves the log as it is. The registry stays well formed.\<close>

theorem one_audit_row:
  assumes ok: "registry_ok (sv_devices sv)" and p: "process_command pf rd session e sv = ((result, events), sv')"
  shows "registry_ok (sv_devices sv')
    \<and> (if cached_answer rd session e sv \<noteq> None then audit_rows (sv_devices sv') = audit_rows (sv_devices sv)
       else (\<exists>n row. audit_rows (sv_devices sv') = audit_rows (sv_devices sv) @ [(n, row)]
           \<and> ar_client row = cs_client session \<and> ar_device row = ev_device e \<and> ar_action row = ev_action e
           \<and> ar_result row = (if cr_success result then ''success'' else ''failed'')
           \<and> ar_error row = map_option err_code (cr_error result) \<and> ar_suffix row = last8 (ev_message e))
         \<and> (cr_success result \<longleftrightarrow> cr_error result = None)
         \<and> cr_message result = ev_message e \<and> cr_device result = ev_device e \<and> cr_action result = ev_action e)"
  using p
proof (cases rule: process_cases)
  case (cached t)
  with ok show ?thesis by simp
next
  case refused
  with ok show ?thesis by (simp add: audited_ok replay_refusal_def)
next
  case (ran evs rg)
  note st = run_command_step [OF ok ran(2)]
  then have "registry_ok rg" by (simp add: registry_step_ok_def)
  note dr = drained [OF this]
  have rows: "audit_rows rg = audit_rows (sv_devices sv)" using st by (simp add: quiet_def)
  have "cached_answer rd session e sv = None" using ran(1) by (simp add: accepted_def)
  with st dr show ?thesis unfolding ran(6) by (simp add: audited_ok rows)
qed

theorem one_audit_row_witness:
  "\<exists>result events sv' n row. process_command demo_platform (demo_clock 10 2000) demo_session demo_envelope demo_service = ((result, events), sv')
    \<and> audit_rows (sv_devices sv') = audit_rows (sv_devices demo_service) @ [(n, row)] \<and> ar_device row = ''light-1''"
proof -
  obtain result events sv' where p: "process_command demo_platform (demo_clock 10 2000) demo_session demo_envelope demo_service
    = ((result, events), sv')" by (metis prod.collapse)
  have ok: "registry_ok (sv_devices demo_service)" by (simp add: demo_service_def one_light_ok)
  have "cached_answer (demo_clock 10 2000) demo_session demo_envelope demo_service = None"
    using demo_accepted by (simp add: accepted_def)
  moreover have "ev_device demo_envelope = ''light-1''" by (simp add: demo_envelope_def)
  ultimately show ?thesis using one_audit_row [OF ok p] p by auto
qed

section \<open>Forgetting is not observable\<close>

text \<open>The specification of the two windows is a gateway that forgets nothing: its caches are
  the whole histories, newest first, and a command looks only at what is not older than its
  cutoff.\<close>

definition recent :: "rat \<Rightarrow> ('v \<Rightarrow> rat) \<Rightarrow> ('k, 'v) dict \<Rightarrow> 'k \<Rightarrow> 'v option" where
  "recent t time_of h k = (case map_of h k of None \<Rightarrow> None | Some v \<Rightarrow> if t \<le> time_of v then Some v else None)"

definition remembering_command ::
  "platform \<Rightarrow> command_readings \<Rightarrow> client_session \<Rightarrow> envelope \<Rightarrow> service \<Rightarrow> (command_result \<times> event list) \<times> service" where
  "remembering_command pf rd session e sv =
     (let record_answer = (\<lambda>result sv. sv\<lparr>sv_results := (result_key session e, rd_cache rd, result) # sv_results sv,
            sv_devices := audited rd session e result (sv_devices sv)\<rparr>)
      in case recent (cutoff_of rd) fst (sv_results sv) (result_key session e) of
           Some (_, result) \<Rightarrow> ((result, []), sv)
         | None \<Rightarrow>
             if \<not> in_time rd e \<or> recent (cutoff_of rd) id (sv_nonces sv) (nonce_key session e) \<noteq> None
             then ((replay_refusal rd e, []), record_answer (replay_refusal rd e) sv)
             else (case run_command pf rd session e (sv_devices sv) of
                 (result, events, rg) \<Rightarrow>
                   ((result, events @ map AlertRaised (cx_pending (rg_cx rg))),
                    record_answer result (sv\<lparr>sv_nonces := (nonce_key session e, rd_nonce rd) # sv_nonces sv,
                      sv_devices := snd (drain_alerts rg)\<rparr>))))"

fun remembering_step :: "platform \<Rightarrow> (nat \<Rightarrow> bool) \<Rightarrow> service_op \<Rightarrow> service \<Rightarrow> service" where
  "remembering_step pf isdigit (Command rd session e) sv = snd (remembering_command pf rd session e sv)"
| "remembering_step pf isdigit x sv = service_step pf isdigit x sv"

fun answers :: "platform \<Rightarrow> (nat \<Rightarrow> bool) \<Rightarrow> service_op list \<Rightarrow> service \<Rightarrow> (command_result \<times> event list) list" where
  "answers pf isdigit [] sv = []"
| "answers pf isdigit (x # xs) sv =
     (case x of Command rd session e \<Rightarrow> [fst (process_command pf rd session e sv)] | _ \<Rightarrow> [])
     @ answers pf isdigit xs (service_step pf isdigit x sv)"

fun remembering_answers :: "platform \<Rightarrow> (nat \<Rightarrow> bool) \<Rightarrow> service_op list \<Rightarrow> service \<Rightarrow> (command_result \<times> event list) list" where
  "remembering_answers pf isdigit [] sv = []"
| "remembering_answers pf isdigit (x # xs) sv =
     (case x of Command rd session e \<Rightarrow> [fst (remembering_command pf rd session e sv)] | _ \<Rightarrow> [])
     @ remembering_answers pf isdigit xs (remembering_step pf isdigit x sv)"

fun ticking :: "rat \<Rightarrow> service_op list \<Rightarrow> bool" where
  \<comment> \<open>the monotonic readings of a run are doubles and do not go back\<close>
  "ticking t [] = True"
| "ticking t (x # xs) = (case x of
       Command rd _ _ \<Rightarrow> t \<le> rd_prune rd \<and> fl (rd_prune rd) = rd_prune rd \<and> rd_prune rd \<le> rd_nonce rd
         \<and> rd_prune rd \<le> rd_cache rd \<and> ticking (rd_prune rd) xs
     | _ \<Rightarrow> ticking t xs)"

definition remembers :: "rat \<Rightarrow> service \<Rightarrow> service \<Rightarrow> bool" where
  "remembers t lg sv \<longleftrightarrow> results.shows_since t (sv_results lg) (sv_results sv) \<and> nonces.shows_since t (sv_nonces lg) (sv_nonces sv)
     \<and> (\<exists>a b. sv = lg\<lparr>sv_results := a, sv_nonces := b\<rparr>)"

lemma remembersI:
  assumes "results.shows_since t (sv_results lg) (sv_results sv)" "nonces.shows_since t (sv_nonces lg) (sv_nonces sv)"
    and "sv_devices sv = sv_devices lg" "sv_sessions sv = sv_sessions lg" "sv_sinks sv = sv_sinks lg"
  shows "remembers t lg sv"
proof -
  have "sv = lg\<lparr>sv_results := sv_results sv, sv_nonces := sv_nonces sv\<rparr>" using assms(3-5) by simp
  with assms(1,2) show ?thesis unfolding remembers_def by blast
qed

lemma remembers_parts:
  assumes "remembers t lg sv"
  shows "results.shows_since t (sv_results lg) (sv_results sv)" "nonces.shows_since t (sv_nonces lg) (sv_nonces sv)"
    "sv_devices sv = sv_devices lg" "sv_sessions sv = sv_sessions lg" "sv_sinks sv = sv_sinks lg"
  using assms by (auto simp: remembers_def)

lemma cutoff_mono: "rd_prune rd \<le> rd_prune rd' \<Longrightarrow> cutoff_of rd \<le> cutoff_of rd'"
  by (simp add: cutoff_of_def fsub_def fl_mono)

lemma cutoff_le: "fl (rd_prune rd) = rd_prune rd \<Longrightarrow> cutoff_of rd \<le> rd_prune rd"
  using fl_mono [of "rd_prune rd - 300" "rd_prune rd"] by (simp add: cutoff_of_def fsub_def IDEMPOTENCY_WINDOW_SECONDS_def)

lemma process_sinks:
  "process_command pf rd session e sv = (y, sv') \<Longrightarrow> sv_sinks sv' = sv_sinks sv \<and> sv_sessions sv' = sv_sessions sv"
  by (auto simp: process_command_def Let_def audit_def cache_result_def prune_security_windows_def
      split: option.split_asm if_split_asm prod.split_asm)

lemma command_remembers:
  assumes rem: "remembers t lg sv" and t: "t \<le> cutoff_of rd" "cutoff_of rd \<le> rd_nonce rd" "cutoff_of rd \<le> rd_cache rd"
    and lp: "remembering_command pf rd session e lg = (ya, lg')" and sp: "process_command pf rd session e sv = (yc, sv')"
  shows "yc = ya \<and> remembers (cutoff_of rd) lg' sv'"
proof -
  note parts = remembers_parts [OF rem]
  note shown = results.shows_prune [OF parts(1) t(1)] nonces.shows_prune [OF parts(2) t(1)]
  have look: "cached_answer rd session e sv = recent (cutoff_of rd) fst (sv_results lg) (result_key session e)"
    "nonce_seen rd session e sv \<longleftrightarrow> recent (cutoff_of rd) id (sv_nonces lg) (nonce_key session e) \<noteq> None"
    using results.shows_get [OF shown(1)] nonces.shows_get [OF shown(2)]
    by (simp_all add: cached_answer_def nonce_seen_def recent_def)
  obtain result events where yc: "yc = (result, events)" by (cases yc)
  note sinks = process_sinks [OF sp]
  from sp [unfolded yc] show ?thesis
  proof (cases rule: process_cases)
    case (cached u)
    have "recent (cutoff_of rd) fst (sv_results lg) (result_key session e) = Some (u, result)"
      using cached(1) look(1) by simp
    with lp have "ya = (result, [])" "lg' = lg" by (simp_all add: remembering_command_def)
    with cached yc parts sinks shown show ?thesis by (auto intro: remembersI)
  next
    case refused
    have "recent (cutoff_of rd) fst (sv_results lg) (result_key session e) = None"
      "\<not> in_time rd e \<or> recent (cutoff_of rd) id (sv_nonces lg) (nonce_key session e) \<noteq> None"
      using refused(1,2) look by simp_all
    with lp refused(3) have "ya = (result, [])" "lg' = lg\<lparr>sv_results := (result_key session e, rd_cache rd, result) # sv_results lg,
        sv_devices := audited rd session e result (sv_devices lg)\<rparr>"
      by (simp_all add: remembering_command_def Let_def)
    with refused yc parts sinks shown t(3) results.shows_put [OF shown(1), of "(rd_cache rd, result)"] show ?thesis
      by (auto intro: remembersI)
  next
    case (ran evs rg)
    have "recent (cutoff_of rd) fst (sv_results lg) (result_key session e) = None"
      "in_time rd e" "recent (cutoff_of rd) id (sv_nonces lg) (nonce_key session e) = None"
      using ran(1) look by (simp_all add: accepted_def)
    with ran have "ya = (result, events)" "lg' = lg\<lparr>sv_nonces := (nonce_key session e, rd_nonce rd) # sv_nonces lg,
        sv_results := (result_key session e, rd_cache rd, result) # sv_results lg,
        sv_devices := audited rd session e result (snd (drain_alerts rg))\<rparr>"
      using lp parts(3) by (simp_all add: remembering_command_def Let_def)
    with ran yc parts sinks t results.shows_put [OF shown(1), of "(rd_cache rd, result)"] nonces.shows_put [OF shown(2), of "rd_nonce rd"]
    show ?thesis by (auto intro: remembersI)
  qed
qed

lemma remove_sinks_caches:
  "fold remove_sink ss (sv\<lparr>sv_results := a, sv_nonces := b\<rparr>) = (fold remove_sink ss sv)\<lparr>sv_results := a, sv_nonces := b\<rparr>"
proof (induction ss arbitrary: sv)
  case (Cons s ss)
  have "remove_sink s (sv\<lparr>sv_results := a, sv_nonces := b\<rparr>) = (remove_sink s sv)\<lparr>sv_results := a, sv_nonces := b\<rparr>"
    by (simp add: remove_sink_def)
  with Cons show ?case by simp
qed simp

lemma broadcast_caches:
  "broadcast takes ev (sv\<lparr>sv_results := a, sv_nonces := b\<rparr>)
   = (fst (broadcast takes ev sv), (snd (broadcast takes ev sv))\<lparr>sv_results := a, sv_nonces := b\<rparr>)"
  by (simp add: broadcast_def remove_sinks_caches)

lemma broadcast_states_caches:
  "broadcast_states takes stamps n ps (sv\<lparr>sv_results := a, sv_nonces := b\<rparr>)
   = (fst (broadcast_states takes stamps n ps sv), (snd (broadcast_states takes stamps n ps sv))\<lparr>sv_results := a, sv_nonces := b\<rparr>)"
  by (induction takes stamps n ps sv rule: broadcast_states.induct)
    (auto simp: broadcast_caches split: sum.split prod.split)

lemma other_step_caches:
  assumes "\<forall>rd session e. x \<noteq> Command rd session e"
  shows "service_step pf isdigit x (sv\<lparr>sv_results := a, sv_nonces := b\<rparr>) = (service_step pf isdigit x sv)\<lparr>sv_results := a, sv_nonces := b\<rparr>"
proof (cases x)
  case (Telemetry ws takes stamps wall)
  obtain r rg where t: "tick ws (sv_devices sv) = (r, rg)" by (cases "tick ws (sv_devices sv)")
  show ?thesis
  proof (cases r)
    case (Inr changed)
    have sw: "sv\<lparr>sv_results := a, sv_nonces := b, sv_devices := rg\<rparr> = (sv\<lparr>sv_devices := rg\<rparr>)\<lparr>sv_results := a, sv_nonces := b\<rparr>"
      by simp
    obtain q sv' where q: "broadcast_states takes stamps 0 changed (sv\<lparr>sv_devices := rg\<rparr>) = (q, sv')"
      by (cases "broadcast_states takes stamps 0 changed (sv\<lparr>sv_devices := rg\<rparr>)")
    have q2: "broadcast_states takes stamps 0 changed (sv\<lparr>sv_results := a, sv_nonces := b, sv_devices := rg\<rparr>)
        = (q, sv'\<lparr>sv_results := a, sv_nonces := b\<rparr>)"
      unfolding sw broadcast_states_caches q by simp
    show ?thesis using t q q2 Inr Telemetry by (cases q) (simp_all add: telemetry_step_def)
  qed (use t Telemetry in \<open>simp add: telemetry_step_def\<close>)
qed (use assms in \<open>auto simp: service_create_room_def register_device_def delete_device_def audit_success_def add_sink_def
      remove_sink_def split: prod.split sum.split\<close>)

lemma other_remembers:
  assumes "remembers t lg sv" "\<forall>rd session e. x \<noteq> Command rd session e"
  shows "remembers t (service_step pf isdigit x lg) (service_step pf isdigit x sv)"
proof -
  from assms(1) obtain a b where sv: "sv = lg\<lparr>sv_results := a, sv_nonces := b\<rparr>" by (auto simp: remembers_def)
  have "service_step pf isdigit x sv = (service_step pf isdigit x lg)\<lparr>sv_results := a, sv_nonces := b\<rparr>"
    unfolding sv by (rule other_step_caches [OF assms(2)])
  with remembers_parts(1,2) [OF assms(1)] other_caches [OF assms(2), of pf isdigit lg] sv show ?thesis
    unfolding remembers_def by auto
qed

lemma remembering_run:
  assumes "remembers u lg sv" "\<forall>rd. t \<le> rd_prune rd \<longrightarrow> u \<le> cutoff_of rd" "ticking t xs"
  shows "answers pf isdigit xs sv = remembering_answers pf isdigit xs lg"
  using assms
proof (induction xs arbitrary: t u lg sv)
  case (Cons x xs)
  show ?case
  proof (cases "\<exists>rd session e. x = Command rd session e")
    case False
    then have nc: "\<forall>rd session e. x \<noteq> Command rd session e" by blast
    have "remembering_step pf isdigit x lg = service_step pf isdigit x lg" using nc by (cases x) simp_all
    moreover have "ticking t xs" using Cons.prems(3) nc by (cases x) simp_all
    ultimately have "answers pf isdigit xs (service_step pf isdigit x sv)
        = remembering_answers pf isdigit xs (remembering_step pf isdigit x lg)"
      using Cons.IH [OF other_remembers [OF Cons.prems(1) nc] Cons.prems(2)] by simp
    then show ?thesis using nc by (cases x) simp_all
  next
    case True
    then obtain rd session e where x: "x = Command rd session e" by blast
    obtain ya lg' where lp: "remembering_command pf rd session e lg = (ya, lg')" by (cases "remembering_command pf rd session e lg")
    obtain yc sv' where sp: "process_command pf rd session e sv = (yc, sv')" by (cases "process_command pf rd session e sv")
    have tk: "t \<le> rd_prune rd" "cutoff_of rd \<le> rd_nonce rd" "cutoff_of rd \<le> rd_cache rd" "ticking (rd_prune rd) xs"
      using Cons.prems(3) cutoff_le [of rd] x by auto
    have u: "u \<le> cutoff_of rd" using Cons.prems(2) tk(1) by blast
    note st = command_remembers [OF Cons.prems(1) u tk(2,3) lp sp]
    have "answers pf isdigit xs sv' = remembering_answers pf isdigit xs lg'"
      by (rule Cons.IH [OF conjunct2 [OF st] _ tk(4)]) (blast intro: cutoff_mono)
    with st lp sp x show ?thesis by simp
  qed
qed simp



end
