(* ===== verification/Config.thy ===== *)
theory Config
  imports Models
begin

text \<open>
  \<open>config.py\<close>: the settings of the gateway, how they are read from the environment, and the
  checks that keep an unsafe configuration from starting. Paths are strings; whether a path
  is a file is a reading of the file system, and the conversions \<open>int(s)\<close> and \<open>float(s)\<close> of the
  standard library are arguments.
\<close>

section \<open>Settings\<close>

record config =
  cf_host :: string
  cf_port :: int
  cf_admin_host :: string
  cf_admin_port :: int
  cf_tls_cert :: string
  cf_tls_key :: string
  cf_database :: string
  cf_signing_key :: "string option"
  cf_initial_code :: "string option"
  cf_ttl :: int
  cf_admin_token :: string
  cf_telemetry_interval :: rat
  cf_background :: bool
  cf_mqtt_enabled :: bool
  cf_mqtt_host :: string
  cf_mqtt_port :: int
  cf_mqtt_ca :: string
  cf_client_cert :: "string option"
  cf_client_key :: "string option"
  cf_username :: string
  cf_password :: string
  cf_prefix :: string
  cf_max_message :: int

definition optional_path :: "string option \<Rightarrow> string option" where
  "optional_path value = (case value of None \<Rightarrow> None | Some v \<Rightarrow> if v = [] then None else Some v)"

definition getenv :: "(string \<Rightarrow> string option) \<Rightarrow> string \<Rightarrow> string \<Rightarrow> string" where
  "getenv env k fallback = (case env k of None \<Rightarrow> fallback | Some v \<Rightarrow> v)"

definition lower_ascii :: "string \<Rightarrow> string" where
  \<comment> \<open>\<open>str.lower\<close>, as far as the comparison with three ASCII words can tell\<close>
  "lower_ascii s = map (\<lambda>c. let n = of_char c :: nat in if 65 \<le> n \<and> n \<le> 90 then char_of (n + 32) else c) s"

definition from_env ::
  "(string \<Rightarrow> int option) \<Rightarrow> (string \<Rightarrow> rat option) \<Rightarrow> string \<Rightarrow> (string \<Rightarrow> string option) \<Rightarrow> config option" where
  \<comment> \<open>\<open>token\<close> is the random default of the admin token; \<open>None\<close> is the \<open>ValueError\<close> of a
     number that does not parse\<close>
  "from_env to_int to_float token env =
     (case (to_int (getenv env ''DEVCONTROL_PORT'' ''8443''), to_int (getenv env ''DEVCONTROL_ADMIN_PORT'' ''18444''),
            to_int (getenv env ''DEVCONTROL_CREDENTIAL_TTL_SECONDS'' ''86400''),
            to_float (getenv env ''DEVCONTROL_TELEMETRY_INTERVAL'' ''2''),
            to_int (getenv env ''DEVCONTROL_MQTT_PORT'' ''8883''),
            to_int (getenv env ''DEVCONTROL_MAX_TRANSPORT_MESSAGE_BYTES'' ''65536'')) of
        (Some port, Some admin_port, Some ttl, Some interval, Some mqtt_port, Some max_message) \<Rightarrow>
          Some \<lparr>cf_host = getenv env ''DEVCONTROL_HOST'' ''0.0.0.0'', cf_port = port,
            cf_admin_host = ''127.0.0.1'', cf_admin_port = admin_port,
            cf_tls_cert = getenv env ''DEVCONTROL_TLS_CERT'' ''certs/gateway.crt'',
            cf_tls_key = getenv env ''DEVCONTROL_TLS_KEY'' ''certs/gateway.key'',
            cf_database = getenv env ''DEVCONTROL_DATABASE'' ''data/devcontrol.db'',
            cf_signing_key = optional_path (env ''DEVCONTROL_PROVISIONING_SIGNING_KEY''),
            cf_initial_code = env ''DEVCONTROL_INITIAL_PAIRING_CODE'', cf_ttl = ttl,
            cf_admin_token = getenv env ''DEVCONTROL_ADMIN_TOKEN'' token,
            cf_telemetry_interval = interval, cf_background = True,
            cf_mqtt_enabled = lower_ascii (getenv env ''DEVCONTROL_MQTT_ENABLED'' ''false'') \<in> {''1'', ''true'', ''yes''},
            cf_mqtt_host = getenv env ''DEVCONTROL_MQTT_HOST'' [], cf_mqtt_port = mqtt_port,
            cf_mqtt_ca = getenv env ''DEVCONTROL_MQTT_CA'' ''certs/mqtt-ca.crt'',
            cf_client_cert = optional_path (env ''DEVCONTROL_MQTT_CLIENT_CERT''),
            cf_client_key = optional_path (env ''DEVCONTROL_MQTT_CLIENT_KEY''),
            cf_username = getenv env ''DEVCONTROL_MQTT_USERNAME'' [],
            cf_password = getenv env ''DEVCONTROL_MQTT_PASSWORD'' [],
            cf_prefix = getenv env ''DEVCONTROL_MQTT_TOPIC_PREFIX'' ''devcontrol/v1'',
            cf_max_message = max_message\<rparr>
      | _ \<Rightarrow> None)"

section \<open>Checks\<close>

definition prefix_pattern :: "string \<Rightarrow> bool" where
  "prefix_pattern s \<longleftrightarrow> (case s of [] \<Rightarrow> False | c # cs \<Rightarrow> (ascii_letter c \<or> is_digit c) \<and> length cs \<le> 126
     \<and> list_all (\<lambda>x. ascii_letter x \<or> is_digit x \<or> x \<in> set ''_/-'') cs)"

fun has_double_slash :: "string \<Rightarrow> bool" where
  "has_double_slash (a # b # s) = (a = CHR ''/'' \<and> b = CHR ''/'' \<or> has_double_slash (b # s))"
| "has_double_slash _ = False"

definition blank :: "string \<Rightarrow> bool" where
  \<comment> \<open>\<open>not s.strip()\<close> of a host name\<close>
  "blank s \<longleftrightarrow> list_all (\<lambda>c. whitespace (of_char c)) s"

definition validate_config :: "(string \<Rightarrow> bool) \<Rightarrow> config \<Rightarrow> py_exc + unit" where
  "validate_config is_file c =
     (if cf_ttl c \<le> 0 then Inl ValueError
      else if \<not> (1024 \<le> cf_max_message c \<and> cf_max_message c \<le> 1024 * 1024) then Inl ValueError
      else if \<not> cf_mqtt_enabled c then Inr ()
      else if blank (cf_mqtt_host c) then Inl ValueError
      else if \<not> (1 \<le> cf_mqtt_port c \<and> cf_mqtt_port c \<le> 65535) then Inl ValueError
      else if \<not> is_file (cf_mqtt_ca c) then Inl ValueError
      else if (cf_client_cert c = None) \<noteq> (cf_client_key c = None) then Inl ValueError
      else if (case (cf_client_cert c, cf_client_key c) of (Some cert, Some key) \<Rightarrow> \<not> is_file cert \<or> \<not> is_file key | _ \<Rightarrow> False)
        then Inl ValueError
      else if \<not> (cf_client_cert c \<noteq> None \<and> cf_client_key c \<noteq> None) \<and> \<not> (cf_username c \<noteq> [] \<and> cf_password c \<noteq> [])
        then Inl ValueError
      else if \<not> prefix_pattern (cf_prefix c) then Inl ValueError
      else if last (cf_prefix c) = CHR ''/'' \<or> has_double_slash (cf_prefix c) then Inl ValueError
      else Inr ())"

definition command_topic :: "config \<Rightarrow> string" where
  "command_topic c = cf_prefix c @ ''/commands''"

section \<open>Topics\<close>

text \<open>A topic the broker reads as its levels: none is empty and none has a wildcard.\<close>

definition topic_ok :: "string \<Rightarrow> bool" where
  "topic_ok t \<longleftrightarrow> list_all (\<lambda>level. level \<noteq> [] \<and> CHR ''+'' \<notin> set level \<and> CHR ''#'' \<notin> set level) (split_on (CHR ''/'') t)"

lemma split_on_ne [simp]: "split_on c s \<noteq> []"
  by (induction s) (auto split: list.split)

lemma split_on_append: "split_on c (xs @ c # ys) = split_on c xs @ split_on c ys"
proof (induction xs)
  case (Cons x xs)
  obtain w ws where "split_on c xs = w # ws" by (meson list.exhaust split_on_ne)
  with Cons show ?case by simp
qed simp

lemma topic_ok_append: "topic_ok s \<Longrightarrow> topic_ok t \<Longrightarrow> topic_ok (s @ ''/'' @ t)"
  using split_on_append [of "CHR ''/''" s t] by (simp add: topic_ok_def)

lemma split_on_chars: "w \<in> set (split_on c s) \<Longrightarrow> set w \<subseteq> set s"
proof (induction s arbitrary: w)
  case (Cons x s)
  obtain v vs where v: "split_on c s = v # vs" by (meson list.exhaust split_on_ne)
  have "set v \<subseteq> set s" using Cons.IH [of v] v by simp
  moreover have "set w \<subseteq> set s" if "w \<in> set vs" using Cons.IH [of w] v that by simp
  ultimately show ?case using Cons.prems Cons.IH [of w] v by (fastforce split: if_split_asm)
qed simp

lemma split_on_hd: "hd (split_on c (x # xs)) = [] \<longleftrightarrow> x = c"
  by (auto split: list.split)

lemma split_on_tl:
  "last s \<noteq> CHR ''/'' \<Longrightarrow> \<not> has_double_slash s \<Longrightarrow> [] \<notin> set (tl (split_on (CHR ''/'') s))"
proof (induction s rule: has_double_slash.induct)
  case (1 a b s)
  then have ih: "[] \<notin> set (tl (split_on (CHR ''/'') (b # s)))" by simp
  obtain w ws where sp: "split_on (CHR ''/'') (b # s) = w # ws" by (meson list.exhaust split_on_ne)
  show ?case
  proof (cases "a = CHR ''/''")
    case True
    then have "b \<noteq> CHR ''/''" using 1(3) by simp
    then have "w \<noteq> []" using split_on_hd [of "CHR ''/''" b s] sp by simp
    with ih sp True show ?thesis unfolding split_on.simps(2) [of _ a] by simp
  next
    case False
    with ih sp show ?thesis unfolding split_on.simps(2) [of _ a] by simp
  qed
qed auto

lemma prefix_topic_ok:
  assumes "prefix_pattern p" "last p \<noteq> CHR ''/''" "\<not> has_double_slash p"
  shows "topic_ok p"
proof -
  obtain c cs where p: "p = c # cs" "ascii_letter c \<or> is_digit c" "list_all (\<lambda>x. ascii_letter x \<or> is_digit x \<or> x \<in> set ''_/-'') cs"
    using assms(1) by (auto simp: prefix_pattern_def split: list.split_asm)
  have c: "c \<noteq> CHR ''/''" "c \<noteq> CHR ''+''" "c \<noteq> CHR ''#''"
    using p(2) by (auto simp: ascii_letter_def is_digit_def)
  have cs: "CHR ''+'' \<notin> set cs" "CHR ''#'' \<notin> set cs"
    using p(3) by (auto simp: list_all_iff ascii_letter_def is_digit_def)
  have "hd (split_on (CHR ''/'') p) \<noteq> []" using split_on_hd [of "CHR ''/''" c cs] c(1) p(1) by simp
  then have "[] \<notin> set (split_on (CHR ''/'') p)"
    using split_on_tl [OF assms(2,3)] by (metis list.collapse set_ConsD split_on_ne)
  moreover have "CHR ''+'' \<notin> set w \<and> CHR ''#'' \<notin> set w" if "w \<in> set (split_on (CHR ''/'') p)" for w
    using split_on_chars [OF that] p(1) c(2,3) cs by auto
  ultimately show ?thesis by (auto simp: topic_ok_def list_all_iff)
qed

text \<open>C27: a configuration that passes the checks is safe to start. Its limits are in their
ranges; and if it talks to a broker, then the port is one, the broker's authority is a file,
the gateway authenticates itself by a certificate with its key or by a password, and every
topic it publishes or subscribes to under its prefix is well formed, with no empty level
and no wildcard, whatever well-formed rest follows the prefix.\<close>

theorem validated_config:
  assumes "validate_config is_file c = Inr ()"
  shows "0 < cf_ttl c \<and> 1024 \<le> cf_max_message c \<and> cf_max_message c \<le> 1048576
    \<and> (cf_mqtt_enabled c \<longrightarrow> 1 \<le> cf_mqtt_port c \<and> cf_mqtt_port c \<le> 65535 \<and> is_file (cf_mqtt_ca c)
      \<and> ((\<exists>cert key. cf_client_cert c = Some cert \<and> cf_client_key c = Some key \<and> is_file cert \<and> is_file key)
         \<or> cf_client_cert c = None \<and> cf_client_key c = None \<and> cf_username c \<noteq> [] \<and> cf_password c \<noteq> [])
      \<and> topic_ok (command_topic c) \<and> (\<forall>rest. topic_ok rest \<longrightarrow> topic_ok (cf_prefix c @ ''/'' @ rest)))"
proof -
  have b: "0 < cf_ttl c" "1024 \<le> cf_max_message c" "cf_max_message c \<le> 1048576"
    using assms by (auto simp: validate_config_def split: if_split_asm)
  have m: "1 \<le> cf_mqtt_port c \<and> cf_mqtt_port c \<le> 65535 \<and> is_file (cf_mqtt_ca c)
      \<and> ((\<exists>cert key. cf_client_cert c = Some cert \<and> cf_client_key c = Some key \<and> is_file cert \<and> is_file key)
         \<or> cf_client_cert c = None \<and> cf_client_key c = None \<and> cf_username c \<noteq> [] \<and> cf_password c \<noteq> [])
      \<and> topic_ok (cf_prefix c)" if "cf_mqtt_enabled c"
    using assms that prefix_topic_ok [of "cf_prefix c"]
    by (auto simp: validate_config_def split: if_split_asm option.split_asm)
  have "topic_ok ''commands''" by (simp add: topic_ok_def)
  with b m show ?thesis using topic_ok_append by (auto simp: command_topic_def)
qed

definition demo_config :: config where
  "demo_config = \<lparr>cf_host = ''0.0.0.0'', cf_port = 8443, cf_admin_host = ''127.0.0.1'', cf_admin_port = 18444,
     cf_tls_cert = ''crt'', cf_tls_key = ''key'', cf_database = ''db'', cf_signing_key = None, cf_initial_code = None,
     cf_ttl = 86400, cf_admin_token = ''t'', cf_telemetry_interval = 2, cf_background = True, cf_mqtt_enabled = True,
     cf_mqtt_host = ''broker'', cf_mqtt_port = 8883, cf_mqtt_ca = ''ca'', cf_client_cert = None, cf_client_key = None,
     cf_username = ''user'', cf_password = ''secret'', cf_prefix = ''dev/v1'', cf_max_message = 65536\<rparr>"

theorem validated_config_witness:
  "validate_config (\<lambda>p. p = ''ca'') demo_config = Inr () \<and> topic_ok (command_topic demo_config)"
proof -
  have v: "validate_config (\<lambda>p. p = ''ca'') demo_config = Inr ()"
    by (simp add: validate_config_def demo_config_def blank_def whitespace_def prefix_pattern_def ascii_letter_def is_digit_def)
  moreover have "cf_mqtt_enabled demo_config" by (simp add: demo_config_def)
  ultimately show ?thesis using validated_config [OF v] by blast
qed

end
