(* ===== verification/Transport.thy ===== *)
theory Transport
  imports ServiceRuns Config
begin

text \<open>
  The front ends: the guard on request bodies, the bearer token, the command routes of
  \<open>app.py\<close> (HTTPS and WebSocket), its event queue, and the bridge of \<open>mqtt_transport.py\<close>.
  Frameworks, sockets and the broker's client are outside: a route is a function of the
  request it is given. Validation of an envelope by pydantic is the argument \<open>parse\<close>.
\<close>

section \<open>The limit on request bodies\<close>

record scope =
  sc_type :: string
  sc_path :: string
  sc_method :: string
  sc_headers :: "(string \<times> string) list"

datatype message = Disconnect | Body string bool | OtherMessage

datatype body_outcome =
    PassThrough
  | TooLarge
  | Dropped
  | Waiting
  | Deliver string "message list"

definition byte_space :: "char \<Rightarrow> bool" where
  "byte_space c \<longleftrightarrow> (let n = of_char c :: nat in 9 \<le> n \<and> n \<le> 13 \<or> n = 32)"

fun scan_digits :: "bool \<Rightarrow> string \<Rightarrow> string option" where
  \<comment> \<open>digits with single underscores between them; the flag: the last character was a digit\<close>
  "scan_digits after [] = (if after then Some [] else None)"
| "scan_digits after (c # cs) =
     (if is_digit c then map_option ((#) c) (scan_digits True cs)
      else if c = CHR ''_'' \<and> after then scan_digits False cs else None)"

definition strip_bytes :: "string \<Rightarrow> string" where
  "strip_bytes s = rev (dropWhile byte_space (rev (dropWhile byte_space s)))"

definition int_of_bytes :: "string \<Rightarrow> int option" where
  \<comment> \<open>\<open>int(b)\<close> of a byte string; \<open>None\<close> is its \<open>ValueError\<close>\<close>
  "int_of_bytes s =
     (let t = strip_bytes s;
          (sign, body) = (case t of [] \<Rightarrow> (1, t)
            | c # cs \<Rightarrow> if c = CHR ''-'' then (- 1, cs) else if c = CHR ''+'' then (1, cs) else (1, t))
      in case scan_digits False body of None \<Rightarrow> None
         | Some ds \<Rightarrow> if 4300 < length ds then None else Some (sign * int (digits_value ds)))"

definition lower_bytes :: "string \<Rightarrow> string" where
  "lower_bytes = lower_ascii"

definition guarded :: "scope \<Rightarrow> bool" where
  "guarded sc \<longleftrightarrow> sc_type sc = ''http'' \<and> take 5 (sc_path sc) = ''/api/'' \<and> sc_method sc \<in> {''POST'', ''PUT'', ''PATCH''}"

definition declared_size :: "int \<Rightarrow> scope \<Rightarrow> int option" where
  "declared_size limit sc = (case find (\<lambda>(name, value). lower_bytes name = ''content-length'') (sc_headers sc) of
       None \<Rightarrow> None
     | Some (_, value) \<Rightarrow> Some (case int_of_bytes value of None \<Rightarrow> limit + 1 | Some n \<Rightarrow> n))"

fun collect_body :: "int \<Rightarrow> int \<Rightarrow> string list \<Rightarrow> message list \<Rightarrow> body_outcome" where
  \<comment> \<open>the loop over \<open>receive()\<close>; \<open>Waiting\<close>: the client has sent nothing more yet\<close>
  "collect_body limit received chunks [] = Waiting"
| "collect_body limit received chunks (Disconnect # ms) = Dropped"
| "collect_body limit received chunks (OtherMessage # ms) = collect_body limit received chunks ms"
| "collect_body limit received chunks (Body chunk more_body # ms) =
     (let received' = received + int (length chunk) in
      if limit < received' then TooLarge
      else if more_body then collect_body limit received' (chunks @ [chunk]) ms
      else Deliver (concat (chunks @ [chunk])) ms)"

definition limit_body :: "int \<Rightarrow> scope \<Rightarrow> message list \<Rightarrow> body_outcome" where
  "limit_body limit sc ms =
     (if \<not> guarded sc then PassThrough
      else case declared_size limit sc of
        Some n \<Rightarrow> if limit < n then TooLarge else collect_body limit 0 [] ms
      | None \<Rightarrow> collect_body limit 0 [] ms)"

definition too_large_response :: "int \<times> pyval" where
  "too_large_response = (413, PDict [(''error'', PDict [(''code'', PStr ''INVALID_COMMAND''), (''message'', PText m_body_large)])])"

section \<open>Response headers\<close>

definition set_header :: "string \<Rightarrow> string \<Rightarrow> (string \<times> string) list \<Rightarrow> (string \<times> string) list" where
  \<comment> \<open>\<open>MutableHeaders.__setitem__\<close> on lower-case names: the first entry is replaced, others removed\<close>
  "set_header k v hs = (if k \<in> fst ` set hs
     then (let before = takeWhile (\<lambda>(n, _). n \<noteq> k) hs; after = dropWhile (\<lambda>(n, _). n \<noteq> k) hs
           in before @ (k, v) # filter (\<lambda>(n, _). n \<noteq> k) (tl after))
     else hs @ [(k, v)])"

definition security_headers :: "scope \<Rightarrow> (string \<times> string) list \<Rightarrow> (string \<times> string) list" where
  "security_headers sc hs =
     (if sc_type sc = ''http'' \<and> take 5 (sc_path sc) = ''/api/''
      then set_header ''referrer-policy'' ''no-referrer''
        (set_header ''x-content-type-options'' ''nosniff''
          (set_header ''strict-transport-security'' ''max-age=31536000; includeSubDomains''
            (set_header ''cache-control'' ''no-store'' hs)))
      else hs)"

section \<open>Authentication of a request\<close>

definition strip_latin :: "string \<Rightarrow> string" where
  "strip_latin s = rev (dropWhile (\<lambda>c. whitespace (of_char c)) (rev (dropWhile (\<lambda>c. whitespace (of_char c)) s)))"

definition extract_bearer :: "string option \<Rightarrow> exn + string" where
  \<comment> \<open>header values are Latin-1 texts\<close>
  "extract_bearer authorization = (case authorization of
       None \<Rightarrow> Inl (auth_failed m_no_bearer)
     | Some a \<Rightarrow> if take 7 a \<noteq> ''Bearer '' then Inl (auth_failed m_no_bearer)
         else (let credential = strip_latin (drop 7 a) in
           if credential = [] then Inl (auth_failed m_empty_bearer) else Inr credential))"

definition require_session :: "platform \<Rightarrow> int \<Rightarrow> string option \<Rightarrow> sessions \<Rightarrow> (client_session, sessions) outcome" where
  "require_session pf wall authorization ss = (case extract_bearer authorization of
       Inl x \<Rightarrow> (Inl x, ss) | Inr credential \<Rightarrow> authenticate pf wall credential ss)"

definition require_admin :: "string \<Rightarrow> string option \<Rightarrow> exn + unit" where
  "require_admin admin_token x_admin_token =
     (if x_admin_token \<noteq> Some admin_token then Inl (auth_failed m_admin_token) else Inr ())"

definition error_response :: "gateway_error \<Rightarrow> int \<times> pyval \<times> (string \<times> string) list" where
  \<comment> \<open>\<open>gateway_error_handler\<close>: status, body and headers\<close>
  "error_response e = (err_status e, to_dict e,
     (case err_retry e of None \<Rightarrow> [] | Some n \<Rightarrow> [(''Retry-After'', show_int n)]))"

section \<open>The command routes\<close>

definition broadcast_all :: "(nat \<Rightarrow> bool) \<Rightarrow> event list \<Rightarrow> service \<Rightarrow> service" where
  "broadcast_all takes evs sv = fold (\<lambda>ev s. snd (broadcast takes ev s)) evs sv"

definition http_command ::
  "platform \<Rightarrow> (nat \<Rightarrow> bool) \<Rightarrow> int \<Rightarrow> command_readings \<Rightarrow> string option \<Rightarrow> envelope \<Rightarrow> service \<Rightarrow> (command_result, service) outcome" where
  "http_command pf takes wall rd authorization e sv = (case require_session pf wall authorization (sv_sessions sv) of
       (Inl x, ss) \<Rightarrow> (Inl x, sv\<lparr>sv_sessions := ss\<rparr>)
     | (Inr session, ss) \<Rightarrow> (case process_command pf rd session e (sv\<lparr>sv_sessions := ss\<rparr>) of
         ((result, events), sv') \<Rightarrow> (Inr result, broadcast_all takes events sv')))"

datatype ws_answer = WsResult command_result | WsInvalid pyval | WsClosed

definition ws_message_id :: "pyval \<Rightarrow> pyval" where
  \<comment> \<open>\<open>raw.get("messageId", "") if isinstance(raw, dict) else ""\<close>\<close>
  "ws_message_id raw = (case raw of PDict d \<Rightarrow> (case dict_get d ''messageId'' of None \<Rightarrow> PStr [] | Some v \<Rightarrow> v) | _ \<Rightarrow> PStr [])"

definition ws_command ::
  "platform \<Rightarrow> (pyval \<Rightarrow> envelope option) \<Rightarrow> (nat \<Rightarrow> bool) \<Rightarrow> int \<Rightarrow> command_readings \<Rightarrow> string \<Rightarrow> pyval \<Rightarrow> service
   \<Rightarrow> ws_answer \<times> service" where
  \<comment> \<open>one message of the WebSocket loop, from the second authentication on\<close>
  "ws_command pf parse takes wall rd credential raw sv = (case authenticate pf wall credential (sv_sessions sv) of
       (Inl x, ss) \<Rightarrow> (WsClosed, sv\<lparr>sv_sessions := ss\<rparr>)
     | (Inr session, ss) \<Rightarrow> (case parse raw of
         None \<Rightarrow> (WsInvalid (ws_message_id raw), sv\<lparr>sv_sessions := ss\<rparr>)
       | Some e \<Rightarrow> (case process_command pf rd session e (sv\<lparr>sv_sessions := ss\<rparr>) of
           ((result, events), sv') \<Rightarrow> (WsResult result, broadcast_all takes events sv'))))"

section \<open>MQTT\<close>

datatype published = ResultPublished command_result | EventPublished event

record publication =
  pu_topic :: string
  pu_value :: published
  pu_qos :: nat
  pu_retain :: bool

definition mqtt_command ::
  "platform \<Rightarrow> (pyval \<Rightarrow> envelope option) \<Rightarrow> config \<Rightarrow> int \<Rightarrow> command_readings \<Rightarrow> string \<Rightarrow> service
   \<Rightarrow> (client_session \<times> command_result \<times> event list) option \<times> service" where
  \<comment> \<open>the message up to the answer of the gateway; \<open>None\<close> is the early return\<close>
  "mqtt_command pf parse c wall rd payload sv =
     (if cf_max_message c < int (length payload) then (None, sv)
      else case pf_json_loads pf payload of
        Inr (PDict raw) \<Rightarrow>
          if py_get raw ''protocolVersion'' \<noteq> PStr ''1.0'' then (None, sv)
          else (case (py_get raw ''credential'', py_get raw ''command'') of
              (PStr credential, PDict command) \<Rightarrow>
                (case authenticate pf wall credential (sv_sessions sv) of
                   (Inl x, ss) \<Rightarrow> (None, sv\<lparr>sv_sessions := ss\<rparr>)
                 | (Inr session, ss) \<Rightarrow>
                     (case parse (PDict command) of
                        None \<Rightarrow> (None, sv\<lparr>sv_sessions := ss\<rparr>)
                      | Some e \<Rightarrow>
                          (case process_command pf rd session e (sv\<lparr>sv_sessions := ss\<rparr>) of
                             ((result, events), sv') \<Rightarrow> (Some (session, result, events), sv'))))
            | _ \<Rightarrow> (None, sv))
      | _ \<Rightarrow> (None, sv))"

definition handle_message ::
  "platform \<Rightarrow> (pyval \<Rightarrow> envelope option) \<Rightarrow> config \<Rightarrow> (nat \<Rightarrow> bool) \<Rightarrow> int \<Rightarrow> command_readings \<Rightarrow> string \<Rightarrow> service
   \<Rightarrow> publication list \<times> service" where
  \<comment> \<open>with a client that takes what is published; \<open>takes\<close> are the sinks that take the events\<close>
  "handle_message pf parse c takes wall rd payload sv =
     (case mqtt_command pf parse c wall rd payload sv of
        (None, sv') \<Rightarrow> ([], sv')
      | (Some (session, result, events), sv') \<Rightarrow>
          ([\<lparr>pu_topic = cf_prefix c @ ''/clients/'' @ cs_digest session @ ''/results'',
             pu_value = ResultPublished result, pu_qos = 1, pu_retain = False\<rparr>],
           broadcast_all takes events sv'))"

definition event_type :: "event \<Rightarrow> string" where
  "event_type ev = (case ev of StateChanged _ _ _ _ \<Rightarrow> ''state.changed'' | AlertRaised _ \<Rightarrow> ''alert.raised''
     | Heartbeat _ \<Rightarrow> ''heartbeat'' | RoomCreated _ \<Rightarrow> ''room.created'' | DeviceRemoved _ _ \<Rightarrow> ''device.removed'')"

definition publish_event :: "config \<Rightarrow> event \<Rightarrow> publication list" where
  \<comment> \<open>the id of a snapshot is a string\<close>
  "publish_event c ev =
     \<lparr>pu_topic = cf_prefix c @ ''/events/'' @ event_type ev, pu_value = EventPublished ev,
      pu_qos = (if event_type ev = ''heartbeat'' then 0 else 1), pu_retain = False\<rparr> #
     (case ev of
        StateChanged t (PStr i) v d \<Rightarrow> if i = [] then []
          else [\<lparr>pu_topic = cf_prefix c @ ''/devices/'' @ i @ ''/state'', pu_value = EventPublished ev, pu_qos = 1, pu_retain = True\<rparr>]
      | _ \<Rightarrow> [])"

fun retained_states :: "config \<Rightarrow> (nat \<Rightarrow> int) \<Rightarrow> nat \<Rightarrow> payload list \<Rightarrow> exn + publication list" where
  "retained_states c stamps n [] = Inr []"
| "retained_states c stamps n (d # ds) = (case state_event (stamps n) d of
       Inl x \<Rightarrow> Inl x
     | Inr ev \<Rightarrow> (case retained_states c stamps (Suc n) ds of
         Inl x \<Rightarrow> Inl x
       | Inr ps \<Rightarrow> Inr (\<lparr>pu_topic = cf_prefix c @ ''/devices/'' @ (case py_get d ''id'' of PStr i \<Rightarrow> i | _ \<Rightarrow> []) @ ''/state'',
            pu_value = EventPublished ev, pu_qos = 1, pu_retain = True\<rparr> # ps)))"

definition on_connect :: "config \<Rightarrow> int \<Rightarrow> (nat \<Rightarrow> int) \<Rightarrow> service \<Rightarrow> (exn + publication list) \<times> string list" where
  \<comment> \<open>the publications and the subscriptions\<close>
  "on_connect c code stamps sv =
     (if code \<noteq> 0 then (Inr [], [])
      else (case snapshot (sv_devices sv) of Inl x \<Rightarrow> Inl x | Inr ds \<Rightarrow> retained_states c stamps 0 ds, [command_topic c]))"

section \<open>Server-sent events\<close>

definition QUEUE_SIZE :: nat where "QUEUE_SIZE = 64"

definition sse_sink :: "event \<Rightarrow> event list \<Rightarrow> event list" where
  "sse_sink ev q = (if QUEUE_SIZE \<le> length q then tl q else q) @ [ev]"

datatype sse_turn = SseEnd | SseEvent event

definition sse_step ::
  "platform \<Rightarrow> int \<Rightarrow> int \<Rightarrow> int \<Rightarrow> string \<Rightarrow> event list \<Rightarrow> sessions \<Rightarrow> sse_turn \<times> event list \<times> sessions" where
  \<comment> \<open>one turn of the stream; \<open>q\<close> is the queue when the wait for an event ends\<close>
  "sse_step pf wall wall2 heartbeat credential q ss = (case authenticate pf wall credential ss of
       (Inl x, ss') \<Rightarrow> (SseEnd, q, ss')
     | (Inr session, ss') \<Rightarrow>
         if min 15 (remaining_seconds wall2 session) \<le> 0 then (SseEnd, q, ss')
         else (case q of ev # rest \<Rightarrow> (SseEvent ev, rest, ss') | [] \<Rightarrow> (SseEvent (Heartbeat heartbeat), [], ss')))"

section \<open>Properties\<close>

lemma collect_chunks:
  assumes "0 \<le> received" "received \<le> limit"
  shows "collect_body limit received chunks (map (\<lambda>b. Body b True) bs @ Body b False # rest)
    = (if received + int (length (concat bs @ b)) \<le> limit then Deliver (concat chunks @ concat bs @ b) rest else TooLarge)"
  using assms by (induction bs arbitrary: received chunks) (auto simp: Let_def)

lemma collect_bounded:
  "collect_body limit received chunks ms = Deliver body rest \<Longrightarrow> int (length (concat chunks)) = received \<Longrightarrow>
   int (length body) \<le> limit"
  by (induction limit received chunks ms rule: collect_body.induct) (auto simp: Let_def split: if_split_asm)

text \<open>C26: the guard on request bodies lets through exactly what fits. For a guarded request
with no excessive content length, a body sent in any chunks reaches the application
unchanged if it is no longer than the limit and is refused otherwise, whatever follows; a
declared length beyond the limit, or one that is no number, is refused before anything is
read; and whatever a client sends, no more than the limit is ever delivered.\<close>

theorem body_limit_exact:
  assumes "guarded sc" "0 \<le> limit"
  shows "(\<forall>n. declared_size limit sc = Some n \<longrightarrow> limit < n \<longrightarrow> limit_body limit sc ms = TooLarge)
    \<and> ((\<forall>n. declared_size limit sc = Some n \<longrightarrow> n \<le> limit) \<longrightarrow>
        limit_body limit sc (map (\<lambda>b. Body b True) bs @ Body b False # rest)
          = (if int (length (concat bs @ b)) \<le> limit then Deliver (concat bs @ b) rest else TooLarge))
    \<and> (\<forall>body after. limit_body limit sc ms = Deliver body after \<longrightarrow> int (length body) \<le> limit)"
proof (intro conjI allI impI)
  show "limit_body limit sc ms = TooLarge" if "declared_size limit sc = Some n" "limit < n" for n
    using that assms(1) by (simp add: limit_body_def)
next
  assume d: "\<forall>n. declared_size limit sc = Some n \<longrightarrow> n \<le> limit"
  then have "limit_body limit sc ms = collect_body limit 0 [] ms" for ms
    using assms(1) by (auto simp: limit_body_def split: option.split)
  then show "limit_body limit sc (map (\<lambda>b. Body b True) bs @ Body b False # rest)
      = (if int (length (concat bs @ b)) \<le> limit then Deliver (concat bs @ b) rest else TooLarge)"
    using collect_chunks [of 0 limit "[]" bs b rest] assms(2) by simp
next
  fix body after
  assume "limit_body limit sc ms = Deliver body after"
  then have "collect_body limit 0 [] ms = Deliver body after"
    by (auto simp: limit_body_def split: if_split_asm option.split_asm)
  then show "int (length body) \<le> limit" by (rule collect_bounded) simp
qed

definition demo_scope :: "string \<Rightarrow> scope" where
  "demo_scope declared = \<lparr>sc_type = ''http'', sc_path = ''/api/v1/pair'', sc_method = ''POST'', sc_headers = [(''Content-Length'', declared)]\<rparr>"

theorem body_limit_exact_witness:
  "limit_body 8 (demo_scope ''6'') (map (\<lambda>b. Body b True) [''abc'', ''de''] @ Body ''f'' False # [Disconnect]) = Deliver ''abcdef'' [Disconnect]"
proof -
  have g: "guarded (demo_scope ''6'')" by (simp add: guarded_def demo_scope_def)
  have d: "declared_size 8 (demo_scope ''6'') = Some 6" by code_simp
  have "limit_body 8 (demo_scope ''6'') (map (\<lambda>b. Body b True) [''abc'', ''de''] @ Body ''f'' False # [Disconnect])
     = (if int (length (concat [''abc'', ''de''] @ ''f'')) \<le> 8 then Deliver (concat [''abc'', ''de''] @ ''f'') [Disconnect] else TooLarge)"
    using body_limit_exact [OF g, of 8 "[]" "[''abc'', ''de'']" "''f''" "[Disconnect]"] d by auto
  then show ?thesis by simp
qed

text \<open>C8: the three front ends are one pipeline. The same envelope with the same credential
has the same effect on the gateway, and gets the same answer, whether it comes as an HTTPS
request, a WebSocket message or an MQTT message: a refused credential is refused by all
three and nothing is published, and an answer to an MQTT client goes to the topic of its
own session only.\<close>

theorem front_ends_agree:
  assumes "credential \<noteq> []" "strip_latin credential = credential"
    and "int (length payload) \<le> cf_max_message c" "pf_json_loads pf payload = Inr (PDict raw)"
    and "py_get raw ''protocolVersion'' = PStr ''1.0''" "py_get raw ''credential'' = PStr credential"
    and "py_get raw ''command'' = PDict command" "parse (PDict command) = Some e"
  shows "case http_command pf takes wall rd (Some (''Bearer '' @ credential)) e sv of
      (Inl x, sv') \<Rightarrow> handle_message pf parse c takes wall rd payload sv = ([], sv')
        \<and> ws_command pf parse takes wall rd credential (PDict command) sv = (WsClosed, sv')
    | (Inr result, sv') \<Rightarrow> ws_command pf parse takes wall rd credential (PDict command) sv = (WsResult result, sv')
        \<and> (\<exists>session. fst (authenticate pf wall credential (sv_sessions sv)) = Inr session
          \<and> handle_message pf parse c takes wall rd payload sv =
            ([\<lparr>pu_topic = cf_prefix c @ ''/clients/'' @ cs_digest session @ ''/results'', pu_value = ResultPublished result,
               pu_qos = 1, pu_retain = False\<rparr>], sv'))"
proof -
  have b: "extract_bearer (Some (''Bearer '' @ credential)) = Inr credential"
    using assms(1,2) by (simp add: extract_bearer_def)
  obtain r ss where a: "authenticate pf wall credential (sv_sessions sv) = (r, ss)"
    by (cases "authenticate pf wall credential (sv_sessions sv)")
  show ?thesis
  proof (cases r)
    case (Inl x)
    with a b assms(3-8) show ?thesis
      by (simp add: http_command_def require_session_def handle_message_def mqtt_command_def ws_command_def)
  next
    case (Inr session)
    obtain result events sv' where p: "process_command pf rd session e (sv\<lparr>sv_sessions := ss\<rparr>) = ((result, events), sv')"
      by (metis prod.collapse)
    with Inr a b assms(3-8) show ?thesis
      by (simp add: http_command_def require_session_def handle_message_def mqtt_command_def ws_command_def)
  qed
qed

definition demo_frontend :: platform where
  "demo_frontend = demo_platform\<lparr>pf_json_loads := \<lambda>b. if b = ''M'' then Inr (PDict
     [(''protocolVersion'', PStr ''1.0''), (''credential'', PStr ''AAAA''), (''command'', PDict [])]) else Inl ValueError\<rparr>"

theorem front_ends_agree_witness:
  "\<exists>x sv'. http_command demo_frontend (\<lambda>_. True) 1500 (demo_clock 10 2000) (Some ''Bearer AAAA'') demo_envelope demo_service = (Inl x, sv')
    \<and> handle_message demo_frontend (\<lambda>_. Some demo_envelope) demo_config (\<lambda>_. True) 1500 (demo_clock 10 2000) ''M'' demo_service = ([], sv')"
proof -
  have "case http_command demo_frontend (\<lambda>_. True) 1500 (demo_clock 10 2000) (Some (''Bearer '' @ ''AAAA'')) demo_envelope demo_service of
      (Inl x, sv') \<Rightarrow> handle_message demo_frontend (\<lambda>_. Some demo_envelope) demo_config (\<lambda>_. True) 1500 (demo_clock 10 2000) ''M'' demo_service = ([], sv')
        \<and> ws_command demo_frontend (\<lambda>_. Some demo_envelope) (\<lambda>_. True) 1500 (demo_clock 10 2000) ''AAAA'' (PDict []) demo_service = (WsClosed, sv')
    | (Inr result, sv') \<Rightarrow> ws_command demo_frontend (\<lambda>_. Some demo_envelope) (\<lambda>_. True) 1500 (demo_clock 10 2000) ''AAAA'' (PDict []) demo_service = (WsResult result, sv')
        \<and> (\<exists>session. fst (authenticate demo_frontend 1500 ''AAAA'' (sv_sessions demo_service)) = Inr session
          \<and> handle_message demo_frontend (\<lambda>_. Some demo_envelope) demo_config (\<lambda>_. True) 1500 (demo_clock 10 2000) ''M'' demo_service =
            ([\<lparr>pu_topic = cf_prefix demo_config @ ''/clients/'' @ cs_digest session @ ''/results'', pu_value = ResultPublished result,
               pu_qos = 1, pu_retain = False\<rparr>], sv'))"
    by (rule front_ends_agree [where raw = "[(''protocolVersion'', PStr ''1.0''), (''credential'', PStr ''AAAA''), (''command'', PDict [])]"])
      (simp_all add: demo_frontend_def demo_config_def strip_latin_def whitespace_def py_get_def)
  moreover have "\<exists>x. fst (authenticate demo_frontend 1500 ''AAAA'' (sv_sessions demo_service)) = Inl x"
    by (auto simp: authenticate_def demo_service_def demo_sessions_def split: option.split)
  ultimately show ?thesis
    by (auto simp: http_command_def require_session_def extract_bearer_def strip_latin_def whitespace_def
        split: prod.split_asm sum.split_asm)
qed

end
