(* ===== verification/Briefing.thy ===== *)
theory Briefing
  imports RegistryRuns
begin

text \<open>
  The briefings of the maintenance page: \<open>_build_gateway_briefing\<close> and
  \<open>_build_gateway_briefing_v2\<close> of \<open>app.py\<close>, which turn a snapshot of the devices into at most six
  notes. The two functions differ in their texts and in the note on the air conditioner, so
  each part is a definition over its texts.
\<close>

section \<open>Reading a snapshot\<close>

fun py_bool :: "pyval \<Rightarrow> bool" where
  "py_bool PNone = False"
| "py_bool (PBool b) = b"
| "py_bool (PInt i) = (i \<noteq> 0)"
| "py_bool (PFloat f) = (f \<noteq> Fin 0)"
| "py_bool (PStr s) = (s \<noteq> [])"
| "py_bool (PText t) = (t \<noteq> [])"
| "py_bool (PList xs) = (xs \<noteq> [])"
| "py_bool (PDict d) = (d \<noteq> [])"

definition get_or :: "payload \<Rightarrow> string \<Rightarrow> pyval \<Rightarrow> pyval" where
  "get_or d k fallback = (case dict_get d k of None \<Rightarrow> fallback | Some v \<Rightarrow> v)"

definition py_float :: "pyval \<Rightarrow> py_exc + pyfloat" where
  \<comment> \<open>\<open>float(v)\<close> on a number\<close>
  "py_float v = (case v of PFloat f \<Rightarrow> Inr f
     | PInt i \<Rightarrow> (case float_of_int i of None \<Rightarrow> Inl OverflowError | Some q \<Rightarrow> Inr (Fin q))
     | _ \<Rightarrow> Inl TypeError)"

fun float_ge :: "pyfloat \<Rightarrow> int \<Rightarrow> bool" where
  "float_ge (Fin q) n = (of_int n \<le> q)"
| "float_ge PInf n = True"
| "float_ge _ n = False"

definition fixed_digits :: "nat \<Rightarrow> nat \<Rightarrow> string" where
  \<comment> \<open>a number of units of the last of \<open>k\<close> decimals\<close>
  "fixed_digits k n = (if k = 0 then show_nat n
     else show_nat (n div 10 ^ k) @ ''.'' @ (let s = show_nat (n mod 10 ^ k) in replicate (k - length s) (CHR ''0'') @ s))"

fun format_fixed :: "nat \<Rightarrow> pyfloat \<Rightarrow> string" where
  \<comment> \<open>\<open>format(x, ".kf")\<close>: the exact value is rounded, ties to even\<close>
  "format_fixed k (Fin q) = (if q < 0 then ''-'' else []) @ fixed_digits k (nat (round_he (\<bar>q\<bar> * 10 ^ k)))"
| "format_fixed k PInf = ''inf''"
| "format_fixed k NInf = ''-inf''"
| "format_fixed k NaN = ''nan''"

definition display_name :: "payload \<Rightarrow> pytext" where
  \<comment> \<open>\<open>str(item.get("name", item.get("id", "")))\<close>; names are texts and ids are strings\<close>
  "display_name d = (case get_or d ''name'' (get_or d ''id'' (PStr [])) of PText t \<Rightarrow> t | PStr s \<Rightarrow> asc s | _ \<Rightarrow> [])"

definition first_of_type :: "string \<Rightarrow> payload list \<Rightarrow> payload option" where
  "first_of_type t devices = find (\<lambda>d. py_get d ''type'' = PStr t) devices"

fun join_texts :: "pytext \<Rightarrow> pytext list \<Rightarrow> pytext" where
  "join_texts sep [] = []"
| "join_texts sep [x] = x"
| "join_texts sep (x # xs) = x @ sep @ join_texts sep xs"

section \<open>Notes\<close>

record remark =
  nt_level :: string
  nt_title :: pytext
  nt_body :: pytext

definition make_remark :: "string \<Rightarrow> pytext \<Rightarrow> pytext \<Rightarrow> remark" where
  "make_remark level title body = \<lparr>nt_level = level, nt_title = title, nt_body = body\<rparr>"

definition is_offline :: "payload \<Rightarrow> bool" where
  "is_offline d \<longleftrightarrow> \<not> py_bool (get_or d ''online'' (PBool False))"

definition link_note :: "pytext \<Rightarrow> pytext \<Rightarrow> pytext \<Rightarrow> pytext \<Rightarrow> pytext \<Rightarrow> payload list \<Rightarrow> remark" where
  "link_note bad bad_tail good good_head good_tail devices =
     (let offline = filter is_offline devices in
      if offline \<noteq> [] then make_remark ''risk'' bad (join_texts t_comma (map display_name offline) @ bad_tail)
      else make_remark ''safe'' good (good_head @ asc (show_nat (length devices)) @ good_tail))"

definition env_note :: "pytext \<Rightarrow> pytext \<Rightarrow> pytext \<Rightarrow> pytext \<Rightarrow> payload \<Rightarrow> py_exc + remark" where
  "env_note warm warm_tail fine fine_tail env =
     (case py_float (get_or env ''temperatureCelsius'' (PInt 0)) of
        Inl x \<Rightarrow> Inl x
      | Inr temperature \<Rightarrow> (case py_float (get_or env ''humidityPercent'' (PInt 0)) of
          Inl x \<Rightarrow> Inl x
        | Inr humidity \<Rightarrow>
            (let reading = t_now @ asc (format_fixed 1 temperature) @ t_celsius @ asc (format_fixed 0 humidity) in
             Inr (if float_ge temperature 29 \<or> float_ge humidity 68 then make_remark ''warn'' warm (reading @ warm_tail)
                  else make_remark ''safe'' fine (reading @ fine_tail)))))"

definition door_note :: "pytext \<Rightarrow> pytext \<Rightarrow> pytext \<Rightarrow> pytext \<Rightarrow> pytext \<Rightarrow> pytext \<Rightarrow> payload \<Rightarrow> py_exc + remark" where
  "door_note open_text jam_text risk risk_tail safe safe_body door =
     (let locked = py_bool (get_or door ''locked'' (PBool False)) in
      case py_int (get_or door ''batteryPercent'' (PInt 100)) of
        Inl x \<Rightarrow> Inl x
      | Inr battery \<Rightarrow>
          (let jammed = py_bool (get_or door ''jammed'' (PBool False)) in
           Inr (if \<not> locked \<or> battery \<le> 20 \<or> jammed
             then make_remark ''risk'' risk (join_texts t_comma ((if \<not> locked then [open_text] else [])
               @ (if battery \<le> 20 then [t_low] else []) @ (if jammed then [jam_text] else [])) @ risk_tail)
             else make_remark ''safe'' safe safe_body)))"

definition opt_note :: "(payload \<Rightarrow> py_exc + remark) \<Rightarrow> payload option \<Rightarrow> py_exc + remark list" where
  "opt_note f d = (case d of None \<Rightarrow> Inr [] | Some d \<Rightarrow> (case f d of Inl x \<Rightarrow> Inl x | Inr n \<Rightarrow> Inr [n]))"

definition note_if :: "bool \<Rightarrow> remark \<Rightarrow> remark list" where
  "note_if b n = (if b then [n] else [])"

section \<open>The two briefings\<close>

definition build_gateway_briefing :: "payload list \<Rightarrow> 'a list \<Rightarrow> 'b list \<Rightarrow> int \<Rightarrow> py_exc + remark list" where
  "build_gateway_briefing devices alerts logs pairing_expires_in =
     (let env = first_of_type ''environment'' devices; door = first_of_type ''doorLock'' devices;
          ac = first_of_type ''airConditioner'' devices in
      case opt_note (env_note t_muggy t_muggy_tail t_env_fine t_env_tail) env of
        Inl x \<Rightarrow> Inl x
      | Inr env_notes \<Rightarrow> (case opt_note (door_note t_unlocked t_jam t_door_risk t_door_tail t_door_safe t_door_safe_body) door of
          Inl x \<Rightarrow> Inl x
        | Inr door_notes \<Rightarrow> Inr (take 6
            ([link_note t_offline t_offline_tail t_stable [] t_stable_tail devices] @ env_notes @ door_notes
             @ note_if (case (ac, env) of (Some a, Some e) \<Rightarrow> py_bool (py_get a ''power'') \<and> py_bool (py_get e ''presence'') | _ \<Rightarrow> False)
                 (make_remark ''info'' t_ac_link t_ac_body)
             @ note_if (alerts \<noteq> []) (make_remark ''warn'' t_alerts (t_recent @ asc (show_nat (length alerts)) @ t_alerts_tail))
             @ note_if (pairing_expires_in \<le> 60) (make_remark ''warn'' t_code_ends t_code_body)
             @ note_if (logs \<noteq> []) (make_remark ''info'' t_audit t_audit_body)))))"

definition build_gateway_briefing_v2 :: "payload list \<Rightarrow> 'a list \<Rightarrow> 'b list \<Rightarrow> int \<Rightarrow> py_exc + remark list" where
  "build_gateway_briefing_v2 devices alerts logs pairing_expires_in =
     (let env = first_of_type ''environment'' devices; door = first_of_type ''doorLock'' devices in
      case opt_note (env_note t2_muggy t2_muggy_tail t_env_fine t2_env_tail) env of
        Inl x \<Rightarrow> Inl x
      | Inr env_notes \<Rightarrow> (case opt_note (door_note t2_unlocked t2_jam t2_door_risk t2_door_tail t2_door_safe t2_door_safe_body) door of
          Inl x \<Rightarrow> Inl x
        | Inr door_notes \<Rightarrow> Inr (take 6
            ([link_note t2_offline t2_offline_tail t2_stable t_now t2_stable_tail devices] @ env_notes @ door_notes
             @ note_if (alerts \<noteq> []) (make_remark ''warn'' t2_alerts (t_recent @ asc (show_nat (length alerts)) @ t2_alerts_tail))
             @ note_if (pairing_expires_in \<le> 60) (make_remark ''warn'' t2_code_ends t2_code_body)
             @ note_if (logs \<noteq> []) (make_remark ''info'' t2_audit t2_audit_body)))))"

section \<open>What the briefing says of the devices\<close>

lemma public_get:
  assumes "public_device cats d = Inr p" "dict_get (visible_items d) k = Some v"
  shows "dict_get p k = Some v"
  using assms by (auto simp: public_device_cases split: option.split_asm)

lemma public_head:
  assumes "public_device cats d = Inr p"
  shows "dict_get p ''id'' = Some (PStr (dev_id d))" "dict_get p ''type'' = Some (PStr (dev_type d))"
    "dict_get p ''online'' = Some (PBool (dev_online d))" "dict_get p ''stateVersion'' = Some (PInt (dev_version d))"
  by (rule public_get [OF assms], simp add: visible_items_def)+

lemma public_env:
  assumes "public_device cats d = Inr p" "dev_body d = Environment e"
  shows "dict_get p ''temperatureCelsius'' = Some (num_pyval (en_temperature e))"
    "dict_get p ''humidityPercent'' = Some (num_pyval (en_humidity e))"
  by (rule public_get [OF assms(1)], simp add: visible_items_def assms(2))+

lemma public_door:
  assumes "public_device cats d = Inr p" "dev_body d = DoorLock s"
  shows "dict_get p ''locked'' = Some (PBool (do_locked s))" "dict_get p ''jammed'' = Some (PBool (do_jammed s))"
    "dict_get p ''batteryPercent'' = Some (PInt (do_battery s))"
  by (rule public_get [OF assms(1)], simp add: visible_items_def assms(2))+

lemma gather_find:
  assumes "gather f xs = Inr ys" "\<And>x y. x \<in> set xs \<Longrightarrow> f x = Inr y \<Longrightarrow> Q y \<longleftrightarrow> P x"
  shows "find P xs = None \<and> find Q ys = None \<or> (\<exists>x y. find P xs = Some x \<and> f x = Inr y \<and> find Q ys = Some y)"
  using assms
proof (induction xs arbitrary: ys)
  case (Cons x xs)
  then obtain y zs where y: "f x = Inr y" "gather f xs = Inr zs" "ys = y # zs" by (auto split: sum.split_asm)
  have "Q y \<longleftrightarrow> P x" using Cons.prems(2) [of x y] y(1) by simp
  with Cons.IH [OF y(2) Cons.prems(2)] y show ?case by auto
qed simp

lemma gather_all: "gather f xs = Inr ys \<Longrightarrow> x \<in> set xs \<Longrightarrow> \<exists>y. f x = Inr y"
  by (induction xs arbitrary: ys) (auto split: sum.split_asm)

lemma gather_mem:
  "gather f xs = Inr ys \<Longrightarrow> (\<exists>y \<in> set ys. R y) \<longleftrightarrow> (\<exists>x \<in> set xs. \<exists>y. f x = Inr y \<and> R y)"
  by (induction xs arbitrary: ys) (auto split: sum.split_asm)

lemma snapshot_first:
  assumes "snapshot rg = Inr ps"
  shows "find_first rg t None = None \<and> first_of_type t ps = None
    \<or> (\<exists>d p. find_first rg t None = Some d \<and> public_device (rg_categories rg) d = Inr p \<and> first_of_type t ps = Some p)"
proof -
  have "find (\<lambda>d. dev_type d = t) (dict_values (rg_devices rg)) = None \<and> find (\<lambda>p. py_get p ''type'' = PStr t) ps = None
    \<or> (\<exists>d p. find (\<lambda>d. dev_type d = t) (dict_values (rg_devices rg)) = Some d
        \<and> public_device (rg_categories rg) d = Inr p \<and> find (\<lambda>p. py_get p ''type'' = PStr t) ps = Some p)"
    by (rule gather_find [OF assms [unfolded snapshot_def]]) (simp add: py_get_def public_head)
  then show ?thesis by (simp add: find_first_def first_of_type_def)
qed

lemma snapshot_offline:
  assumes "snapshot rg = Inr ps"
  shows "filter is_offline ps \<noteq> [] \<longleftrightarrow> (\<exists>(i, d) \<in> set (rg_devices rg). \<not> dev_online d)"
proof -
  have "(\<exists>p \<in> set ps. is_offline p) \<longleftrightarrow>
      (\<exists>d \<in> set (dict_values (rg_devices rg)). \<exists>p. public_device (rg_categories rg) d = Inr p \<and> is_offline p)"
    by (rule gather_mem [OF assms [unfolded snapshot_def]])
  moreover have "\<exists>p. public_device (rg_categories rg) d = Inr p" if "d \<in> set (dict_values (rg_devices rg))" for d
    using gather_all [OF assms [unfolded snapshot_def] that] .
  moreover have "is_offline p \<longleftrightarrow> \<not> dev_online d" if "public_device (rg_categories rg) d = Inr p" for d p
    using public_head(3) [OF that] by (simp add: is_offline_def get_or_def)
  ultimately show ?thesis by (fastforce simp: filter_empty_conv)
qed

definition door_at_risk :: "registry \<Rightarrow> bool" where
  "door_at_risk rg \<longleftrightarrow> (case find_first rg ''doorLock'' None of None \<Rightarrow> False
     | Some d \<Rightarrow> (case dev_body d of DoorLock s \<Rightarrow> \<not> do_locked s \<or> do_jammed s \<or> do_battery s \<le> 20 | _ \<Rightarrow> False))"

lemma risk_level [simp]: "nt_level (make_remark l t b) = l"
  by (simp add: make_remark_def)

lemma env_notes:
  assumes "registry_ok rg" "snapshot rg = Inr ps"
  shows "\<exists>ns. opt_note (env_note a b c d) (first_of_type ''environment'' ps) = Inr ns \<and> length ns \<le> 1
    \<and> (\<forall>n \<in> set ns. nt_level n \<noteq> ''risk'')"
proof -
  have "\<exists>n. env_note a b c d p = Inr n \<and> nt_level n \<noteq> ''risk''"
    if f: "find_first rg ''environment'' None = Some dv" and p: "public_device (rg_categories rg) dv = Inr p" for dv p
  proof -
    have "dev_type dv = ''environment''" "device_ok dv"
      using find_first_mem [OF f] device_mem_get [OF assms(1)] registry_ok_device(3) [OF assms(1)] by blast+
    then obtain e where "dev_body dv = Environment e" using device_ok_body(2) by blast
    from public_env [OF p this] show ?thesis by (simp add: env_note_def get_or_def num_pyval_def py_float_def Let_def)
  qed
  with snapshot_first [OF assms(2), of "''environment''"] show ?thesis by (fastforce simp: opt_note_def)
qed

lemma door_notes:
  assumes "registry_ok rg" "snapshot rg = Inr ps"
  shows "\<exists>ns. opt_note (door_note a b c d e f) (first_of_type ''doorLock'' ps) = Inr ns \<and> length ns \<le> 1
    \<and> ((\<exists>n \<in> set ns. nt_level n = ''risk'') \<longleftrightarrow> door_at_risk rg)"
proof -
  have "\<exists>n. door_note a b c d e f p = Inr n \<and> (nt_level n = ''risk'' \<longleftrightarrow> door_at_risk rg)"
    if ff: "find_first rg ''doorLock'' None = Some dv" and p: "public_device (rg_categories rg) dv = Inr p" for dv p
  proof -
    have "dev_type dv = ''doorLock''" "device_ok dv"
      using find_first_mem [OF ff] device_mem_get [OF assms(1)] registry_ok_device(3) [OF assms(1)] by blast+
    then obtain s where s: "dev_body dv = DoorLock s" using device_ok_body(6) by blast
    from public_door [OF p s] show ?thesis
      by (simp add: door_note_def get_or_def Let_def door_at_risk_def ff s) blast
  qed
  moreover have "\<not> door_at_risk rg" if "find_first rg ''doorLock'' None = None" using that by (simp add: door_at_risk_def)
  ultimately show ?thesis using snapshot_first [OF assms(2), of "''doorLock''"] by (fastforce simp: opt_note_def)
qed

text \<open>C33: the maintenance page tells the truth about risk. For the snapshot of any well-formed
registry the briefing is built without an exception, and it carries a note of level \<open>risk\<close>
exactly when some device is offline or the first door lock is open, jammed or at 20
percent or less; it has at most six notes, and none of those about alerts, the pairing
code and the audit log is lost to that limit.\<close>

theorem briefing_shows_risks:
  assumes "registry_ok rg" "snapshot rg = Inr ps"
  shows "\<exists>notes. build_gateway_briefing_v2 ps alerts logs expires = Inr notes \<and> length notes \<le> 6
    \<and> ((\<exists>n \<in> set notes. nt_level n = ''risk'') \<longleftrightarrow> (\<exists>(i, d) \<in> set (rg_devices rg). \<not> dev_online d) \<or> door_at_risk rg)
    \<and> (alerts \<noteq> [] \<longrightarrow> (\<exists>n \<in> set notes. nt_title n = t2_alerts)) \<and> (expires \<le> 60 \<longrightarrow> (\<exists>n \<in> set notes. nt_title n = t2_code_ends))
    \<and> (logs \<noteq> [] \<longrightarrow> (\<exists>n \<in> set notes. nt_title n = t2_audit))"
proof -
  obtain en dn where e: "opt_note (env_note t2_muggy t2_muggy_tail t_env_fine t2_env_tail) (first_of_type ''environment'' ps) = Inr en"
      "length en \<le> 1" "\<forall>n \<in> set en. nt_level n \<noteq> ''risk''"
    and d: "opt_note (door_note t2_unlocked t2_jam t2_door_risk t2_door_tail t2_door_safe t2_door_safe_body) (first_of_type ''doorLock'' ps) = Inr dn"
      "length dn \<le> 1" "(\<exists>n \<in> set dn. nt_level n = ''risk'') \<longleftrightarrow> door_at_risk rg"
    using env_notes [OF assms] door_notes [OF assms] by metis
  define link where "link = link_note t2_offline t2_offline_tail t2_stable t_now t2_stable_tail ps"
  have l: "nt_level link = ''risk'' \<longleftrightarrow> (\<exists>(i, d) \<in> set (rg_devices rg). \<not> dev_online d)"
    using snapshot_offline [OF assms(2)] by (simp add: link_def link_note_def Let_def)
  let ?rest = "note_if (alerts \<noteq> []) (make_remark ''warn'' t2_alerts (t_recent @ asc (show_nat (length alerts)) @ t2_alerts_tail))
             @ note_if (expires \<le> 60) (make_remark ''warn'' t2_code_ends t2_code_body)
             @ note_if (logs \<noteq> []) (make_remark ''info'' t2_audit t2_audit_body)"
  have r: "length ?rest \<le> 3" "\<forall>n \<in> set ?rest. nt_level n \<noteq> ''risk''" by (auto simp: note_if_def)
  let ?all = "[link] @ en @ dn @ ?rest"
  have "length ?all \<le> 6" using e(2) d(2) r(1) unfolding length_append by simp
  then have "build_gateway_briefing_v2 ps alerts logs expires = Inr ?all"
    by (simp add: build_gateway_briefing_v2_def Let_def e(1) d(1) link_def [symmetric])
  moreover have "(\<exists>n \<in> set ?all. nt_level n = ''risk'') \<longleftrightarrow> nt_level link = ''risk'' \<or> door_at_risk rg"
    using e(3) d(3) r(2) unfolding set_append by auto
  moreover have "alerts \<noteq> [] \<longrightarrow> (\<exists>n \<in> set ?all. nt_title n = t2_alerts)" "expires \<le> 60 \<longrightarrow> (\<exists>n \<in> set ?all. nt_title n = t2_code_ends)"
    "logs \<noteq> [] \<longrightarrow> (\<exists>n \<in> set ?all. nt_title n = t2_audit)"
    by (simp_all add: note_if_def make_remark_def)
  ultimately show ?thesis using l \<open>length ?all \<le> 6\<close> by blast
qed

theorem briefing_shows_risks_witness:
  "\<exists>ps notes. snapshot one_light = Inr ps \<and> build_gateway_briefing_v2 ps [()] [()] 30 = Inr notes \<and> length notes \<le> 6
     \<and> (\<forall>n \<in> set notes. nt_level n \<noteq> ''risk'') \<and> (\<exists>n \<in> set notes. nt_title n = t2_code_ends)"
proof -
  obtain ps where ps: "snapshot one_light = Inr ps" using snapshot_succeeds [OF one_light_ok] by blast
  have "\<not> door_at_risk one_light" "\<not> (\<exists>(i, d) \<in> set (rg_devices one_light). \<not> dev_online d)"
    by (simp_all add: door_at_risk_def find_first_def one_light_def make_light_def base_device_def)
  with briefing_shows_risks [OF one_light_ok ps, of "[()]" "[()]" 30] ps show ?thesis by auto
qed

end
