(* ===== verification/Routes.thy ===== *)
theory Routes
  imports Transport Briefing
begin

text \<open>
  Every route of \<open>app.py\<close>: the API of \<open>create_app\<close>, its WebSocket and event stream, and the
  maintenance API of \<open>create_admin_app\<close>. A route is a function of the request after
  pydantic's validation, of the readings it takes of the platform, and of the service. What
  it returns is a value of \<open>reply\<close>, which keeps what the JSON body is built from.
\<close>

section \<open>Requests, readings and replies\<close>

datatype api_request =
    ShowRoot
  | ShowHealth
  | PairClient string string pytext
  | ListDevices
  | ListRooms
  | PostRoom room_request
  | PostDevice registration
  | DeleteDevice string
  | ListLogs "int option" int
  | ListHistory string int "int option" int
  | PostCommand envelope
  | OpenEvents

datatype admin_request =
    ShowPairingCode
  | ShowDashboard
  | PostFault string fault
  | ProvisionDevice identity
  | PostEnvironment injection

record clock_readings =
  cl_auth :: int
  cl_wall :: int
  cl_audit :: int
  cl_stamp :: string
  cl_pair :: pair_readings
  cl_left :: rat
  cl_left2 :: rat
  cl_command :: command_readings
  cl_world :: world
  cl_takes :: "nat \<Rightarrow> bool"

datatype reply =
    RootReply
  | HealthReply int "payload list"
  | PairReply pair_response
  | DevicesReply int "payload list"
  | RoomsReply "room list"
  | RoomReply room
  | RegisteredReply string bool
  | DeletedReply pyval
  | LogsReply log_page "(int \<times> alert_row) list"
  | HistoryReply string "env_row list"
  | CommandReply command_result
  | StreamReply
  | CodeReply pytext int
  | DashboardReply int pytext int "payload list" "(int \<times> audit_row) list" "(int \<times> alert_row) list" "remark list"
  | DeviceReply payload
  | ProofReply string
  | Unprocessable

definition transport_capabilities :: "bool \<Rightarrow> payload list" where
  "transport_capabilities mqtt_enabled =
     [[(''id'', PStr ''https-rest''), (''enabled'', PBool True), (''mode'', PStr ''request-response''),
       (''security'', PStr ''TLS 1.2+, Bearer, AES-256-GCM commands'')],
      [(''id'', PStr ''wss''), (''enabled'', PBool True), (''mode'', PStr ''bidirectional-events''),
       (''security'', PStr ''TLS 1.2+, Bearer, AES-256-GCM commands'')],
      [(''id'', PStr ''https-sse''), (''enabled'', PBool True), (''mode'', PStr ''server-events''),
       (''security'', PStr ''TLS 1.2+, Bearer'')],
      [(''id'', PStr ''mqtt5-tls''), (''available'', PBool True), (''enabled'', PBool mqtt_enabled), (''mode'', PStr ''publish-subscribe''),
       (''security'', PStr ''TLS 1.2+, broker authentication, AES-256-GCM commands'')]]"

definition map_outcome :: "('a \<Rightarrow> 'b) \<Rightarrow> ('a, 's) outcome \<Rightarrow> ('b, 's) outcome" where
  "map_outcome f r = (case r of (Inl x, s) \<Rightarrow> (Inl x, s) | (Inr y, s) \<Rightarrow> (Inr (f y), s))"

definition fits_sqlite :: "int \<Rightarrow> bool" where
  \<comment> \<open>the integers \<open>sqlite3\<close> can bind; a larger one raises \<open>OverflowError\<close>\<close>
  "fits_sqlite n \<longleftrightarrow> - (2 ^ 63) \<le> n \<and> n < 2 ^ 63"

section \<open>The API\<close>

definition with_session ::
  "platform \<Rightarrow> clock_readings \<Rightarrow> string option \<Rightarrow> (client_session \<Rightarrow> service \<Rightarrow> ('a, service) outcome) \<Rightarrow> service \<Rightarrow> ('a, service) outcome" where
  \<comment> \<open>\<open>Depends(require_session)\<close>\<close>
  "with_session pf cl authorization handler sv = (case require_session pf (cl_auth cl) authorization (sv_sessions sv) of
       (Inl x, ss) \<Rightarrow> (Inl x, sv\<lparr>sv_sessions := ss\<rparr>)
     | (Inr session, ss) \<Rightarrow> handler session (sv\<lparr>sv_sessions := ss\<rparr>))"

definition broadcast_state :: "clock_readings \<Rightarrow> payload \<Rightarrow> service \<Rightarrow> (unit, service) outcome" where
  \<comment> \<open>\<open>broadcast(state_event(device))\<close>\<close>
  "broadcast_state cl d sv = (case state_event (cl_wall cl) d of
       Inl x \<Rightarrow> (Inl x, sv) | Inr ev \<Rightarrow> (Inr (), snd (broadcast (cl_takes cl) ev sv)))"

definition pair_client :: "platform \<Rightarrow> (nat \<Rightarrow> bool) \<Rightarrow> clock_readings \<Rightarrow> string \<Rightarrow> string \<Rightarrow> pytext \<Rightarrow> service \<Rightarrow> (reply, service) outcome" where
  "pair_client pf isdigit cl source client_id code sv = (case pair pf isdigit (cl_pair cl) source client_id code (sv_sessions sv) of
       (Inl x, ss) \<Rightarrow> (Inl x, sv\<lparr>sv_sessions := ss\<rparr>) | (Inr r, ss) \<Rightarrow> (Inr (PairReply r), sv\<lparr>sv_sessions := ss\<rparr>))"

definition list_devices :: "clock_readings \<Rightarrow> service \<Rightarrow> (reply, service) outcome" where
  "list_devices cl sv = (case snapshot (sv_devices sv) of Inl x \<Rightarrow> (Inl x, sv) | Inr ds \<Rightarrow> (Inr (DevicesReply (cl_wall cl) ds), sv))"

definition post_room :: "clock_readings \<Rightarrow> room_request \<Rightarrow> client_session \<Rightarrow> service \<Rightarrow> (reply, service) outcome" where
  "post_room cl body session sv = (case service_create_room (cl_audit cl) session body sv of
       (Inl x, sv') \<Rightarrow> (Inl x, sv')
     | (Inr r, sv') \<Rightarrow> (Inr (RoomReply r), snd (broadcast (cl_takes cl) (RoomCreated r) sv')))"

definition post_device :: "platform \<Rightarrow> clock_readings \<Rightarrow> registration \<Rightarrow> client_session \<Rightarrow> service \<Rightarrow> (reply, service) outcome" where
  "post_device pf cl body session sv = (case register_device pf (cl_stamp cl) (cl_audit cl) session body sv of
       (Inl x, sv') \<Rightarrow> (Inl x, sv')
     | (Inr d, sv') \<Rightarrow> (case broadcast_state cl d sv' of
         (Inl x, sv'') \<Rightarrow> (Inl x, sv'')
       | (Inr _, sv'') \<Rightarrow> (case dict_get d ''online'' of
           None \<Rightarrow> (Inl (Raised KeyError), sv'') | Some v \<Rightarrow> (Inr (RegisteredReply (de_id body) (py_bool v)), sv''))))"

definition delete_route :: "clock_readings \<Rightarrow> string \<Rightarrow> client_session \<Rightarrow> service \<Rightarrow> (reply, service) outcome" where
  "delete_route cl device_id session sv = (case delete_device (cl_audit cl) session device_id sv of
       (Inl x, sv') \<Rightarrow> (Inl x, sv')
     | (Inr removed, sv') \<Rightarrow> (case dict_get removed ''id'' of
         None \<Rightarrow> (Inl (Raised KeyError), sv')
       | Some i \<Rightarrow> (Inr (DeletedReply i), snd (broadcast (cl_takes cl) (DeviceRemoved (cl_wall cl) i) sv'))))"

definition list_logs :: "int option \<Rightarrow> int \<Rightarrow> service \<Rightarrow> (reply, service) outcome" where
  "list_logs cursor limit sv =
     (if \<not> (1 \<le> limit \<and> limit \<le> 100) then (Inr Unprocessable, sv)
      else if \<not> (case cursor of None \<Rightarrow> True | Some c \<Rightarrow> fits_sqlite c) then (Inl (Raised OverflowError), sv)
      else let st = cx_storage (rg_cx (sv_devices sv)) in (Inr (LogsReply (get_logs cursor limit st) (get_alerts limit st)), sv))"

definition list_history :: "clock_readings \<Rightarrow> string \<Rightarrow> int \<Rightarrow> int option \<Rightarrow> int \<Rightarrow> service \<Rightarrow> (reply, service) outcome" where
  \<comment> \<open>\<open>to or now_ms()\<close> takes the clock for a zero, too\<close>
  "list_history cl device_id from_ms to_ms limit sv =
     (let until = (case to_ms of None \<Rightarrow> cl_wall cl | Some t \<Rightarrow> if t = 0 then cl_wall cl else t) in
      if \<not> (1 \<le> limit \<and> limit \<le> 50000) then (Inr Unprocessable, sv)
      else if \<not> fits_sqlite from_ms \<or> \<not> fits_sqlite until then (Inl (Raised OverflowError), sv)
      else (Inr (HistoryReply device_id (get_environment_history device_id from_ms until limit (cx_storage (rg_cx (sv_devices sv))))), sv))"

definition api ::
  "platform \<Rightarrow> (nat \<Rightarrow> bool) \<Rightarrow> bool \<Rightarrow> clock_readings \<Rightarrow> api_request \<Rightarrow> string option \<Rightarrow> service \<Rightarrow> (reply, service) outcome" where
  "api pf isdigit mqtt_enabled cl request authorization sv = (case request of
       ShowRoot \<Rightarrow> (Inr RootReply, sv)
     | ShowHealth \<Rightarrow> (Inr (HealthReply (cl_wall cl) (transport_capabilities mqtt_enabled)), sv)
     | PairClient source client_id code \<Rightarrow> pair_client pf isdigit cl source client_id code sv
     | ListDevices \<Rightarrow> with_session pf cl authorization (\<lambda>_. list_devices cl) sv
     | ListRooms \<Rightarrow> with_session pf cl authorization (\<lambda>_ sv. (Inr (RoomsReply (rooms_snapshot (sv_devices sv))), sv)) sv
     | PostRoom body \<Rightarrow> with_session pf cl authorization (post_room cl body) sv
     | PostDevice body \<Rightarrow> with_session pf cl authorization (post_device pf cl body) sv
     | DeleteDevice i \<Rightarrow> with_session pf cl authorization (delete_route cl i) sv
     | ListLogs cursor limit \<Rightarrow> with_session pf cl authorization (\<lambda>_. list_logs cursor limit) sv
     | ListHistory i from_ms to_ms limit \<Rightarrow> with_session pf cl authorization (\<lambda>_. list_history cl i from_ms to_ms limit) sv
     | PostCommand body \<Rightarrow> map_outcome CommandReply (http_command pf (cl_takes cl) (cl_auth cl) (cl_command cl) authorization body sv)
     | OpenEvents \<Rightarrow> with_session pf cl authorization (\<lambda>_ sv. (Inr StreamReply, sv)) sv)"

section \<open>The WebSocket\<close>

datatype ws_input = Received pyval | WaitEnded | Gone

datatype ws_outcome = WsContinue ws_answer | WsEnd bool

definition ws_open :: "platform \<Rightarrow> clock_readings \<Rightarrow> nat \<Rightarrow> string option \<Rightarrow> service \<Rightarrow> (string option \<times> event list) \<times> service" where
  \<comment> \<open>the credential of an accepted connection and what is sent on it; \<open>None\<close>: closed with 4401\<close>
  "ws_open pf cl sink authorization sv = (case extract_bearer authorization of
       Inl x \<Rightarrow> ((None, []), sv)
     | Inr credential \<Rightarrow> (case authenticate pf (cl_auth cl) credential (sv_sessions sv) of
         (Inl x, ss) \<Rightarrow> ((None, []), sv\<lparr>sv_sessions := ss\<rparr>)
       | (Inr session, ss) \<Rightarrow> ((Some credential, [Heartbeat (cl_wall cl)]), add_sink sink (sv\<lparr>sv_sessions := ss\<rparr>))))"

definition ws_turn ::
  "platform \<Rightarrow> (pyval \<Rightarrow> envelope option) \<Rightarrow> clock_readings \<Rightarrow> int \<Rightarrow> nat \<Rightarrow> string \<Rightarrow> ws_input \<Rightarrow> service \<Rightarrow> ws_outcome \<times> service" where
  \<comment> \<open>one turn of the loop; \<open>wall2\<close> is the clock when a message has come. \<open>WsEnd True\<close> closes with
     4401, \<open>WsEnd False\<close> is a client that has gone; either way the sink is removed\<close>
  "ws_turn pf parse cl wall2 sink credential input sv = (case authenticate pf (cl_auth cl) credential (sv_sessions sv) of
       (Inl x, ss) \<Rightarrow> (WsEnd True, remove_sink sink (sv\<lparr>sv_sessions := ss\<rparr>))
     | (Inr session, ss) \<Rightarrow> (case input of
         WaitEnded \<Rightarrow> (WsEnd True, remove_sink sink (sv\<lparr>sv_sessions := ss\<rparr>))
       | Gone \<Rightarrow> (WsEnd False, remove_sink sink (sv\<lparr>sv_sessions := ss\<rparr>))
       | Received raw \<Rightarrow> (case ws_command pf parse (cl_takes cl) wall2 (cl_command cl) credential raw (sv\<lparr>sv_sessions := ss\<rparr>) of
           (WsClosed, sv') \<Rightarrow> (WsEnd True, remove_sink sink sv')
         | (answer, sv') \<Rightarrow> (WsContinue answer, sv'))))"

section \<open>The maintenance API\<close>

definition show_pairing_code :: "(nat \<Rightarrow> bool) \<Rightarrow> clock_readings \<Rightarrow> service \<Rightarrow> (pytext \<times> int, service) outcome" where
  "show_pairing_code isdigit cl sv =
     (case pairing_code isdigit (pr_now (cl_pair cl)) (pr_draws (cl_pair cl)) (pr_rotated (cl_pair cl)) (sv_sessions sv) of
        (Inl x, ss) \<Rightarrow> (Inl x, sv\<lparr>sv_sessions := ss\<rparr>)
      | (Inr code, ss) \<Rightarrow> (Inr (code, pairing_expires_in (cl_left cl) ss), sv\<lparr>sv_sessions := ss\<rparr>))"

definition show_dashboard :: "(nat \<Rightarrow> bool) \<Rightarrow> clock_readings \<Rightarrow> service \<Rightarrow> (reply, service) outcome" where
  "show_dashboard isdigit cl sv =
     (let st = cx_storage (rg_cx (sv_devices sv)); logs = pg_items (get_logs None 20 st) in
      case snapshot (sv_devices sv) of
        Inl x \<Rightarrow> (Inl x, sv)
      | Inr devices \<Rightarrow>
          (let alerts = get_alerts 20 st in
           case show_pairing_code isdigit cl sv of
             (Inl x, sv') \<Rightarrow> (Inl x, sv')
           | (Inr (code, expires), sv') \<Rightarrow>
               (case build_gateway_briefing_v2 devices alerts logs (pairing_expires_in (cl_left2 cl) (sv_sessions sv')) of
                  Inl x \<Rightarrow> (Inl (Raised x), sv')
                | Inr briefing \<Rightarrow> (Inr (DashboardReply (cl_wall cl) code expires devices logs alerts briefing), sv'))))"

definition post_fault :: "clock_readings \<Rightarrow> string \<Rightarrow> fault \<Rightarrow> service \<Rightarrow> (reply, service) outcome" where
  "post_fault cl device_id body sv = (case inject_fault (cl_world cl) device_id body (sv_devices sv) of
       (Inl x, rg) \<Rightarrow> (Inl x, sv\<lparr>sv_devices := rg\<rparr>)
     | (Inr d, rg) \<Rightarrow> (case broadcast_state cl d (sv\<lparr>sv_devices := rg\<rparr>) of
         (Inl x, sv') \<Rightarrow> (Inl x, sv')
       | (Inr _, sv') \<Rightarrow> (case drain_alerts (sv_devices sv') of
           (alerts, rg') \<Rightarrow> (Inr (DeviceReply d), broadcast_all (cl_takes cl) (map AlertRaised alerts) (sv'\<lparr>sv_devices := rg'\<rparr>)))))"

definition post_environment :: "clock_readings \<Rightarrow> injection \<Rightarrow> service \<Rightarrow> (reply, service) outcome" where
  "post_environment cl body sv = (case inject_environment (cl_world cl) body (sv_devices sv) of
       (Inl x, rg) \<Rightarrow> (Inl x, sv\<lparr>sv_devices := rg\<rparr>)
     | (Inr d, rg) \<Rightarrow> map_outcome (\<lambda>_. DeviceReply d) (broadcast_state cl d (sv\<lparr>sv_devices := rg\<rparr>)))"

definition admin_api ::
  "platform \<Rightarrow> (nat \<Rightarrow> bool) \<Rightarrow> string \<Rightarrow> clock_readings \<Rightarrow> admin_request \<Rightarrow> string option \<Rightarrow> service \<Rightarrow> (reply, service) outcome" where
  "admin_api pf isdigit admin_token cl request x_admin_token sv = (case require_admin admin_token x_admin_token of
       Inl x \<Rightarrow> (Inl x, sv)
     | Inr _ \<Rightarrow> (case request of
         ShowPairingCode \<Rightarrow> map_outcome (\<lambda>(code, expires). CodeReply code expires) (show_pairing_code isdigit cl sv)
       | ShowDashboard \<Rightarrow> show_dashboard isdigit cl sv
       | PostFault device_id body \<Rightarrow> post_fault cl device_id body sv
       | ProvisionDevice body \<Rightarrow> (Inr (ProofReply (issue pf body)), sv)
       | PostEnvironment body \<Rightarrow> post_environment cl body sv))"

end
