(* ===== verification/RouteRuns.thy ===== *)
theory RouteRuns
  imports Routes
begin

text \<open>
  What holds of every route and of every run of the gateway behind its front ends: no request
  is answered with an internal error, the gateway stays well formed, and nothing is done for
  somebody who has not authenticated.
\<close>

section \<open>Answers\<close>

fun is_gateway :: "exn \<Rightarrow> bool" where
  "is_gateway (Gateway g) = True"
| "is_gateway (Raised x) = False"

definition handled :: "exn + 'a \<Rightarrow> bool" where
  \<comment> \<open>an answer or a \<open>GatewayError\<close>, which the handler renders; anything else is an internal error\<close>
  "handled r \<longleftrightarrow> (case r of Inl x \<Rightarrow> is_gateway x | Inr _ \<Rightarrow> True)"

definition ascii :: "pytext \<Rightarrow> bool" where
  "ascii t \<longleftrightarrow> list_all (\<lambda>n. n < 128) t"

definition gateway_ok :: "service \<Rightarrow> bool" where
  "gateway_ok sv \<longleftrightarrow> registry_ok (sv_devices sv) \<and> rg_drivers (sv_devices sv) = map (\<lambda>d. (dr_type d, d)) default_drivers
     \<and> ascii (se_code (sv_sessions sv))"

definition fine :: "('a, service) outcome \<Rightarrow> bool" where
  "fine r \<longleftrightarrow> handled (fst r) \<and> gateway_ok (snd r)"

lemma handled_simps [simp]: "handled (Inr y)" "handled (Inl x) \<longleftrightarrow> is_gateway x"
  by (simp_all add: handled_def)

lemma is_gateway_simps [simp]: "is_gateway (invalid m)" "is_gateway (auth_failed m)" "is_gateway (proof_error m)"
  "is_gateway (rate_limited m n)"
  by (simp_all add: invalid_def auth_failed_def proof_error_def rate_limited_def)

lemma fine_pair [simp]: "fine (r, sv) \<longleftrightarrow> handled r \<and> gateway_ok sv"
  by (simp add: fine_def)

lemma gateway_ok_cong:
  "sv_devices sv' = sv_devices sv \<Longrightarrow> sv_sessions sv' = sv_sessions sv \<Longrightarrow> gateway_ok sv' \<longleftrightarrow> gateway_ok sv"
  by (simp add: gateway_ok_def)

lemma gateway_ok_sinks [simp]:
  "gateway_ok (snd (broadcast takes ev sv)) = gateway_ok sv" "gateway_ok (add_sink s sv) = gateway_ok sv"
  "gateway_ok (remove_sink s sv) = gateway_ok sv"
  by (rule gateway_ok_cong; simp add: add_sink_def remove_sink_def)+

lemma broadcast_all_sel [simp]:
  "sv_devices (broadcast_all takes evs sv) = sv_devices sv" "sv_sessions (broadcast_all takes evs sv) = sv_sessions sv"
  by (induction evs arbitrary: sv) (simp_all add: broadcast_all_def)

lemma gateway_ok_all [simp]: "gateway_ok (broadcast_all takes evs sv) = gateway_ok sv"
  by (rule gateway_ok_cong) simp_all

lemma gateway_step:
  "gateway_ok sv \<Longrightarrow> registry_step_ok (sv_devices sv) rg \<Longrightarrow> gateway_ok (sv\<lparr>sv_devices := rg\<rparr>)"
  by (simp add: gateway_ok_def registry_step_ok_def)

lemma gateway_sessions:
  "gateway_ok sv \<Longrightarrow> ascii (se_code ss) \<Longrightarrow> gateway_ok (sv\<lparr>sv_sessions := ss\<rparr>)"
  by (simp add: gateway_ok_def)

lemma audit_success_ok [simp]: "gateway_ok sv \<Longrightarrow> gateway_ok (audit_success t session i a m sv)"
  by (auto simp: gateway_ok_def audit_success_def in_storage_def registry_ok_parts context_ok_def)

section \<open>Sessions\<close>

definition draws_ok :: "(nat \<Rightarrow> bool) \<Rightarrow> (nat \<Rightarrow> pytext) \<Rightarrow> bool" where
  \<comment> \<open>the factory of pairing codes yields ASCII digits, and not the same ones sixteen times\<close>
  "draws_ok isdigit draws \<longleftrightarrow> (\<forall>n. ascii (draws n) \<and> validate_pairing_code isdigit (draws n) = Inr (draws n))
     \<and> (\<exists>m < 16. \<exists>n < 16. draws m \<noteq> draws n)"

definition pair_ok :: "(nat \<Rightarrow> bool) \<Rightarrow> pair_readings \<Rightarrow> bool" where
  "pair_ok isdigit rd \<longleftrightarrow> draws_ok isdigit (pr_draws rd) \<and> draws_ok isdigit (pr_new_draws rd)"

lemma try_codes_ok:
  "\<forall>d \<in> set ds. ascii d \<and> validate_pairing_code isdigit d = Inr d \<Longrightarrow> \<exists>d \<in> set ds. Some d \<noteq> previous \<Longrightarrow>
   \<exists>code. try_codes isdigit previous ds = Inr code \<and> ascii code"
  by (induction ds) auto

lemma rotate_ok:
  assumes "draws_ok isdigit draws"
  shows "\<exists>code. rotate_pairing_code isdigit draws clock s = (Inr code, s\<lparr>se_code := code, se_code_expires := fadd clock (of_int PAIRING_LIFETIME_SECONDS)\<rparr>)
    \<and> ascii code"
proof -
  obtain m n where mn: "m < 16" "n < 16" "draws m \<noteq> draws n" using assms by (auto simp: draws_ok_def)
  then have "draws m \<noteq> se_code s \<or> draws n \<noteq> se_code s" by auto
  then have "\<exists>d \<in> set (map draws [0..<16]). Some d \<noteq> Some (se_code s)" using mn by fastforce
  moreover have "\<forall>d \<in> set (map draws [0..<16]). ascii d \<and> validate_pairing_code isdigit d = Inr d"
    using assms by (auto simp: draws_ok_def)
  ultimately obtain code where "try_codes isdigit (Some (se_code s)) (map draws [0..<16]) = Inr code" "ascii code"
    using try_codes_ok by blast
  then show ?thesis by (simp add: rotate_pairing_code_def new_pairing_code_def)
qed

lemma rotate_expired_ok:
  assumes "draws_ok isdigit draws" "ascii (se_code s)"
  shows "\<exists>s'. rotate_if_expired isdigit now draws clock s = (Inr (), s') \<and> ascii (se_code s')"
  using rotate_ok [OF assms(1), of clock s] assms(2) by (auto simp: rotate_if_expired_def)

lemma pairing_code_ok:
  assumes "draws_ok isdigit draws" "ascii (se_code s)"
  shows "\<exists>code s'. pairing_code isdigit now draws clock s = (Inr code, s') \<and> ascii (se_code s')"
  using rotate_expired_ok [OF assms, of now clock] by (auto simp: pairing_code_def)

lemma pair_handled:
  assumes "pair_ok isdigit rd" "ascii code" "ascii (se_code s)"
  shows "handled (fst (pair pf isdigit rd source client_id code s)) \<and> ascii (se_code (snd (pair pf isdigit rd source client_id code s)))"
proof -
  obtain s1 where r: "rotate_if_expired isdigit (pr_now rd) (pr_draws rd) (pr_rotated rd) s = (Inr (), s1)" "ascii (se_code s1)"
    using rotate_expired_ok assms(1,3) by (fastforce simp: pair_ok_def)
  have "compare_digest code (se_code s1) = Inr (code = se_code s1)"
    using assms(2) r(2) by (simp add: compare_digest_def ascii_def)
  moreover have "handled (fst (open_session pf isdigit rd client_id s2)) \<and> ascii (se_code (snd (open_session pf isdigit rd client_id s2)))" for s2
  proof -
    let ?s3 = "s2\<lparr>se_sessions := dict_set (pf_sha256 pf (pr_credential rd)) \<lparr>cs_client = client_id, cs_digest = pf_sha256 pf (pr_credential rd),
      cs_key = pr_key rd, cs_issued = pr_wall rd, cs_expires = pr_wall rd + se_ttl_ms s2\<rparr> (se_sessions s2)\<rparr>"
    obtain code where "rotate_pairing_code isdigit (pr_new_draws rd) (pr_new_rotated rd) ?s3
        = (Inr code, ?s3\<lparr>se_code := code, se_code_expires := fadd (pr_new_rotated rd) (of_int PAIRING_LIFETIME_SECONDS)\<rparr>)" "ascii code"
      using rotate_ok assms(1) unfolding pair_ok_def by blast
    then show ?thesis by (simp add: open_session_def Let_def)
  qed
  ultimately show ?thesis using r by (simp add: pair_def Let_def put_attempt_def split: bool.split)
qed

lemma authenticate_handled:
  "handled (fst (authenticate pf wall credential s)) \<and> se_code (snd (authenticate pf wall credential s)) = se_code s"
  by (auto simp: authenticate_def Let_def revoke_def split: option.split)

lemma require_session_handled:
  "handled (fst (require_session pf wall a s)) \<and> se_code (snd (require_session pf wall a s)) = se_code s"
  using authenticate_handled [of pf wall _ s]
  by (auto simp: require_session_def extract_bearer_def Let_def split: option.split sum.split)

lemma fine_session:
  assumes "gateway_ok sv" "\<And>session sv'. gateway_ok sv' \<Longrightarrow> fine (handler session sv')"
  shows "fine (with_session pf cl a handler sv)"
proof -
  obtain r ss where r: "require_session pf (cl_auth cl) a (sv_sessions sv) = (r, ss)"
    by (cases "require_session pf (cl_auth cl) a (sv_sessions sv)")
  have "handled r" "se_code ss = se_code (sv_sessions sv)"
    using require_session_handled [of pf "cl_auth cl" a "sv_sessions sv"] r by simp_all
  moreover have "gateway_ok (sv\<lparr>sv_sessions := ss\<rparr>)" using assms(1) calculation(2) by (simp add: gateway_ok_def)
  ultimately show ?thesis using r assms(2) by (cases r) (simp_all add: with_session_def)
qed

section \<open>Operations of the registry and the service\<close>

definition json_quiet :: "platform \<Rightarrow> bool" where
  \<comment> \<open>\<open>json.loads\<close> raises \<open>ValueError\<close> only: no document is nested too deeply for the interpreter\<close>
  "json_quiet pf \<longleftrightarrow> (\<forall>b x. pf_json_loads pf b = Inl x \<longrightarrow> x = ValueError)"

lemma verify_handled: "json_quiet pf \<Longrightarrow> handled (verify pf reg)"
proof -
  assume q: "json_quiet pf"
  have d: "decode_object pf seg = Inl x \<Longrightarrow> x = ValueError" for seg x
    using q by (auto simp: decode_object_def json_quiet_def split: option.split_asm sum.split_asm pyval.split_asm)
  have "parse_proof pf g = Inl x \<Longrightarrow> x = ValueError" for g x
    by (auto simp: parse_proof_def split: list.split_asm option.split_asm sum.split_asm dest: d)
  then show ?thesis by (auto simp: verify_def split: sum.split option.split)
qed

lemma attest_gateway:
  assumes "drv \<in> set default_drivers" "dr_attest drv stamp i n room cat caps = Inl x"
  shows "is_gateway x"
proof -
  have "\<exists>e. dev_body (make_sensor stamp i n room 24 62 95) = Environment e" by (simp add: make_sensor_def base_device_def)
  with assms show ?thesis
    by (auto simp: default_drivers_def light_driver_def sensor_driver_def humidifier_driver_def bath_driver_def ac_driver_def
        door_driver_def curtain_driver_def light_attest_def sensor_attest_def humidifier_attest_def ac_attest_def no_attest_def
        Let_def split: if_split_asm)
qed

definition is_public :: "payload \<Rightarrow> bool" where
  "is_public p \<longleftrightarrow> (\<exists>cs d. public_device cs d = Inr p)"

lemma is_public_get:
  assumes "is_public p"
  shows "\<exists>v. dict_get p ''online'' = Some v" "\<exists>v. dict_get p ''id'' = Some v" "\<exists>ev. state_event t p = Inr ev"
proof -
  obtain cs d where "public_device cs d = Inr p" using assms by (auto simp: is_public_def)
  note h = public_head [OF this]
  show "\<exists>v. dict_get p ''online'' = Some v" "\<exists>v. dict_get p ''id'' = Some v" "\<exists>ev. state_event t p = Inr ev"
    by (simp_all add: h state_event_def)
qed

definition answers_public :: "exn + payload \<Rightarrow> bool" where
  "answers_public r \<longleftrightarrow> (case r of Inl x \<Rightarrow> is_gateway x | Inr p \<Rightarrow> is_public p)"

lemma answers_public_simps [simp]: "answers_public (Inr p) = is_public p" "answers_public (Inl x) = is_gateway x"
  by (simp_all add: answers_public_def)

lemma is_publicI: "public_device cs d = Inr p \<Longrightarrow> is_public p"
  unfolding is_public_def by blast

lemma public_answer: "\<exists>p. public_device cs d = Inr p \<Longrightarrow> answers_public (public_device cs d)"
  by (auto intro: is_publicI)

lemma register_answers:
  assumes ok: "registry_ok rg" "rg_drivers rg = map (\<lambda>d. (dr_type d, d)) default_drivers" "i \<noteq> []"
    and reg: "register_provisioned stamp i n room t cat caps rg = (r, rg')"
  shows "registry_step_ok rg rg' \<and> answers_public r"
proof -
  note cases = register_provisioned_cases [OF ok(1,3) reg]
  have drv: "drv \<in> set default_drivers" if "dict_get (rg_drivers rg) t = Some drv" for drv
    using map_of_SomeD [OF that] ok(2) by auto
  have "answers_public r"
  proof (cases "rg' = rg")
    case False
    with cases show ?thesis by (auto intro: is_publicI)
  next
    case True
    have old: "answers_public (public_device (rg_categories rg) d)" if "dict_get (rg_devices rg) i = Some d" for d
      by (rule public_answer [OF registry_ok_device(5) [OF ok(1) that]])
    have new: "rg\<lparr>rg_devices := dict_set i d (rg_devices rg)\<rparr> \<noteq> rg" if "dict_get (rg_devices rg) i = None" for d
    proof
      assume "rg\<lparr>rg_devices := dict_set i d (rg_devices rg)\<rparr> = rg"
      then have "rg_devices (rg\<lparr>rg_devices := dict_set i d (rg_devices rg)\<rparr>) = rg_devices rg" by simp
      then have "dict_set i d (rg_devices rg) = rg_devices rg" by simp
      then have "dict_get (rg_devices rg) i = Some d" using dict_get_set [of i d "rg_devices rg" i] by simp
      with that show False by simp
    qed
    show ?thesis
      using reg True old new attest_gateway [OF drv]
      by (auto simp: register_provisioned_def Let_def split: if_split_asm option.split_asm sum.split_asm)
  qed
  with cases show ?thesis by simp
qed

lemma remove_answers:
  assumes "registry_ok rg" "remove_provisioned i rg = (r, rg')"
  shows "registry_step_ok rg rg' \<and> answers_public r"
  using remove_provisioned_cases [OF assms] by (auto intro: is_publicI split: sum.split_asm)

lemma put_answers:
  assumes "registry_ok (put_device d rg)"
  shows "answers_public (public_device (rg_categories rg) d)"
proof -
  have "dict_get (rg_devices (put_device d rg)) (dev_id d) = Some d" by (simp add: dict_simps)
  from registry_ok_device(5) [OF assms this] show ?thesis by (intro public_answer) simp
qed

lemma fault_answers:
  assumes "registry_ok rg" "fault_ok f" "inject_fault w i f rg = (r, rg')"
  shows "registry_step_ok rg rg' \<and> answers_public r"
proof -
  note st = inject_fault_step [OF assms]
  then have ok': "registry_ok rg'" by (simp add: registry_step_ok_def)
  show ?thesis
  proof (cases "dict_get (rg_devices rg) i")
    case None
    with assms st show ?thesis by (auto simp: inject_fault_def get_device_def)
  next
    case (Some d)
    obtain c d1 where a: "apply_fault f d = (c, d1)" by (cases "apply_fault f d")
    let ?d2 = "if c then touch w d1 else d1"
    let ?cx = "if c \<and> battery_of ?d2 \<le> 20
      then record_alert w i ''warning'' ''LOW_BATTERY'' m_low_battery (rg_cx rg) else rg_cx rg"
    have "r = public_device (rg_categories (rg\<lparr>rg_cx := ?cx\<rparr>)) ?d2" "rg' = put_device ?d2 (rg\<lparr>rg_cx := ?cx\<rparr>)"
      using assms(3) Some a by (simp_all add: inject_fault_def get_device_def Let_def)
    with put_answers ok' st show ?thesis by metis
  qed
qed

lemma injection_answers:
  assumes ok: "registry_ok rg" and v: "injection_ok v" and inj: "inject_environment w v rg = (r, rg')"
  shows "registry_step_ok rg rg' \<and> answers_public r"
proof -
  note st = inject_environment_step [OF assms]
  then have ok': "registry_ok rg'" by (simp add: registry_step_ok_def)
  show ?thesis
  proof (cases "find_first rg ''environment'' None")
    case None
    with inj st show ?thesis by (auto simp: inject_environment_def)
  next
    case (Some d)
    then have "dev_type d = ''environment''" "device_ok d"
      using find_first_mem device_mem_get [OF ok] registry_ok_device(3) [OF ok] by blast+
    then obtain e where "dev_body d = Environment e" using device_ok_body(2) by blast
    with inj Some have "\<exists>d1. r = public_device (rg_categories rg) d1 \<and> rg' = put_device d1 rg"
      by (auto simp: inject_environment_def Let_def)
    with put_answers ok' st show ?thesis by metis
  qed
qed

section \<open>The handlers\<close>

lemma service_parts: "gateway_ok sv \<Longrightarrow> registry_ok (sv_devices sv) \<and> rg_drivers (sv_devices sv) = map (\<lambda>d. (dr_type d, d)) default_drivers"
  by (simp add: gateway_ok_def)

lemma fine_broadcast_state:
  assumes "gateway_ok sv" "is_public d"
  shows "\<exists>sv'. broadcast_state cl d sv = (Inr (), sv') \<and> gateway_ok sv' \<and> sv_devices sv' = sv_devices sv"
proof -
  obtain ev where "state_event (cl_wall cl) d = Inr ev" using is_public_get(3) [OF assms(2)] by blast
  with assms(1) show ?thesis by (simp add: broadcast_state_def)
qed

lemma fine_post_room:
  assumes "gateway_ok sv"
  shows "fine (post_room cl body session sv)"
proof -
  obtain r rg where c: "create_room (rq_id body) (rq_name body) (sv_devices sv) = (r, rg)"
    by (cases "create_room (rq_id body) (rq_name body) (sv_devices sv)")
  have "registry_step_ok (sv_devices sv) rg" "\<forall>x. r = Inl x \<longrightarrow> is_gateway x"
    using create_room_step [OF _ c] service_parts [OF assms] by auto
  with gateway_step [OF assms this(1)] c show ?thesis
    by (cases r) (simp_all add: post_room_def service_create_room_def)
qed

lemma fine_post_device:
  assumes "gateway_ok sv" "json_quiet pf" "de_id body \<noteq> []"
  shows "fine (post_device pf cl body session sv)"
proof (cases "verify pf body")
  case (Inl x)
  with verify_handled [OF assms(2), of body] assms(1) show ?thesis by (simp add: post_device_def register_device_def)
next
  case (Inr fingerprint)
  obtain r rg where c: "register_provisioned (cl_stamp cl) (de_id body) (de_name body) (re_room body) (de_type body) (de_category body)
      (de_caps body) (sv_devices sv) = (r, rg)" by (metis prod.collapse)
  have st: "registry_step_ok (sv_devices sv) rg \<and> answers_public r"
    by (rule register_answers [OF _ _ assms(3) c]) (use service_parts [OF assms(1)] in simp_all)
  note g = gateway_step [OF assms(1) conjunct1 [OF st]]
  show ?thesis
  proof (cases r)
    case (Inl x)
    with st g c Inr show ?thesis by (simp add: post_device_def register_device_def)
  next
    case d: (Inr d)
    then have p: "is_public d" using st by simp
    let ?sv = "audit_success (cl_audit cl) session (de_id body) ''registerDevice'' fingerprint (sv\<lparr>sv_devices := rg\<rparr>)"
    obtain sv' where "broadcast_state cl d ?sv = (Inr (), sv')" "gateway_ok sv'"
      using fine_broadcast_state [OF audit_success_ok [OF g] p] by blast
    moreover obtain v where "dict_get d ''online'' = Some v" using is_public_get(1) [OF p] by blast
    ultimately show ?thesis using c Inr d by (simp add: post_device_def register_device_def)
  qed
qed

lemma fine_delete:
  assumes "gateway_ok sv"
  shows "fine (delete_route cl i session sv)"
proof -
  obtain r rg where c: "remove_provisioned i (sv_devices sv) = (r, rg)" by (cases "remove_provisioned i (sv_devices sv)")
  have st: "registry_step_ok (sv_devices sv) rg \<and> answers_public r"
    by (rule remove_answers [OF _ c]) (use service_parts [OF assms] in simp)
  note g = gateway_step [OF assms conjunct1 [OF st]]
  show ?thesis
  proof (cases r)
    case (Inr d)
    then obtain v where "dict_get d ''id'' = Some v" using st is_public_get(2) by auto
    with Inr c g show ?thesis by (simp add: delete_route_def delete_device_def)
  qed (use st g c in \<open>simp add: delete_route_def delete_device_def\<close>)
qed

lemma fine_devices:
  assumes "gateway_ok sv"
  shows "fine (list_devices cl sv)"
  using snapshot_succeeds [of "sv_devices sv"] service_parts [OF assms] assms by (auto simp: list_devices_def)

lemma fine_logs:
  assumes "gateway_ok sv" "\<forall>c. cursor = Some c \<longrightarrow> fits_sqlite c"
  shows "fine (list_logs cursor limit sv)"
  using assms by (simp add: list_logs_def Let_def split: option.split)

lemma fine_history:
  assumes "gateway_ok sv" "fits_sqlite from_ms" "\<forall>t. to_ms = Some t \<longrightarrow> fits_sqlite t" "fits_sqlite (cl_wall cl)"
  shows "fine (list_history cl i from_ms to_ms limit sv)"
  using assms by (simp add: list_history_def Let_def split: option.split)

lemma process_keeps:
  assumes ok: "registry_ok (sv_devices sv)" and p: "process_command pf rd session e sv = ((result, events), sv')"
  shows "registry_ok (sv_devices sv') \<and> rg_drivers (sv_devices sv') = rg_drivers (sv_devices sv)"
  using p
proof (cases rule: process_cases)
  case (cached t)
  with ok show ?thesis by simp
next
  case refused
  with ok show ?thesis by (simp add: audited_ok) (simp add: audited_def in_storage_def)
next
  case (ran evs rg)
  have "registry_ok rg" "rg_drivers rg = rg_drivers (sv_devices sv)"
    using run_command_step [OF ok ran(2)] by (simp_all add: registry_step_ok_def)
  with drained [of rg] show ?thesis unfolding ran(6) by (simp add: audited_ok) (simp add: audited_def in_storage_def drain_alerts_def)
qed

lemma process_sessions: "sv_sessions (snd (process_command pf rd session e sv)) = sv_sessions sv"
  by (auto simp: process_command_def Let_def audit_def cache_result_def prune_security_windows_def
      split: option.split prod.split)

lemma process_ok:
  assumes "gateway_ok sv" "process_command pf rd session e sv = ((result, events), sv')"
  shows "gateway_ok sv'"
  using process_keeps [OF _ assms(2)] process_sessions [of pf rd session e sv] assms by (simp add: gateway_ok_def)

lemma session_code: "require_session pf wall a s = (r, ss) \<Longrightarrow> handled r \<and> se_code ss = se_code s"
  using require_session_handled [of pf wall a s] by simp

lemma fine_command:
  assumes "gateway_ok sv"
  shows "fine (http_command pf takes wall rd a e sv)"
proof -
  obtain r ss where r: "require_session pf wall a (sv_sessions sv) = (r, ss)" by (cases "require_session pf wall a (sv_sessions sv)")
  have g: "gateway_ok (sv\<lparr>sv_sessions := ss\<rparr>)" using session_code [OF r] assms by (simp add: gateway_ok_def)
  show ?thesis
  proof (cases r)
    case (Inr session)
    obtain result events sv' where "process_command pf rd session e (sv\<lparr>sv_sessions := ss\<rparr>) = ((result, events), sv')"
      by (metis prod.collapse)
    with Inr r process_ok [OF g this] show ?thesis by (simp add: http_command_def)
  qed (use session_code [OF r] r g in \<open>simp add: http_command_def\<close>)
qed

lemma fine_map [simp]: "fine (map_outcome f r) = fine r"
  by (cases r; cases "fst r") (auto simp: map_outcome_def fine_def)

lemma fine_pair_client:
  assumes "gateway_ok sv" "pair_ok isdigit (cl_pair cl)" "ascii code"
  shows "fine (pair_client pf isdigit cl source client_id code sv)"
proof -
  obtain r ss where r: "pair pf isdigit (cl_pair cl) source client_id code (sv_sessions sv) = (r, ss)"
    by (cases "pair pf isdigit (cl_pair cl) source client_id code (sv_sessions sv)")
  have "ascii (se_code (sv_sessions sv))" using assms(1) by (simp add: gateway_ok_def)
  with pair_handled [OF assms(2,3), of "sv_sessions sv" pf source client_id] r
  have "handled r" "ascii (se_code ss)" by simp_all
  with gateway_sessions [OF assms(1)] r show ?thesis by (cases r) (simp_all add: pair_client_def)
qed

lemma show_code_ok:
  assumes "gateway_ok sv" "pair_ok isdigit (cl_pair cl)"
  shows "\<exists>code n sv'. show_pairing_code isdigit cl sv = (Inr (code, n), sv') \<and> gateway_ok sv' \<and> sv_devices sv' = sv_devices sv"
proof -
  obtain code ss where "pairing_code isdigit (pr_now (cl_pair cl)) (pr_draws (cl_pair cl)) (pr_rotated (cl_pair cl)) (sv_sessions sv)
      = (Inr code, ss)" "ascii (se_code ss)"
    using pairing_code_ok assms by (fastforce simp: pair_ok_def gateway_ok_def)
  with gateway_sessions [OF assms(1)] show ?thesis by (simp add: show_pairing_code_def)
qed

lemma briefing_builds:
  assumes "registry_ok rg" "snapshot rg = Inr ps"
  shows "\<exists>notes. build_gateway_briefing_v2 ps alerts logs n = Inr notes"
proof -
  obtain en dn where "opt_note (env_note t2_muggy t2_muggy_tail t_env_fine t2_env_tail) (first_of_type ''environment'' ps) = Inr en"
    "opt_note (door_note t2_unlocked t2_jam t2_door_risk t2_door_tail t2_door_safe t2_door_safe_body) (first_of_type ''doorLock'' ps) = Inr dn"
    using env_notes [OF assms] door_notes [OF assms] by metis
  then show ?thesis by (simp add: build_gateway_briefing_v2_def Let_def)
qed

lemma fine_dashboard:
  assumes "gateway_ok sv" "pair_ok isdigit (cl_pair cl)"
  shows "fine (show_dashboard isdigit cl sv)"
proof -
  have ok: "registry_ok (sv_devices sv)" using service_parts [OF assms(1)] by simp
  obtain ps where ps: "snapshot (sv_devices sv) = Inr ps" using snapshot_succeeds [OF ok] by blast
  obtain code n sv' where c: "show_pairing_code isdigit cl sv = (Inr (code, n), sv')" "gateway_ok sv'" using show_code_ok [OF assms] by blast
  obtain bs where "build_gateway_briefing_v2 ps (get_alerts 20 (cx_storage (rg_cx (sv_devices sv))))
      (pg_items (get_logs None 20 (cx_storage (rg_cx (sv_devices sv))))) (pairing_expires_in (cl_left2 cl) (sv_sessions sv')) = Inr bs"
    using briefing_builds [OF ok ps] by blast
  with ps c show ?thesis by (simp add: show_dashboard_def Let_def)
qed

lemma fine_fault:
  assumes "gateway_ok sv" "fault_ok body"
  shows "fine (post_fault cl i body sv)"
proof -
  obtain r rg where c: "inject_fault (cl_world cl) i body (sv_devices sv) = (r, rg)" by (cases "inject_fault (cl_world cl) i body (sv_devices sv)")
  have st: "registry_step_ok (sv_devices sv) rg \<and> answers_public r"
    by (rule fault_answers [OF _ assms(2) c]) (use service_parts [OF assms(1)] in simp)
  note g = gateway_step [OF assms(1) conjunct1 [OF st]]
  show ?thesis
  proof (cases r)
    case (Inr d)
    then have "is_public d" using st by simp
    then obtain sv' where b: "broadcast_state cl d (sv\<lparr>sv_devices := rg\<rparr>) = (Inr (), sv')" "gateway_ok sv'"
      using fine_broadcast_state [OF g] by blast
    have "registry_step_ok (sv_devices sv') (snd (drain_alerts (sv_devices sv')))"
      using run_op_step [of "sv_devices sv'" Drain] service_parts [OF b(2)] by simp
    from gateway_step [OF b(2) this] b(1) Inr c show ?thesis by (simp add: post_fault_def drain_alerts_def)
  qed (use st g c in \<open>simp add: post_fault_def\<close>)
qed

lemma fine_environment:
  assumes "gateway_ok sv" "injection_ok body"
  shows "fine (post_environment cl body sv)"
proof -
  obtain r rg where c: "inject_environment (cl_world cl) body (sv_devices sv) = (r, rg)"
    by (cases "inject_environment (cl_world cl) body (sv_devices sv)")
  have st: "registry_step_ok (sv_devices sv) rg \<and> answers_public r"
    by (rule injection_answers [OF _ assms(2) c]) (use service_parts [OF assms(1)] in simp)
  note g = gateway_step [OF assms(1) conjunct1 [OF st]]
  show ?thesis
  proof (cases r)
    case (Inr d)
    then have "is_public d" using st by simp
    then obtain sv' where "broadcast_state cl d (sv\<lparr>sv_devices := rg\<rparr>) = (Inr (), sv')" "gateway_ok sv'"
      using fine_broadcast_state [OF g] by blast
    with Inr c show ?thesis by (simp add: post_environment_def)
  qed (use st g c in \<open>simp add: post_environment_def\<close>)
qed

section \<open>Traffic\<close>

record deployment =
  dp_platform :: platform
  dp_isdigit :: "nat \<Rightarrow> bool"
  dp_parse :: "pyval \<Rightarrow> envelope option"
  dp_config :: config

datatype traffic =
    ApiCall clock_readings api_request "string option"
  | AdminCall clock_readings admin_request "string option"
  | MqttMessage clock_readings string
  | WsConnect clock_readings nat "string option"
  | WsMessage clock_readings int nat string ws_input
  | TelemetryTurn "nat \<Rightarrow> world" "nat \<Rightarrow> bool" "nat \<Rightarrow> int" int
  | HeartbeatTurn "nat \<Rightarrow> bool" int

abbreviation api_call :: "deployment \<Rightarrow> clock_readings \<Rightarrow> api_request \<Rightarrow> string option \<Rightarrow> service \<Rightarrow> (reply, service) outcome" where
  "api_call dp \<equiv> api (dp_platform dp) (dp_isdigit dp) (cf_mqtt_enabled (dp_config dp))"

abbreviation admin_call :: "deployment \<Rightarrow> clock_readings \<Rightarrow> admin_request \<Rightarrow> string option \<Rightarrow> service \<Rightarrow> (reply, service) outcome" where
  "admin_call dp \<equiv> admin_api (dp_platform dp) (dp_isdigit dp) (cf_admin_token (dp_config dp))"

fun serve :: "deployment \<Rightarrow> traffic \<Rightarrow> service \<Rightarrow> service" where
  "serve dp (ApiCall cl request authorization) sv = snd (api_call dp cl request authorization sv)"
| "serve dp (AdminCall cl request token) sv = snd (admin_call dp cl request token sv)"
| "serve dp (MqttMessage cl payload) sv =
     snd (handle_message (dp_platform dp) (dp_parse dp) (dp_config dp) (cl_takes cl) (cl_auth cl) (cl_command cl) payload sv)"
| "serve dp (WsConnect cl sink authorization) sv = snd (ws_open (dp_platform dp) cl sink authorization sv)"
| "serve dp (WsMessage cl wall2 sink credential input) sv = snd (ws_turn (dp_platform dp) (dp_parse dp) cl wall2 sink credential input sv)"
| "serve dp (TelemetryTurn ws takes stamps wall) sv = snd (telemetry_step ws takes stamps wall sv)"
| "serve dp (HeartbeatTurn takes wall) sv = snd (heartbeat_step takes wall sv)"

fun api_ok :: "deployment \<Rightarrow> clock_readings \<Rightarrow> api_request \<Rightarrow> bool" where
  \<comment> \<open>what the request models let through, and integers that \<open>sqlite3\<close> can bind\<close>
  "api_ok dp cl (PairClient source client_id code) = (pair_ok (dp_isdigit dp) (cl_pair cl) \<and> ascii code)"
| "api_ok dp cl (PostDevice body) = valid_registration body"
| "api_ok dp cl (ListLogs cursor limit) = (case cursor of None \<Rightarrow> True | Some c \<Rightarrow> fits_sqlite c)"
| "api_ok dp cl (ListHistory i from_ms to_ms limit) = (fits_sqlite from_ms \<and> (case to_ms of None \<Rightarrow> True | Some t \<Rightarrow> fits_sqlite t) \<and> fits_sqlite (cl_wall cl))"
| "api_ok dp cl _ = True"

fun admin_ok :: "deployment \<Rightarrow> clock_readings \<Rightarrow> admin_request \<Rightarrow> bool" where
  "admin_ok dp cl (PostFault i body) = fault_ok body"
| "admin_ok dp cl (PostEnvironment body) = injection_ok body"
| "admin_ok dp cl (ProvisionDevice body) = True"
| "admin_ok dp cl _ = pair_ok (dp_isdigit dp) (cl_pair cl)"

fun traffic_ok :: "deployment \<Rightarrow> traffic \<Rightarrow> bool" where
  "traffic_ok dp (ApiCall cl request authorization) = api_ok dp cl request"
| "traffic_ok dp (AdminCall cl request token) = admin_ok dp cl request"
| "traffic_ok dp (TelemetryTurn ws takes stamps wall) = (\<forall>k. world_ok (ws k))"
| "traffic_ok dp _ = True"

definition new_service :: "sessions \<Rightarrow> registry \<Rightarrow> service" where
  "new_service ss rg = \<lparr>sv_sessions = ss, sv_devices = rg, sv_results = [], sv_nonces = [], sv_sinks = []\<rparr>"

inductive served :: "deployment \<Rightarrow> service \<Rightarrow> bool" for dp where
  start: "storage_ok st \<Longrightarrow> new_registry stamp st default_drivers = Inr rg \<Longrightarrow>
    new_sessions (dp_isdigit dp) code ttl draws clock = Inr ss \<Longrightarrow> ascii (se_code ss) \<Longrightarrow> served dp (new_service ss rg)"
| step: "served dp sv \<Longrightarrow> traffic_ok dp t \<Longrightarrow> served dp (serve dp t sv)"

lemma fine_api:
  assumes "gateway_ok sv" "json_quiet (dp_platform dp)" "api_ok dp cl request"
  shows "fine (api_call dp cl request a sv)"
proof (cases request)
  case (PostDevice body)
  have "de_id body \<noteq> []"
    using assms(3) PostDevice by (auto simp: valid_registration_def valid_declaration_def device_id_pattern_def)
  with assms PostDevice show ?thesis by (simp add: api_def fine_session fine_post_device)
qed (use assms in \<open>simp_all add: api_def fine_session fine_devices fine_post_room fine_delete fine_command fine_pair_client
    fine_logs fine_history split: option.split_asm\<close>)

lemma fine_admin:
  assumes "gateway_ok sv" "admin_ok dp cl request"
  shows "fine (admin_call dp cl request a sv)"
proof (cases "require_admin (cf_admin_token (dp_config dp)) a")
  case (Inl x)
  then have "is_gateway x" by (auto simp: require_admin_def split: if_split_asm)
  with Inl assms(1) show ?thesis by (simp add: admin_api_def)
next
  case (Inr u)
  show ?thesis
  proof (cases request)
    case ShowPairingCode
    with assms Inr show ?thesis using show_code_ok [OF assms(1), of "dp_isdigit dp" cl] by (auto simp: admin_api_def)
  qed (use assms Inr in \<open>simp_all add: admin_api_def fine_dashboard fine_fault fine_environment\<close>)
qed

lemma telemetry_ok:
  assumes "gateway_ok sv" "\<forall>k. world_ok (ws k)"
  shows "gateway_ok (snd (telemetry_step ws takes stamps wall sv))"
proof -
  obtain r rg where t: "tick ws (sv_devices sv) = (r, rg)" by (cases "tick ws (sv_devices sv)")
  have "registry_step_ok (sv_devices sv) rg"
    using tick_step [OF _ assms(2) t] service_parts [OF assms(1)] by simp
  note g = gateway_step [OF assms(1) this]
  show ?thesis
  proof (cases r)
    case (Inr changed)
    obtain q sv' where q: "broadcast_states takes stamps 0 changed (sv\<lparr>sv_devices := rg\<rparr>) = (q, sv')"
      by (cases "broadcast_states takes stamps 0 changed (sv\<lparr>sv_devices := rg\<rparr>)")
    then have g': "gateway_ok sv'" using broadcast_states_sel [OF q] g by (simp add: gateway_ok_def)
    show ?thesis
    proof (cases q)
      case (Inr evs)
      have "gateway_ok (sv'\<lparr>sv_devices := in_storage (prune_environment_history n) (sv_devices sv')\<rparr>)" for n
        using g' by (auto simp: gateway_ok_def in_storage_def registry_ok_parts context_ok_def)
      with Inr q \<open>r = Inr changed\<close> t show ?thesis by (simp add: telemetry_step_def)
    qed (use q g' \<open>r = Inr changed\<close> t in \<open>simp add: telemetry_step_def\<close>)
  qed (use t g in \<open>simp add: telemetry_step_def\<close>)
qed

lemma ws_command_ok:
  assumes "gateway_ok sv"
  shows "gateway_ok (snd (ws_command pf parse takes wall rd credential raw sv))"
proof -
  obtain r ss where r: "authenticate pf wall credential (sv_sessions sv) = (r, ss)" by (cases "authenticate pf wall credential (sv_sessions sv)")
  have g: "gateway_ok (sv\<lparr>sv_sessions := ss\<rparr>)"
    using authenticate_handled [of pf wall credential "sv_sessions sv"] r assms by (simp add: gateway_ok_def)
  with r show ?thesis
    by (auto simp: ws_command_def split: sum.split option.split prod.split dest: process_ok [OF g])
qed

lemma ws_turn_ok:
  assumes "gateway_ok sv"
  shows "gateway_ok (snd (ws_turn pf parse cl wall2 sink credential input sv))"
proof -
  obtain r ss where r: "authenticate pf (cl_auth cl) credential (sv_sessions sv) = (r, ss)"
    by (cases "authenticate pf (cl_auth cl) credential (sv_sessions sv)")
  have g: "gateway_ok (sv\<lparr>sv_sessions := ss\<rparr>)"
    using authenticate_handled [of pf "cl_auth cl" credential "sv_sessions sv"] r assms by (simp add: gateway_ok_def)
  have w: "gateway_ok sv'" if "ws_command pf parse (cl_takes cl) wall2 (cl_command cl) credential raw (sv\<lparr>sv_sessions := ss\<rparr>) = (ans, sv')" for ans sv' raw
    using ws_command_ok [OF g] that by (metis snd_conv)
  from r g show ?thesis
    by (auto simp: ws_turn_def split: sum.split ws_input.split prod.split ws_answer.split dest: w)
qed

lemma mqtt_ok:
  assumes "gateway_ok sv"
  shows "gateway_ok (snd (handle_message pf parse c takes wall rd payload sv))"
proof -
  have g: "gateway_ok (sv\<lparr>sv_sessions := ss\<rparr>)" if "authenticate pf wall credential (sv_sessions sv) = (r, ss)" for credential r ss
    using authenticate_handled [of pf wall credential "sv_sessions sv"] that assms by (simp add: gateway_ok_def)
  show ?thesis using assms
    by (auto simp: handle_message_def mqtt_command_def Let_def split: sum.split pyval.split prod.split option.split dest: g process_ok [OF g])
qed

lemma served_ok:
  assumes "served dp sv" "json_quiet (dp_platform dp)"
  shows "gateway_ok sv"
  using assms(1)
proof (induction rule: served.induct)
  case (start st stamp rg code ttl draws clock ss)
  then show ?case using default_registry [OF start(1), of stamp] by (auto simp: gateway_ok_def new_service_def)
next
  case (step sv t)
  show ?case
  proof (cases t)
    case (ApiCall cl request a)
    with fine_api [OF step(3) assms(2), of cl request a] step(2) show ?thesis by (simp add: fine_def)
  next
    case (AdminCall cl request token)
    with fine_admin [OF step(3), of dp cl request token] step(2) show ?thesis by (simp add: fine_def)
  next
    case (WsConnect cl sink a)
    have "gateway_ok (sv\<lparr>sv_sessions := ss\<rparr>)" if "authenticate (dp_platform dp) (cl_auth cl) credential (sv_sessions sv) = (r, ss)" for credential r ss
      using authenticate_handled [of "dp_platform dp" "cl_auth cl" credential "sv_sessions sv"] that step(3) by (simp add: gateway_ok_def)
    with WsConnect step(3) show ?thesis by (auto simp: ws_open_def split: sum.split prod.split)
  qed (use step in \<open>simp_all add: mqtt_ok ws_turn_ok telemetry_ok heartbeat_step_def\<close>)
qed

section \<open>Properties\<close>


definition demo_deployment :: deployment where
  "demo_deployment = \<lparr>dp_platform = demo_platform\<lparr>pf_json_loads := \<lambda>b. Inl ValueError\<rparr>, dp_isdigit = (\<lambda>n. 48 \<le> n \<and> n \<le> 57),
     dp_parse = (\<lambda>v. None), dp_config = demo_config\<rparr>"

definition demo_readings_at :: "int \<Rightarrow> clock_readings" where
  "demo_readings_at wall = \<lparr>cl_auth = wall, cl_wall = wall, cl_audit = wall, cl_stamp = [],
     cl_pair = \<lparr>pr_now = 1, pr_draws = random_pairing_code, pr_rotated = 1, pr_clock = 1, pr_credential = ''c'', pr_key = ''k'',
       pr_wall = wall, pr_new_draws = random_pairing_code, pr_new_rotated = 1\<rparr>,
     cl_left = 1, cl_left2 = 1, cl_command = demo_clock 1 wall, cl_world = calm_world, cl_takes = (\<lambda>_. True)\<rparr>"

lemma random_draws_ok: "draws_ok (\<lambda>n. 48 \<le> n \<and> n \<le> 57) random_pairing_code"
proof -
  have m: "k mod 10 < 80 \<and> k mod 10 \<le> 9" for k :: nat
    using mod_less_divisor [of 10 k] by linarith
  have "ascii (random_pairing_code n) \<and> validate_pairing_code (\<lambda>n. 48 \<le> n \<and> n \<le> 57) (random_pairing_code n) = Inr (random_pairing_code n)" for n
    by (simp add: ascii_def validate_pairing_code_def random_pairing_code_def m)
  moreover have "random_pairing_code 0 \<noteq> random_pairing_code 1" by (simp add: random_pairing_code_def)
  ultimately show ?thesis unfolding draws_ok_def by (metis one_less_numeral_iff semiring_norm(76) zero_less_numeral)
qed


definition authorised :: "deployment \<Rightarrow> traffic \<Rightarrow> service \<Rightarrow> bool" where
  \<comment> \<open>the traffic of somebody with a valid credential or the maintenance token, and the gateway's own turns\<close>
  "authorised dp t sv \<longleftrightarrow> (case t of
       ApiCall cl request a \<Rightarrow> (\<exists>s. fst (require_session (dp_platform dp) (cl_auth cl) a (sv_sessions sv)) = Inr s)
     | AdminCall cl request token \<Rightarrow> token = Some (cf_admin_token (dp_config dp))
     | MqttMessage cl payload \<Rightarrow> (\<exists>raw credential s. pf_json_loads (dp_platform dp) payload = Inr (PDict raw)
         \<and> py_get raw ''credential'' = PStr credential \<and> fst (authenticate (dp_platform dp) (cl_auth cl) credential (sv_sessions sv)) = Inr s)
     | WsConnect cl sink a \<Rightarrow> (\<exists>s. fst (require_session (dp_platform dp) (cl_auth cl) a (sv_sessions sv)) = Inr s)
     | WsMessage cl wall2 sink credential input \<Rightarrow> (\<exists>s. fst (authenticate (dp_platform dp) (cl_auth cl) credential (sv_sessions sv)) = Inr s)
     | _ \<Rightarrow> True)"

definition same_house :: "service \<Rightarrow> service \<Rightarrow> bool" where
  "same_house sv sv' \<longleftrightarrow> sv_devices sv' = sv_devices sv \<and> sv_results sv' = sv_results sv \<and> sv_nonces sv' = sv_nonces sv
     \<and> set (sv_sinks sv') \<subseteq> set (sv_sinks sv)"

lemma same_house_sessions [simp]: "same_house sv (sv\<lparr>sv_sessions := ss\<rparr>)" "same_house sv sv"
  by (simp_all add: same_house_def)

lemma unauthorised_session:
  assumes "\<nexists>s. fst (require_session pf (cl_auth cl) a (sv_sessions sv)) = Inr s"
  shows "\<exists>x ss. with_session pf cl a handler sv = (Inl x, sv\<lparr>sv_sessions := ss\<rparr>)
    \<and> http_command pf takes (cl_auth cl) rd a e sv = (Inl x, sv\<lparr>sv_sessions := ss\<rparr>)"
proof -
  obtain r ss where r: "require_session pf (cl_auth cl) a (sv_sessions sv) = (r, ss)"
    by (cases "require_session pf (cl_auth cl) a (sv_sessions sv)")
  with assms obtain x where "r = Inl x" by (cases r) auto
  with r show ?thesis by (auto simp: with_session_def http_command_def)
qed

text \<open>C3: every door is guarded. Traffic of somebody who has neither a credential that authenticates nor the
maintenance token leaves the devices, rooms, audit log, caches and event streams exactly as they are,
through whichever front end it comes and whatever it asks for; a request to pair is the one it may
make, and that changes the sessions only.\<close>

theorem closed_doors:
  assumes "\<not> authorised dp t sv"
  shows "same_house sv (serve dp t sv)"
proof (cases t)
  case (ApiCall cl request a)
  then have u: "\<nexists>s. fst (require_session (dp_platform dp) (cl_auth cl) a (sv_sessions sv)) = Inr s"
    using assms by (simp add: authorised_def)
  have w: "same_house sv (snd (with_session (dp_platform dp) cl a handler sv))" for handler :: "client_session \<Rightarrow> service \<Rightarrow> (reply, service) outcome"
    using unauthorised_session [OF u, of handler] by fastforce
  have c: "\<exists>x ss. http_command (dp_platform dp) takes (cl_auth cl) rd a e sv = (Inl x, sv\<lparr>sv_sessions := ss\<rparr>)" for takes rd e
    using unauthorised_session [OF u, of undefined takes rd e] by blast
  show ?thesis
  proof (cases request)
    case (PairClient source client_id code)
    with ApiCall show ?thesis by (auto simp: api_def pair_client_def split: prod.split sum.split)
  next
    case (PostCommand body)
    with ApiCall c [of "cl_takes cl" "cl_command cl" body] show ?thesis by (auto simp: api_def map_outcome_def)
  qed (use ApiCall in \<open>simp_all add: api_def w\<close>)
next
  case (AdminCall cl request token)
  with assms show ?thesis by (simp add: authorised_def admin_api_def require_admin_def)
next
  case (MqttMessage cl payload)
  show ?thesis
  proof (cases "\<exists>raw credential. pf_json_loads (dp_platform dp) payload = Inr (PDict raw) \<and> py_get raw ''credential'' = PStr credential")
    case True
    then obtain raw credential where p: "pf_json_loads (dp_platform dp) payload = Inr (PDict raw)" "py_get raw ''credential'' = PStr credential" by blast
    obtain r ss where r: "authenticate (dp_platform dp) (cl_auth cl) credential (sv_sessions sv) = (r, ss)"
      by (cases "authenticate (dp_platform dp) (cl_auth cl) credential (sv_sessions sv)")
    with assms MqttMessage p obtain x where "r = Inl x" by (cases r) (auto simp: authorised_def)
    with r p MqttMessage show ?thesis by (simp add: handle_message_def mqtt_command_def split: pyval.split)
  next
    case False
    with MqttMessage show ?thesis by (auto simp: handle_message_def mqtt_command_def split: sum.split pyval.split)
  qed
next
  case (WsConnect cl sink a)
  show ?thesis
  proof (cases "extract_bearer a")
    case (Inr credential)
    obtain r ss where r: "authenticate (dp_platform dp) (cl_auth cl) credential (sv_sessions sv) = (r, ss)"
      by (cases "authenticate (dp_platform dp) (cl_auth cl) credential (sv_sessions sv)")
    with assms WsConnect Inr obtain x where "r = Inl x" by (cases r) (auto simp: authorised_def require_session_def)
    with r Inr WsConnect show ?thesis by (simp add: ws_open_def)
  qed (use WsConnect in \<open>simp add: ws_open_def\<close>)
next
  case (WsMessage cl wall2 sink credential input)
  obtain r ss where r: "authenticate (dp_platform dp) (cl_auth cl) credential (sv_sessions sv) = (r, ss)"
    by (cases "authenticate (dp_platform dp) (cl_auth cl) credential (sv_sessions sv)")
  with assms WsMessage obtain x where "r = Inl x" by (cases r) (auto simp: authorised_def)
  with r WsMessage show ?thesis by (simp add: ws_turn_def same_house_def remove_sink_def)
qed (use assms in \<open>simp_all add: authorised_def\<close>)

theorem closed_doors_witness:
  "sv_devices (serve demo_deployment (ApiCall (demo_readings_at 5) (DeleteDevice ''light-1'') None) demo_service) = sv_devices demo_service"
proof -
  have "\<not> authorised demo_deployment (ApiCall (demo_readings_at 5) (DeleteDevice ''light-1'') None) demo_service"
    by (simp add: authorised_def require_session_def extract_bearer_def)
  from closed_doors [OF this] show ?thesis by (simp add: same_house_def)
qed

text \<open>An integer beyond 64 bits in a query ends in an internal error, although the request is valid
and its sender is authenticated.\<close>

lemma huge_cursor_raises:
  assumes "fst (require_session (dp_platform dp) (cl_auth cl) a (sv_sessions sv)) = Inr session"
    and "1 \<le> limit" "limit \<le> 100" "2 ^ 63 \<le> c"
  shows "fst (api_call dp cl (ListLogs (Some c) limit) a sv) = Inl (Raised OverflowError)"
proof -
  obtain ss where "require_session (dp_platform dp) (cl_auth cl) a (sv_sessions sv) = (Inr session, ss)"
    using assms(1) by (metis prod.collapse)
  with assms show ?thesis by (simp add: api_def with_session_def list_logs_def fits_sqlite_def)
qed

end
