(* ===== verification/Lifecycle.thy ===== *)
theory Lifecycle
  imports RouteRuns
begin

text \<open>
  The life of the gateway process: the broker connection of \<open>mqtt_transport.py\<close> (start, stop
  and the callbacks of the client's thread), \<open>GatewayService.start\<close> and \<open>stop\<close>, and the
  start-up of \<open>__main__.py\<close>. The paho client is a log of the calls it got, newest first; what
  the platform answers (which calls raise, what a default TLS context looks like, whether a
  certificate chain loads) is the record \<open>broker_world\<close>. The sink \<open>self.publish_event\<close> of the
  bridge has the number \<open>BRIDGE_SINK\<close> among the sinks of the service.
\<close>

section \<open>The client\<close>

datatype tls_version = TLSv1_0 | TLSv1_1 | TLSv1_2 | TLSv1_3

datatype verify_mode = CERT_NONE | CERT_OPTIONAL | CERT_REQUIRED

record tls_context =
  tc_cafile :: string
  tc_minimum :: tls_version
  tc_verify :: verify_mode
  tc_check_hostname :: bool
  tc_chain :: "(string \<times> string) option"

datatype client_call =
    TlsSetContext tls_context
  | TlsInsecureSet bool
  | UsernamePwSet string string
  | ConnectAsync string int nat
  | LoopStart
  | ClientDisconnect
  | LoopStop
  | Subscribe string nat
  | Publish publication

record mqtt_client =
  cl_id :: string
  cl_calls :: "client_call list"
  cl_handlers :: bool
  cl_running :: bool

record broker_world =
  bw_paho :: bool
  bw_token :: string
  bw_default :: "string \<Rightarrow> (tls_version \<times> verify_mode \<times> bool) option"
  bw_chain :: "string \<Rightarrow> string \<Rightarrow> bool"
  bw_raises :: "client_call \<Rightarrow> bool"

datatype start_error = BadConfig py_exc | NoPaho | TlsError | ClientRaised client_call | CallbackRaised exn

datatype background = TelemetryLoop | HeartbeatLoop

record process =
  pc_service :: service
  pc_client :: "mqtt_client option"
  pc_loop :: "nat option"
  pc_started :: bool
  pc_tasks :: "background list"
  pc_closed :: bool

type_synonym 'a step = "process \<Rightarrow> (start_error + 'a) \<times> process"

definition BRIDGE_SINK :: nat where "BRIDGE_SINK = 0"

definition new_process :: "service \<Rightarrow> process" where
  "new_process sv = \<lparr>pc_service = sv, pc_client = None, pc_loop = None, pc_started = False, pc_tasks = [], pc_closed = False\<rparr>"

definition then_do :: "unit step \<Rightarrow> unit step \<Rightarrow> unit step" where
  "then_do m k pr = (case m pr of (Inl x, pr') \<Rightarrow> (Inl x, pr') | (Inr _, pr') \<Rightarrow> k pr')"

definition do_nothing :: "unit step" where
  "do_nothing pr = (Inr (), pr)"

definition logged :: "client_call \<Rightarrow> bool \<Rightarrow> mqtt_client \<Rightarrow> mqtt_client" where
  \<comment> \<open>the network thread runs from a \<open>loop_start\<close> to a \<open>loop_stop\<close> that returns\<close>
  "logged x raises cl = cl\<lparr>cl_calls := x # cl_calls cl,
     cl_running := (if raises then cl_running cl
       else case x of LoopStart \<Rightarrow> True | LoopStop \<Rightarrow> False | _ \<Rightarrow> cl_running cl)\<rparr>"

definition client_do :: "broker_world \<Rightarrow> client_call \<Rightarrow> unit step" where
  "client_do w x pr = (case pc_client pr of
       None \<Rightarrow> (Inr (), pr)
     | Some cl \<Rightarrow> (if bw_raises w x then Inl (ClientRaised x) else Inr (), pr\<lparr>pc_client := Some (logged x (bw_raises w x) cl)\<rparr>))"

section \<open>Starting and stopping the bridge\<close>

definition create_paho_client :: "broker_world \<Rightarrow> unit step" where
  \<comment> \<open>\<open>self.client or self._create_paho_client()\<close>\<close>
  "create_paho_client w pr = (case pc_client pr of
       Some cl \<Rightarrow> (Inr (), pr)
     | None \<Rightarrow> if \<not> bw_paho w then (Inl NoPaho, pr)
         else (Inr (), pr\<lparr>pc_client := Some \<lparr>cl_id = ''devcontrol-gateway-'' @ bw_token w, cl_calls = [], cl_handlers = False, cl_running = False\<rparr>\<rparr>))"

definition tls_context_for :: "broker_world \<Rightarrow> config \<Rightarrow> start_error + tls_context" where
  "tls_context_for w c = (case bw_default w (cf_mqtt_ca c) of
       None \<Rightarrow> Inl TlsError
     | Some (minimum, mode, hostname) \<Rightarrow>
         (let context = \<lparr>tc_cafile = cf_mqtt_ca c, tc_minimum = minimum, tc_verify = mode, tc_check_hostname = hostname, tc_chain = None\<rparr>
              \<lparr>tc_minimum := TLSv1_2, tc_verify := CERT_REQUIRED, tc_check_hostname := True\<rparr>
          in case (cf_client_cert c, cf_client_key c) of
               (Some cert, Some key) \<Rightarrow> if bw_chain w cert key then Inr (context\<lparr>tc_chain := Some (cert, key)\<rparr>) else Inl TlsError
             | _ \<Rightarrow> Inr context))"

definition configure_tls :: "broker_world \<Rightarrow> config \<Rightarrow> unit step" where
  "configure_tls w c pr = (case tls_context_for w c of
       Inl x \<Rightarrow> (Inl x, pr)
     | Inr context \<Rightarrow>
         then_do (client_do w (TlsSetContext context))
           (then_do (client_do w (TlsInsecureSet False))
             (if cf_username c \<noteq> [] \<and> cf_password c \<noteq> [] then client_do w (UsernamePwSet (cf_username c) (cf_password c))
              else do_nothing)) pr)"

definition attach :: "unit step" where
  \<comment> \<open>the three callbacks and the sink\<close>
  "attach pr = (Inr (), pr\<lparr>pc_client := map_option (\<lambda>cl. cl\<lparr>cl_handlers := True\<rparr>) (pc_client pr),
     pc_service := add_sink BRIDGE_SINK (pc_service pr)\<rparr>)"

definition connect_client :: "broker_world \<Rightarrow> config \<Rightarrow> unit step" where
  "connect_client w c pr =
     (case then_do (client_do w (ConnectAsync (cf_mqtt_host c) (cf_mqtt_port c) 60)) (client_do w LoopStart) pr of
        (Inl x, pr') \<Rightarrow> (Inl x, pr'\<lparr>pc_service := remove_sink BRIDGE_SINK (pc_service pr')\<rparr>)
      | (Inr _, pr') \<Rightarrow> (Inr (), pr'\<lparr>pc_started := True\<rparr>))"

definition bridge_start :: "broker_world \<Rightarrow> (string \<Rightarrow> bool) \<Rightarrow> nat \<Rightarrow> config \<Rightarrow> unit step" where
  \<comment> \<open>\<open>event_loop\<close> is the running loop\<close>
  "bridge_start w is_file event_loop c pr =
     (if pc_started pr then (Inr (), pr)
      else case validate_config is_file c of
        Inl x \<Rightarrow> (Inl (BadConfig x), pr)
      | Inr _ \<Rightarrow> then_do (create_paho_client w) (then_do (configure_tls w c) (then_do attach (connect_client w c)))
          (pr\<lparr>pc_loop := Some event_loop\<rparr>))"

definition bridge_stop :: "broker_world \<Rightarrow> unit step" where
  \<comment> \<open>\<open>loop_stop\<close> is in a \<open>finally\<close>: an exception of its own replaces that of \<open>disconnect\<close>\<close>
  "bridge_stop w pr =
     (if \<not> pc_started pr then (Inr (), pr)
      else case client_do w ClientDisconnect (pr\<lparr>pc_service := remove_sink BRIDGE_SINK (pc_service pr), pc_started := False\<rparr>) of
        (r, pr1) \<Rightarrow> (case client_do w LoopStop pr1 of
            (Inl x, pr2) \<Rightarrow> (Inl x, pr2) | (Inr _, pr2) \<Rightarrow> (r, pr2)))"

section \<open>Publishing\<close>

fun publish_all :: "broker_world \<Rightarrow> publication list \<Rightarrow> unit step" where
  \<comment> \<open>\<open>_publish_json\<close> for each\<close>
  "publish_all w [] = do_nothing"
| "publish_all w (p # ps) = then_do (client_do w (Publish p)) (publish_all w ps)"

definition took :: "'e + 'a \<Rightarrow> bool" where
  "took r \<longleftrightarrow> (case r of Inl _ \<Rightarrow> False | Inr _ \<Rightarrow> True)"

definition bridge_broadcast :: "broker_world \<Rightarrow> config \<Rightarrow> (nat \<Rightarrow> bool) \<Rightarrow> event \<Rightarrow> process \<Rightarrow> process" where
  \<comment> \<open>\<open>GatewayService.broadcast\<close> with the bridge among the sinks, which takes an event when its
     publications return\<close>
  "bridge_broadcast w c takes ev pr =
     (if BRIDGE_SINK \<in> set (sv_sinks (pc_service pr))
      then case publish_all w (publish_event c ev) pr of
        (r, pr') \<Rightarrow> pr'\<lparr>pc_service := snd (broadcast (takes(BRIDGE_SINK := took r)) ev (pc_service pr'))\<rparr>
      else pr\<lparr>pc_service := snd (broadcast takes ev (pc_service pr))\<rparr>)"

section \<open>Callbacks\<close>

datatype mqtt_payload = PayloadBytes string | OtherPayload

definition on_message :: "config \<Rightarrow> (nat \<Rightarrow> bool) \<Rightarrow> mqtt_payload \<Rightarrow> process \<Rightarrow> string option" where
  \<comment> \<open>the payload handed to the event loop; \<open>is_closed\<close> tells which loops are closed\<close>
  "on_message c is_closed payload pr = (case payload of
       OtherPayload \<Rightarrow> None
     | PayloadBytes b \<Rightarrow>
         if cf_max_message c < int (length b) then None
         else (case pc_loop pr of None \<Rightarrow> None | Some l \<Rightarrow> if is_closed l then None else Some b))"

definition run_message ::
  "broker_world \<Rightarrow> platform \<Rightarrow> (pyval \<Rightarrow> envelope option) \<Rightarrow> config \<Rightarrow> (nat \<Rightarrow> bool) \<Rightarrow> int \<Rightarrow> command_readings \<Rightarrow> string
   \<Rightarrow> process \<Rightarrow> process" where
  \<comment> \<open>\<open>handle_message\<close> on the event loop; \<open>_consume_future\<close> logs what it raises\<close>
  "run_message w pf parse c takes wall rd payload pr =
     (case mqtt_command pf parse c wall rd payload (pc_service pr) of
        (None, sv) \<Rightarrow> pr\<lparr>pc_service := sv\<rparr>
      | (Some (session, result, events), sv) \<Rightarrow>
          (case client_do w (Publish \<lparr>pu_topic = cf_prefix c @ ''/clients/'' @ cs_digest session @ ''/results'',
                pu_value = ResultPublished result, pu_qos = 1, pu_retain = False\<rparr>) (pr\<lparr>pc_service := sv\<rparr>) of
             (Inl x, pr') \<Rightarrow> pr'
           | (Inr _, pr') \<Rightarrow> fold (bridge_broadcast w c takes) events pr'))"

definition receive ::
  "broker_world \<Rightarrow> platform \<Rightarrow> (pyval \<Rightarrow> envelope option) \<Rightarrow> config \<Rightarrow> (nat \<Rightarrow> bool) \<Rightarrow> (nat \<Rightarrow> bool) \<Rightarrow> int \<Rightarrow> command_readings
   \<Rightarrow> mqtt_payload \<Rightarrow> process \<Rightarrow> process" where
  "receive w pf parse c is_closed takes wall rd payload pr = (case on_message c is_closed payload pr of
       None \<Rightarrow> pr | Some b \<Rightarrow> run_message w pf parse c takes wall rd b pr)"

definition connected :: "broker_world \<Rightarrow> config \<Rightarrow> int \<Rightarrow> (nat \<Rightarrow> int) \<Rightarrow> unit step" where
  \<comment> \<open>\<open>_on_connect\<close>\<close>
  "connected w c code stamps pr = (case on_connect c code stamps (pc_service pr) of
       (r, topics) \<Rightarrow>
         (case (if topics = [] then do_nothing else client_do w (Subscribe (hd topics) 1)) pr of
            (Inl x, pr') \<Rightarrow> (Inl x, pr')
          | (Inr _, pr') \<Rightarrow> (case r of Inl x \<Rightarrow> (Inl (CallbackRaised x), pr') | Inr ps \<Rightarrow> publish_all w ps pr')))"

definition disconnect_warns :: "int option \<Rightarrow> bool" where
  \<comment> \<open>\<open>_on_disconnect\<close> only logs\<close>
  "disconnect_warns code \<longleftrightarrow> code \<noteq> Some 0 \<and> code \<noteq> None"

section \<open>The service\<close>

definition service_start :: "broker_world \<Rightarrow> (string \<Rightarrow> bool) \<Rightarrow> nat \<Rightarrow> config \<Rightarrow> unit step" where
  "service_start w is_file event_loop c pr =
     (case (if cf_mqtt_enabled c then bridge_start w is_file event_loop c pr else (Inr (), pr)) of
        (Inl x, pr') \<Rightarrow> (Inl x, pr')
      | (Inr _, pr') \<Rightarrow> (Inr (), if cf_background c \<and> pc_tasks pr' = [] then pr'\<lparr>pc_tasks := [TelemetryLoop, HeartbeatLoop]\<rparr> else pr'))"

definition service_stop :: "broker_world \<Rightarrow> config \<Rightarrow> unit step" where
  \<comment> \<open>the tasks end with their cancellation\<close>
  "service_stop w c pr =
     (case (if cf_mqtt_enabled c then bridge_stop w pr else (Inr (), pr)) of
        (Inl x, pr') \<Rightarrow> (Inl x, pr')
      | (Inr _, pr') \<Rightarrow> (Inr (), pr'\<lparr>pc_tasks := [], pc_closed := True\<rparr>))"

section \<open>What the broker is told\<close>

definition secure_context :: "config \<Rightarrow> tls_context \<Rightarrow> bool" where
  "secure_context c t \<longleftrightarrow> tc_cafile t = cf_mqtt_ca c \<and> tc_minimum t \<in> {TLSv1_2, TLSv1_3} \<and> tc_verify t = CERT_REQUIRED
     \<and> tc_check_hostname t"

definition authenticated :: "config \<Rightarrow> client_call list \<Rightarrow> bool" where
  \<comment> \<open>the gateway has shown a certificate or a password to the broker's side of the connection\<close>
  "authenticated c past \<longleftrightarrow>
     (\<exists>t cert key. TlsSetContext t \<in> set past \<and> cf_client_cert c = Some cert \<and> cf_client_key c = Some key \<and> tc_chain t = Some (cert, key))
     \<or> (\<exists>t. TlsSetContext t \<in> set past) \<and> cf_username c \<noteq> [] \<and> cf_password c \<noteq> []
        \<and> UsernamePwSet (cf_username c) (cf_password c) \<in> set past"

definition call_ok :: "config \<Rightarrow> client_call list \<Rightarrow> client_call \<Rightarrow> bool" where
  "call_ok c past x \<longleftrightarrow> (case x of
       TlsSetContext t \<Rightarrow> secure_context c t
     | TlsInsecureSet b \<Rightarrow> \<not> b
     | UsernamePwSet u p \<Rightarrow> \<exists>t. TlsSetContext t \<in> set past
     | ConnectAsync h p k \<Rightarrow> h = cf_mqtt_host c \<and> \<not> blank h \<and> p = cf_mqtt_port c \<and> 1 \<le> p \<and> p \<le> 65535
         \<and> TlsInsecureSet False \<in> set past \<and> authenticated c past
     | Subscribe t q \<Rightarrow> t = command_topic c
     | _ \<Rightarrow> True)"

fun calls_ok :: "config \<Rightarrow> client_call list \<Rightarrow> bool" where
  "calls_ok c [] = True"
| "calls_ok c (x # past) = (call_ok c past x \<and> calls_ok c past)"

definition client_ok :: "config \<Rightarrow> process \<Rightarrow> bool" where
  "client_ok c pr \<longleftrightarrow> (case pc_client pr of None \<Rightarrow> True | Some cl \<Rightarrow> calls_ok c (cl_calls cl))"

definition in_step :: "process \<Rightarrow> bool" where
  \<comment> \<open>the sink, the network thread and the flag of the bridge agree\<close>
  "in_step pr \<longleftrightarrow> (case pc_client pr of None \<Rightarrow> \<not> pc_started pr
       | Some cl \<Rightarrow> (cl_running cl \<longleftrightarrow> pc_started pr) \<and> (pc_started pr \<longrightarrow> cl_handlers cl \<and> pc_loop pr \<noteq> None))
     \<and> (BRIDGE_SINK \<in> set (sv_sinks (pc_service pr)) \<longrightarrow> pc_started pr)"

inductive process_runs :: "config \<Rightarrow> process \<Rightarrow> bool" for c where
  fresh: "BRIDGE_SINK \<notin> set (sv_sinks sv) \<Longrightarrow> process_runs c (new_process sv)"
| start: "process_runs c pr \<Longrightarrow> process_runs c (snd (service_start w is_file event_loop c pr))"
| stop: "process_runs c pr \<Longrightarrow> \<not> bw_raises w LoopStop \<Longrightarrow> process_runs c (snd (service_stop w c pr))"
| message: "process_runs c pr \<Longrightarrow> process_runs c (receive w pf parse c is_closed takes wall rd payload pr)"
| event: "process_runs c pr \<Longrightarrow> process_runs c (bridge_broadcast w c takes ev pr)"
| connect: "process_runs c pr \<Longrightarrow> process_runs c (snd (connected w c code stamps pr))"
| serve: "process_runs c pr \<Longrightarrow> (BRIDGE_SINK \<in> set (sv_sinks sv) \<Longrightarrow> BRIDGE_SINK \<in> set (sv_sinks (pc_service pr))) \<Longrightarrow>
    process_runs c (pr\<lparr>pc_service := sv\<rparr>)"

lemma sinks_remove [simp]: "set (sv_sinks (remove_sink s sv)) = set (sv_sinks sv) - {s}"
  by (auto simp: remove_sink_def)

lemma sinks_add [simp]: "set (sv_sinks (add_sink s sv)) = insert s (set (sv_sinks sv))"
  by (auto simp: add_sink_def)

lemma sinks_removed: "set (sv_sinks (fold remove_sink ss sv)) = set (sv_sinks sv) - set ss"
  by (induction ss arbitrary: sv) auto

lemma sinks_broadcast [simp]: "set (sv_sinks (snd (broadcast takes ev sv))) = {s \<in> set (sv_sinks sv). takes s}"
  by (auto simp: broadcast_def sinks_removed)

lemma sinks_mqtt: "sv_sinks (snd (mqtt_command pf parse c wall rd payload sv)) = sv_sinks sv"
  by (auto simp: mqtt_command_def split: sum.split pyval.split prod.split option.split dest: process_sinks)

definition proc_ok :: "config \<Rightarrow> process \<Rightarrow> bool" where
  "proc_ok c pr \<longleftrightarrow> client_ok c pr \<and> in_step pr"

lemma client_do_ok:
  "proc_ok c pr \<Longrightarrow> (\<And>past. call_ok c past x) \<Longrightarrow> x \<noteq> LoopStart \<Longrightarrow> x \<noteq> LoopStop \<Longrightarrow> proc_ok c (snd (client_do w x pr))"
  by (auto simp: proc_ok_def client_ok_def in_step_def client_do_def logged_def split: option.split client_call.split)

lemma publish_all_ok: "proc_ok c pr \<Longrightarrow> proc_ok c (snd (publish_all w ps pr))"
proof (induction ps arbitrary: pr)
  case (Cons p ps)
  have "proc_ok c (snd (client_do w (Publish p) pr))" by (rule client_do_ok [OF Cons.prems]) (simp_all add: call_ok_def)
  with Cons.IH show ?case by (auto simp: then_do_def split: prod.split sum.split)
qed (simp add: do_nothing_def)

lemma proc_ok_service:
  "proc_ok c pr \<Longrightarrow> (BRIDGE_SINK \<in> set (sv_sinks sv) \<Longrightarrow> BRIDGE_SINK \<in> set (sv_sinks (pc_service pr))) \<Longrightarrow>
   proc_ok c (pr\<lparr>pc_service := sv\<rparr>)"
  by (auto simp: proc_ok_def client_ok_def in_step_def split: option.split)

lemma broadcast_ok: "proc_ok c pr \<Longrightarrow> proc_ok c (bridge_broadcast w c takes ev pr)"
  using publish_all_ok [of c pr w "publish_event c ev"]
  by (auto simp: bridge_broadcast_def split: prod.split intro!: proc_ok_service)

lemma broadcasts_ok: "proc_ok c pr \<Longrightarrow> proc_ok c (fold (bridge_broadcast w c takes) evs pr)"
  by (induction evs arbitrary: pr) (simp_all add: broadcast_ok)

lemma run_message_ok:
  assumes "proc_ok c pr"
  shows "proc_ok c (run_message w pf parse c takes wall rd payload pr)"
proof -
  obtain y sv where y: "mqtt_command pf parse c wall rd payload (pc_service pr) = (y, sv)" by fastforce
  then have "sv_sinks sv = sv_sinks (pc_service pr)"
    using sinks_mqtt [of pf parse c wall rd payload "pc_service pr"] by simp
  with assms have p: "proc_ok c (pr\<lparr>pc_service := sv\<rparr>)" by (auto intro: proc_ok_service)
  have q: "proc_ok c (snd (client_do w (Publish p) (pr\<lparr>pc_service := sv\<rparr>)))" for p
    by (rule client_do_ok [OF p]) (simp_all add: call_ok_def)
  show ?thesis
  proof (cases y)
    case None
    with y p show ?thesis by (simp add: run_message_def)
  next
    case (Some z)
    obtain session result events where "z = (session, result, events)" by (cases z)
    with y Some q show ?thesis
      by (auto simp: run_message_def split: prod.split sum.split intro!: broadcasts_ok) (metis snd_conv)+
  qed
qed

lemma connected_ok:
  assumes "proc_ok c pr"
  shows "proc_ok c (snd (connected w c code stamps pr))"
proof -
  have q: "proc_ok c (snd (client_do w (Subscribe (command_topic c) 1) pr))"
    by (rule client_do_ok [OF assms]) (simp_all add: call_ok_def)
  obtain r ts where r: "on_connect c code stamps (pc_service pr) = (r, ts)" by fastforce
  then have "ts = [] \<or> ts = [command_topic c]" by (auto simp: on_connect_def split: if_split_asm)
  with r q assms show ?thesis
    by (auto simp: connected_def do_nothing_def split: prod.split sum.split intro!: publish_all_ok)
qed

lemma configure_calls:
  assumes "pc_client pr = Some cl" "calls_ok c (cl_calls cl)" "configure_tls w c pr = (r, pr')"
  shows "pr' = pr\<lparr>pc_client := pc_client pr'\<rparr> \<and> (\<exists>cl'. pc_client pr' = Some cl' \<and> calls_ok c (cl_calls cl')
    \<and> cl_handlers cl' = cl_handlers cl \<and> cl_running cl' = cl_running cl
    \<and> (\<forall>u is_file. r = Inr u \<longrightarrow> validate_config is_file c = Inr () \<longrightarrow> cf_mqtt_enabled c \<longrightarrow>
        TlsInsecureSet False \<in> set (cl_calls cl') \<and> authenticated c (cl_calls cl')))"
proof (cases "tls_context_for w c")
  case (Inl x)
  with assms show ?thesis by (auto simp: configure_tls_def)
next
  case (Inr t)
  then have t: "secure_context c t" "cf_client_cert c \<noteq> None \<Longrightarrow> cf_client_key c \<noteq> None \<Longrightarrow>
      \<exists>cert key. cf_client_cert c = Some cert \<and> cf_client_key c = Some key \<and> tc_chain t = Some (cert, key)"
    by (auto simp: tls_context_for_def secure_context_def Let_def split: option.split_asm if_split_asm)
  show ?thesis
  proof (cases "bw_raises w (TlsSetContext t)")
    case True
    with assms Inr t show ?thesis
      by (auto simp: configure_tls_def then_do_def client_do_def logged_def call_ok_def)
  next
    case False
    note ctx = False
    show ?thesis
    proof (cases "bw_raises w (TlsInsecureSet False)")
      case True
      with ctx assms Inr t show ?thesis
        by (auto simp: configure_tls_def then_do_def client_do_def logged_def call_ok_def)
    next
      case False
      have v: "cf_client_cert c \<noteq> None \<and> cf_client_key c \<noteq> None \<or> cf_username c \<noteq> [] \<and> cf_password c \<noteq> []"
        if "validate_config is_file c = Inr ()" "cf_mqtt_enabled c" for is_file
        using that by (auto simp: validate_config_def split: if_split_asm)
      from False ctx assms Inr t v show ?thesis
        by (auto simp: configure_tls_def then_do_def client_do_def logged_def call_ok_def do_nothing_def authenticated_def
            split: if_split_asm) blast+
    qed
  qed
qed

lemma bridge_start_ok:
  assumes "proc_ok c pr" "cf_mqtt_enabled c"
  shows "proc_ok c (snd (bridge_start w is_file event_loop c pr))"
proof (cases "pc_started pr \<or> validate_config is_file c \<noteq> Inr ()")
  case True
  with assms show ?thesis by (auto simp: bridge_start_def split: sum.split)
next
  case False
  then have off: "\<not> pc_started pr" "BRIDGE_SINK \<notin> set (sv_sinks (pc_service pr))" and v: "validate_config is_file c = Inr ()"
    using assms by (auto simp: proc_ok_def in_step_def)
  obtain r pr1 where r: "create_paho_client w (pr\<lparr>pc_loop := Some event_loop\<rparr>) = (r, pr1)" by fastforce
  show ?thesis
  proof (cases r)
    case (Inl x)
    with r have "pr1 = pr\<lparr>pc_loop := Some event_loop\<rparr>" by (auto simp: create_paho_client_def split: option.split_asm if_split_asm)
    with r Inl False assms show ?thesis
      by (auto simp: bridge_start_def v then_do_def proc_ok_def client_ok_def in_step_def split: option.split)
  next
    case (Inr u)
    with r assms off obtain cl where p1: "pc_client pr1 = Some cl" "pc_loop pr1 = Some event_loop" "\<not> pc_started pr1"
        "pc_service pr1 = pc_service pr" and cl: "calls_ok c (cl_calls cl)" "\<not> cl_running cl"
      by (cases "pc_client pr") (auto simp: create_paho_client_def proc_ok_def client_ok_def in_step_def split: if_split_asm)
    obtain r2 pr2 where r2: "configure_tls w c pr1 = (r2, pr2)" by fastforce
    from configure_calls [OF _ cl(1) r2] p1 cl(2) obtain cl' where p2: "pr2 = pr1\<lparr>pc_client := pc_client pr2\<rparr>" "pc_client pr2 = Some cl'"
      and cl': "calls_ok c (cl_calls cl')" "\<not> cl_running cl'"
      and ready: "r2 = Inr () \<Longrightarrow> TlsInsecureSet False \<in> set (cl_calls cl') \<and> authenticated c (cl_calls cl')"
      using v assms(2) by (auto 0 4)
    show ?thesis
    proof (cases r2)
      case (Inl x)
      with r Inr r2 p1 p2 cl' off False show ?thesis
        by (simp add: bridge_start_def v then_do_def proc_ok_def client_ok_def in_step_def)
    next
      case r2': (Inr u2)
      let ?x = "ConnectAsync (cf_mqtt_host c) (cf_mqtt_port c) 60"
      have ok: "call_ok c (cl_calls cl') ?x"
        using v assms(2) ready r2' by (auto simp: call_ok_def validate_config_def split: if_split_asm)
      from r Inr r2 r2' p1 p2 cl' off ok show ?thesis
        by (auto simp: bridge_start_def v then_do_def attach_def connect_client_def client_do_def logged_def call_ok_def
            proc_ok_def client_ok_def in_step_def)
    qed
  qed
qed

lemma bridge_stop_ok:
  "proc_ok c pr \<Longrightarrow> \<not> bw_raises w LoopStop \<Longrightarrow> proc_ok c (snd (bridge_stop w pr))"
  by (auto simp: bridge_stop_def client_do_def logged_def call_ok_def proc_ok_def client_ok_def in_step_def split: option.split)

lemma proc_ok_flags [simp]:
  "proc_ok c (pr\<lparr>pc_tasks := ts\<rparr>) = proc_ok c pr" "proc_ok c (pr\<lparr>pc_tasks := ts, pc_closed := b\<rparr>) = proc_ok c pr"
  by (simp_all add: proc_ok_def client_ok_def in_step_def split: option.split)

lemma service_start_ok: "proc_ok c pr \<Longrightarrow> proc_ok c (snd (service_start w is_file event_loop c pr))"
  using bridge_start_ok [of c pr w is_file event_loop] by (auto simp: service_start_def split: prod.split sum.split)

lemma service_stop_ok: "proc_ok c pr \<Longrightarrow> \<not> bw_raises w LoopStop \<Longrightarrow> proc_ok c (snd (service_stop w c pr))"
  using bridge_stop_ok [of c pr w] by (auto simp: service_stop_def split: prod.split sum.split)

lemma process_runs_ok: "process_runs c pr \<Longrightarrow> proc_ok c pr"
proof (induction rule: process_runs.induct)
  case (fresh sv)
  then show ?case by (simp add: proc_ok_def client_ok_def in_step_def new_process_def)
next
  case (message pr w pf parse is_closed takes wall rd payload)
  then show ?case by (simp add: receive_def run_message_ok split: option.split)
next
  case (serve pr sv)
  then show ?case by (auto intro: proc_ok_service)
qed (simp_all add: service_start_ok service_stop_ok broadcast_ok connected_ok)

section \<open>Properties of the connection\<close>

lemma calls_ok_at: "calls_ok c (later @ x # earlier) \<Longrightarrow> call_ok c earlier x"
  by (induction later) auto

lemma start_error_stops: "bridge_start w is_file event_loop c pr = (Inl x, pr') \<Longrightarrow> \<not> pc_started pr'"
  \<comment> \<open>a start that fails has not started the bridge, so by \<open>in_step\<close> its sink is gone\<close>
  by (auto simp: bridge_start_def then_do_def create_paho_client_def configure_tls_def attach_def connect_client_def
      client_do_def do_nothing_def split: sum.split_asm option.split_asm if_split_asm)

lemma stop_ends:
  "service_stop w c pr = (Inr u, pr') \<Longrightarrow> in_step pr \<Longrightarrow> cf_mqtt_enabled c \<Longrightarrow>
   \<not> pc_started pr' \<and> pc_tasks pr' = [] \<and> pc_closed pr' \<and> BRIDGE_SINK \<notin> set (sv_sinks (pc_service pr'))"
  by (auto simp: service_stop_def bridge_stop_def client_do_def in_step_def split: sum.split_asm option.split_asm if_split_asm prod.split_asm)

lemma publish_all_quiet:
  assumes "\<And>p. \<not> bw_raises w (Publish p)"
  shows "fst (publish_all w ps pr) = Inr () \<and> pc_service (snd (publish_all w ps pr)) = pc_service pr"
  using assms by (induction ps arbitrary: pr) (auto simp: do_nothing_def then_do_def client_do_def split: option.split)

lemma run_message_handles:
  assumes "\<And>p. \<not> bw_raises w (Publish p)"
  shows "pc_service (run_message w pf parse c takes wall rd payload pr)
    = snd (handle_message pf parse c (takes(BRIDGE_SINK := BRIDGE_SINK \<in> set (sv_sinks (pc_service pr)) \<or> takes BRIDGE_SINK)) wall rd payload (pc_service pr))"
proof -
  let ?t = "\<lambda>pr. takes(BRIDGE_SINK := BRIDGE_SINK \<in> set (sv_sinks (pc_service pr)) \<or> takes BRIDGE_SINK)"
  have removal: "fold remove_sink (filter (\<lambda>s. \<not> (takes(BRIDGE_SINK := b)) s) xs) sv = fold remove_sink (filter (\<lambda>s. \<not> takes s) xs) sv"
    if "BRIDGE_SINK \<notin> set xs" for b xs sv
  proof -
    have "filter (\<lambda>s. \<not> (takes(BRIDGE_SINK := b)) s) xs = filter (\<lambda>s. \<not> takes s) xs"
      using that by (intro filter_cong) auto
    then show ?thesis by simp
  qed
  have one: "pc_service (bridge_broadcast w c takes ev pr) = snd (broadcast (?t pr) ev (pc_service pr))" for ev pr
  proof (cases "BRIDGE_SINK \<in> set (sv_sinks (pc_service pr))")
    case True
    with publish_all_quiet [OF assms, of "publish_event c ev" pr] show ?thesis
      by (auto simp: bridge_broadcast_def took_def split: prod.split)
  next
    case False
    then show ?thesis by (simp add: bridge_broadcast_def broadcast_def removal fun_upd_idem)
  qed
  have all: "pc_service (fold (bridge_broadcast w c takes) evs pr) = broadcast_all (takes(BRIDGE_SINK := b)) evs (pc_service pr)"
    if "b \<longleftrightarrow> BRIDGE_SINK \<in> set (sv_sinks (pc_service pr)) \<or> takes BRIDGE_SINK" for evs pr b
    using that
  proof (induction evs arbitrary: pr)
    case (Cons ev evs)
    have "b \<longleftrightarrow> BRIDGE_SINK \<in> set (sv_sinks (pc_service (bridge_broadcast w c takes ev pr))) \<or> takes BRIDGE_SINK"
      using Cons.prems by (auto simp: one)
    from Cons.IH [OF this] one [of ev pr] Cons.prems [symmetric] show ?case
      by (simp only: broadcast_all_def fold.simps o_apply)
  qed (simp add: broadcast_all_def)
  obtain y sv where y: "mqtt_command pf parse c wall rd payload (pc_service pr) = (y, sv)" by fastforce
  then have "sv_sinks sv = sv_sinks (pc_service pr)"
    using sinks_mqtt [of pf parse c wall rd payload "pc_service pr"] by simp
  with y assms show ?thesis
    by (auto simp: run_message_def handle_message_def client_do_def all split: option.split prod.split)
qed

text \<open>C5: the gateway only ever talks to the broker it was configured for, over verified TLS.
In every run of the process (starts that fail half-way and are repeated, stops, messages,
events, other traffic), each connection goes to the configured host and a valid port, after
a TLS context with the configured CA, at least TLS 1.2, a required certificate and a checked
host name, and after the gateway's own certificate or password was set; verification is
never switched off. The network thread runs and events are published only while the bridge
is started.\<close>

theorem broker_verified:
  assumes "process_runs c pr" "pc_client pr = Some cl"
  shows "(\<forall>later h p k earlier. cl_calls cl = later @ ConnectAsync h p k # earlier \<longrightarrow>
        h = cf_mqtt_host c \<and> \<not> blank h \<and> p = cf_mqtt_port c \<and> 1 \<le> p \<and> p \<le> 65535 \<and> authenticated c earlier)
    \<and> (\<forall>t. TlsSetContext t \<in> set (cl_calls cl) \<longrightarrow> secure_context c t)
    \<and> TlsInsecureSet True \<notin> set (cl_calls cl)
    \<and> (cl_running cl \<longleftrightarrow> pc_started pr)
    \<and> (BRIDGE_SINK \<in> set (sv_sinks (pc_service pr)) \<longrightarrow> pc_started pr)"
proof -
  have ok: "calls_ok c (cl_calls cl)" and st: "in_step pr"
    using process_runs_ok [OF assms(1)] assms(2) by (simp_all add: proc_ok_def client_ok_def)
  have at: "call_ok c earlier x" if "cl_calls cl = later @ x # earlier" for later x earlier
    using calls_ok_at ok that by metis
  have mem: "\<exists>earlier. call_ok c earlier x" if "x \<in> set (cl_calls cl)" for x
    using that at by (metis split_list)
  have "secure_context c t" if "TlsSetContext t \<in> set (cl_calls cl)" for t
    using mem [OF that] by (auto simp: call_ok_def)
  moreover have "TlsInsecureSet True \<notin> set (cl_calls cl)"
    using mem [of "TlsInsecureSet True"] by (auto simp: call_ok_def)
  moreover have "h = cf_mqtt_host c \<and> \<not> blank h \<and> p = cf_mqtt_port c \<and> 1 \<le> p \<and> p \<le> 65535 \<and> authenticated c earlier"
    if "cl_calls cl = later @ ConnectAsync h p k # earlier" for later h p k earlier
    using at [OF that] by (auto simp: call_ok_def)
  ultimately show ?thesis using st assms(2) by (auto simp: in_step_def)
qed

definition demo_broker :: broker_world where
  "demo_broker = \<lparr>bw_paho = True, bw_token = ''0a1b2c3d4e5f'', bw_default = (\<lambda>_. Some (TLSv1_0, CERT_OPTIONAL, False)),
     bw_chain = (\<lambda>_ _. False), bw_raises = (\<lambda>_. False)\<rparr>"

definition demo_context :: tls_context where
  "demo_context = \<lparr>tc_cafile = ''ca'', tc_minimum = TLSv1_2, tc_verify = CERT_REQUIRED, tc_check_hostname = True, tc_chain = None\<rparr>"

lemma demo_start:
  "service_start demo_broker (\<lambda>p. p = ''ca'') 7 demo_config (new_process demo_service) =
    (Inr (), \<lparr>pc_service = demo_service\<lparr>sv_sinks := [BRIDGE_SINK]\<rparr>,
       pc_client = Some \<lparr>cl_id = ''devcontrol-gateway-0a1b2c3d4e5f'',
         cl_calls = [LoopStart, ConnectAsync ''broker'' 8883 60, UsernamePwSet ''user'' ''secret'', TlsInsecureSet False, TlsSetContext demo_context],
         cl_handlers = True, cl_running = True\<rparr>,
       pc_loop = Some 7, pc_started = True, pc_tasks = [TelemetryLoop, HeartbeatLoop], pc_closed = False\<rparr>)"
proof -
  have v: "validate_config (\<lambda>p. p = ''ca'') demo_config = Inr ()"
    by (simp add: validate_config_def demo_config_def blank_def whitespace_def prefix_pattern_def ascii_letter_def is_digit_def)
  have t: "tls_context_for demo_broker demo_config = Inr demo_context"
    by (simp add: tls_context_for_def demo_broker_def demo_config_def demo_context_def)
  have r: "\<not> bw_raises demo_broker x" for x by (simp add: demo_broker_def)
  have c: "configure_tls demo_broker demo_config pr = (Inr (), pr\<lparr>pc_client := Some (cl\<lparr>cl_calls :=
      [UsernamePwSet ''user'' ''secret'', TlsInsecureSet False, TlsSetContext demo_context] @ cl_calls cl\<rparr>)\<rparr>)"
    if "pc_client pr = Some cl" for pr cl
    using that by (simp add: configure_tls_def t then_do_def client_do_def logged_def r) (simp add: demo_config_def)
  have n: "create_paho_client demo_broker pr = (Inr (), pr\<lparr>pc_client := Some \<lparr>cl_id = ''devcontrol-gateway-0a1b2c3d4e5f'',
      cl_calls = [], cl_handlers = False, cl_running = False\<rparr>\<rparr>)" if "pc_client pr = None" for pr
    using that by (simp add: create_paho_client_def) (simp add: demo_broker_def)
  have f: "cf_mqtt_enabled demo_config" "cf_background demo_config" "cf_mqtt_host demo_config = ''broker''" "cf_mqtt_port demo_config = 8883"
    by (simp_all add: demo_config_def)
  have "sv_sinks demo_service = []" by (simp add: demo_service_def)
  then show ?thesis
    by (simp add: service_start_def bridge_start_def new_process_def v f then_do_def n c attach_def connect_client_def
        client_do_def logged_def r add_sink_def)
qed

theorem broker_verified_witness:
  "\<exists>pr cl. process_runs demo_config pr \<and> pc_client pr = Some cl \<and> pc_started pr \<and> cl_running cl
    \<and> authenticated demo_config [UsernamePwSet ''user'' ''secret'', TlsInsecureSet False, TlsSetContext demo_context]"
proof -
  let ?pr = "snd (service_start demo_broker (\<lambda>p. p = ''ca'') 7 demo_config (new_process demo_service))"
  obtain cl where cl: "pc_client ?pr = Some cl" and calls: "cl_calls cl =
      [LoopStart] @ ConnectAsync ''broker'' 8883 60 # [UsernamePwSet ''user'' ''secret'', TlsInsecureSet False, TlsSetContext demo_context]"
    by (simp add: demo_start)
  have run: "process_runs demo_config ?pr"
    by (intro process_runs.start process_runs.fresh) (simp add: demo_service_def)
  have "authenticated demo_config [UsernamePwSet ''user'' ''secret'', TlsInsecureSet False, TlsSetContext demo_context]
     \<and> (cl_running cl \<longleftrightarrow> pc_started ?pr)"
    using broker_verified [OF run cl] calls by blast
  moreover have "pc_started ?pr" by (simp add: demo_start)
  ultimately show ?thesis using run cl by blast
qed

end
