(* ===== verification/Signing.thy ===== *)
theory Signing
  imports Models
begin

text \<open>
  \<open>SigningAdmin/signing_admin/service.py\<close>: the certificate issuer. Its state is the file system, a map
  from resolved paths (lists of components) to directories and files; every operation returns
  its answer with the file system it leaves behind, errors included. What
  \<open>cryptography.x509\<close> parses, builds and encodes is a record of parameters; certificates,
  requests and keys are records of the fields the code reads or sets. Times are microseconds
  since the epoch, encoded certificate times whole seconds. Permissions, full disks and
  symbolic links are outside the model.
\<close>

section \<open>The file system\<close>

type_synonym path = "string list"

datatype node = Dir | File string

type_synonym files = "path \<Rightarrow> node option"

datatype signing_exn = Refused string | OSError | SigningValueError

definition is_file :: "files \<Rightarrow> path \<Rightarrow> bool" where
  "is_file fs p \<longleftrightarrow> (case fs p of Some (File _) \<Rightarrow> True | _ \<Rightarrow> False)"

definition read_bytes :: "files \<Rightarrow> path \<Rightarrow> string" where
  \<comment> \<open>called on files only\<close>
  "read_bytes fs p = (case fs p of Some (File b) \<Rightarrow> b | _ \<Rightarrow> [])"

definition parent :: "path \<Rightarrow> path" where
  "parent p = butlast p"

definition blocked :: "files \<Rightarrow> path \<Rightarrow> bool" where
  "blocked fs p \<longleftrightarrow> list_ex (\<lambda>n. is_file fs (take n p)) [0..<Suc (length p)]"

definition is_above :: "path \<Rightarrow> path \<Rightarrow> bool" where
  "is_above q p \<longleftrightarrow> take (length q) p = q"

definition mkdirs :: "path \<Rightarrow> files \<Rightarrow> (signing_exn + unit) \<times> files" where
  \<comment> \<open>\<open>mkdir(parents=True, exist_ok=True)\<close>\<close>
  "mkdirs p fs = (if blocked fs p then (Inl OSError, fs) else (Inr (), \<lambda>q. if is_above q p then Some Dir else fs q))"

definition write_bytes :: "path \<Rightarrow> string \<Rightarrow> files \<Rightarrow> (signing_exn + unit) \<times> files" where
  "write_bytes p b fs = (if fs p = Some Dir \<or> fs (parent p) \<noteq> Some Dir then (Inl OSError, fs) else (Inr (), fs(p \<mapsto> File b)))"

definition require_existing_file :: "files \<Rightarrow> path \<Rightarrow> signing_exn + unit" where
  "require_existing_file fs p = (if \<not> is_file fs p then Inl (Refused ''does not exist or is not a file'') else Inr ())"

definition require_output_available :: "files \<Rightarrow> path \<Rightarrow> bool \<Rightarrow> signing_exn + unit" where
  "require_output_available fs p overwrite =
     (if fs p \<noteq> None \<and> \<not> overwrite then Inl (Refused ''Refusing to overwrite existing file'')
      else if fs p = Some Dir then Inl (Refused ''Output path is a directory'') else Inr ())"

definition is_within :: "path \<Rightarrow> path \<Rightarrow> bool" where
  "is_within child folder \<longleftrightarrow> is_above folder child"

section \<open>Certificates\<close>

datatype general_name = DNSName string | IPAddress string | OtherName string

record key_usage =
  ku_digital_signature :: bool
  ku_key_agreement :: bool
  ku_key_cert_sign :: bool
  ku_crl_sign :: bool

record certificate =
  ce_subject :: string
  ce_issuer :: string
  ce_public :: string
  ce_serial :: nat
  ce_not_before :: int
  ce_not_after :: int
  ce_sans :: "general_name list option"
  ce_basic :: "(bool \<times> int option) option"
  ce_usage :: "key_usage option"
  ce_extended :: "string list"
  ce_signed_by :: string

record private_key =
  pk_public :: string
  pk_p256 :: bool

record csr =
  cq_subject :: string
  cq_public :: string
  cq_p256 :: bool
  cq_valid :: bool
  cq_sans :: "general_name list option"

record x509 =
  xp_resolve :: "string \<Rightarrow> path"
  xp_load :: "string \<Rightarrow> certificate option"
  xp_pem :: "certificate \<Rightarrow> string"
  xp_fingerprint :: "certificate \<Rightarrow> string"
  xp_name :: "pytext \<Rightarrow> string option"
  xp_csr :: "string \<Rightarrow> csr option"
  xp_key :: "string \<Rightarrow> string \<Rightarrow> private_key option"
  xp_key_pem :: "private_key \<Rightarrow> string \<Rightarrow> string option"

record issue_readings =
  ir_now :: int
  ir_key :: private_key
  ir_serial :: nat

definition days :: "int \<Rightarrow> int" where
  "days n = n * 24 * 60 * 60 * 1000000"

definition whole_seconds :: "int \<Rightarrow> int" where
  \<comment> \<open>what the encoding of a certificate keeps of a time\<close>
  "whole_seconds t = t - t mod 1000000"

section \<open>PEM bundles\<close>

definition BEGIN_CERTIFICATE :: string where "BEGIN_CERTIFICATE = ''-----BEGIN CERTIFICATE-----''"
definition END_CERTIFICATE :: string where "END_CERTIFICATE = ''-----END CERTIFICATE-----''"

definition pem_space :: "char \<Rightarrow> bool" where
  "pem_space c \<longleftrightarrow> (let n = of_char c :: nat in 9 \<le> n \<and> n \<le> 13 \<or> n = 32)"

fun find_sub :: "string \<Rightarrow> string \<Rightarrow> (string \<times> string) option" where
  \<comment> \<open>what is before and after the first occurrence of a non-empty pattern\<close>
  "find_sub pat [] = None"
| "find_sub pat (c # cs) =
     (if take (length pat) (c # cs) = pat then Some ([], drop (length pat) (c # cs))
      else map_option (\<lambda>(b, a). (c # b, a)) (find_sub pat cs))"

lemma find_sub_length: "find_sub pat s = Some (b, a) \<Longrightarrow> length a + length b \<le> length s \<and> (pat \<noteq> [] \<longrightarrow> length a < length s)"
  by (induction s arbitrary: b a) (auto split: if_split_asm)

lemma find_sub_split: "find_sub pat s = Some (b, a) \<Longrightarrow> s = b @ pat @ a"
proof (induction s arbitrary: b a)
  case (Cons c cs)
  show ?case
  proof (cases "take (length pat) (c # cs) = pat")
    case True
    with Cons.prems show ?thesis using append_take_drop_id [of "length pat" "c # cs"] by simp
  qed (use Cons in auto)
qed simp

function pem_blocks :: "string \<Rightarrow> string list" where
  \<comment> \<open>\<open>_PEM_CERTIFICATE.findall\<close>: from a begin marker followed by white space to the next end
     marker and the white space after it\<close>
  "pem_blocks s = (case find_sub BEGIN_CERTIFICATE s of
       None \<Rightarrow> []
     | Some (before, rest) \<Rightarrow>
         (case rest of
            w # ws \<Rightarrow>
              if pem_space w then (case find_sub END_CERTIFICATE ws of
                  None \<Rightarrow> []
                | Some (body, after) \<Rightarrow>
                    (BEGIN_CERTIFICATE @ w # body @ END_CERTIFICATE @ takeWhile pem_space after)
                    # pem_blocks (dropWhile pem_space after))
              else pem_blocks (tl BEGIN_CERTIFICATE @ rest)
          | [] \<Rightarrow> []))"
  by pat_completeness auto

termination pem_blocks
proof (relation "measure length")
  fix s before rest w ws body after p p'
  assume b: "find_sub BEGIN_CERTIFICATE s = Some p" "(before, rest) = p" "rest = w # ws"
    and e: "find_sub END_CERTIFICATE ws = Some p'" "(body, after) = p'"
  have "length rest \<le> length s" using find_sub_length [of BEGIN_CERTIFICATE s before rest] b by simp
  moreover have "length after \<le> length ws" using find_sub_length [of END_CERTIFICATE ws body after] e by simp
  ultimately show "(dropWhile pem_space after, s) \<in> measure length"
    using length_dropWhile_le [of pem_space after] b(3) by simp
next
  fix s before rest w ws p
  assume b: "find_sub BEGIN_CERTIFICATE s = Some p" "(before, rest) = p"
  then have "s = before @ BEGIN_CERTIFICATE @ rest" using find_sub_split by blast
  then show "(tl BEGIN_CERTIFICATE @ rest, s) \<in> measure length" by (simp add: BEGIN_CERTIFICATE_def)
qed simp

declare pem_blocks.simps [simp del]

section \<open>Sequencing\<close>

type_synonym 'a io = "files \<Rightarrow> (signing_exn + 'a) \<times> files"

definition bind_io :: "'a io \<Rightarrow> ('a \<Rightarrow> 'b io) \<Rightarrow> 'b io" where
  "bind_io m k fs = (case m fs of (Inl x, fs') \<Rightarrow> (Inl x, fs') | (Inr y, fs') \<Rightarrow> k y fs')"

definition checked :: "(files \<Rightarrow> signing_exn + 'a) \<Rightarrow> 'a io" where
  \<comment> \<open>a step that may raise and changes nothing\<close>
  "checked f fs = (f fs, fs)"

definition refuse_if :: "bool \<Rightarrow> string \<Rightarrow> signing_exn + unit" where
  "refuse_if b m = (if b then Inl (Refused m) else Inr ())"

definition return_io :: "'a \<Rightarrow> 'a io" where
  "return_io y fs = (Inr y, fs)"

section \<open>Checks on certificates and requests\<close>

definition password_bytes :: "string \<Rightarrow> signing_exn + string" where
  "password_bytes password = (if password = [] then Inl (Refused ''CA private-key password must not be empty'') else Inr password)"

fun load_all :: "x509 \<Rightarrow> string list \<Rightarrow> signing_exn + certificate list" where
  "load_all x [] = Inr []"
| "load_all x (b # bs) = (case xp_load x b of
       None \<Rightarrow> Inl (Refused ''Invalid PEM certificate'')
     | Some c \<Rightarrow> (case load_all x bs of Inl e \<Rightarrow> Inl e | Inr cs \<Rightarrow> Inr (c # cs)))"

definition read_certificate_bundle :: "x509 \<Rightarrow> path \<Rightarrow> files \<Rightarrow> signing_exn + certificate list" where
  "read_certificate_bundle x p fs = (case require_existing_file fs p of
       Inl e \<Rightarrow> Inl e
     | Inr _ \<Rightarrow> (let blocks = pem_blocks (read_bytes fs p) in
         if blocks = [] then Inl (Refused ''No PEM certificate was found'') else load_all x blocks))"

fun distinct_fingerprints :: "x509 \<Rightarrow> string set \<Rightarrow> certificate list \<Rightarrow> certificate list" where
  "distinct_fingerprints x seen [] = []"
| "distinct_fingerprints x seen (c # cs) =
     (if xp_fingerprint x c \<in> seen then distinct_fingerprints x seen cs
      else c # distinct_fingerprints x (insert (xp_fingerprint x c) seen) cs)"

definition pem_bundle :: "x509 \<Rightarrow> certificate list \<Rightarrow> signing_exn + string" where
  "pem_bundle x cs = (let encoded = map (xp_pem x) (distinct_fingerprints x {} cs) in
     if encoded = [] then Inl (Refused ''At least one public CA certificate is required'') else Inr (concat encoded))"

definition subject_alternative_names :: "certificate \<Rightarrow> string list" where
  \<comment> \<open>the DNS names, then the addresses\<close>
  "subject_alternative_names c = (case ce_sans c of None \<Rightarrow> []
     | Some names \<Rightarrow> List.map_filter (\<lambda>n. case n of DNSName s \<Rightarrow> Some s | _ \<Rightarrow> None) names
         @ List.map_filter (\<lambda>n. case n of IPAddress s \<Rightarrow> Some s | _ \<Rightarrow> None) names)"

record certificate_details =
  cd_path :: path
  cd_subject :: string
  cd_issuer :: string
  cd_serial :: nat
  cd_expires :: int
  cd_sans :: "string list"

definition details :: "path \<Rightarrow> certificate \<Rightarrow> certificate_details" where
  "details p c = \<lparr>cd_path = p, cd_subject = ce_subject c, cd_issuer = ce_issuer c, cd_serial = ce_serial c,
     cd_expires = ce_not_after c, cd_sans = subject_alternative_names c\<rparr>"

definition require_ca_certificate :: "certificate \<Rightarrow> signing_exn + unit" where
  "require_ca_certificate c = (case ce_basic c of
       None \<Rightarrow> Inl (Refused ''is missing BasicConstraints'')
     | Some (ca, _) \<Rightarrow>
         if \<not> ca then Inl (Refused ''is not a CA certificate'')
         else (case ce_usage c of None \<Rightarrow> Inl (Refused ''is missing KeyUsage'')
           | Some u \<Rightarrow> refuse_if (\<not> ku_key_cert_sign u) ''cannot sign certificates''))"

fun require_ca_certificates :: "certificate list \<Rightarrow> signing_exn + unit" where
  "require_ca_certificates [] = Inr ()"
| "require_ca_certificates (c # cs) = (case require_ca_certificate c of
       Inl e \<Rightarrow> Inl e | Inr _ \<Rightarrow> require_ca_certificates cs)"

definition MAX_GATEWAY_SANS :: nat where "MAX_GATEWAY_SANS = 16"

definition gateway_san :: "csr \<Rightarrow> signing_exn + general_name list" where
  "gateway_san q = (case cq_sans q of
       None \<Rightarrow> Inl (Refused ''CSR must contain at least one DNS or IP SAN'')
     | Some entries \<Rightarrow>
         if entries = [] \<or> MAX_GATEWAY_SANS < length entries then Inl (Refused ''CSR must contain between 1 and 16 DNS or IP SANs'')
         else if list_ex (\<lambda>n. case n of OtherName _ \<Rightarrow> True | _ \<Rightarrow> False) entries
           then Inl (Refused ''CSR SANs may contain DNS names and IP addresses only'')
         else Inr entries)"

section \<open>The project CA\<close>

definition ca_certificate :: "issue_readings \<Rightarrow> string \<Rightarrow> int \<Rightarrow> certificate" where
  "ca_certificate rd name valid_days =
     \<lparr>ce_subject = name, ce_issuer = name, ce_public = pk_public (ir_key rd), ce_serial = ir_serial rd,
      ce_not_before = whole_seconds (ir_now rd - 5 * 60 * 1000000),
      ce_not_after = whole_seconds (ir_now rd + days valid_days), ce_sans = None, ce_basic = Some (True, Some 0),
      ce_usage = Some \<lparr>ku_digital_signature = True, ku_key_agreement = False, ku_key_cert_sign = True, ku_crl_sign = True\<rparr>,
      ce_extended = [], ce_signed_by = pk_public (ir_key rd)\<rparr>"

definition initialize_project_ca ::
  "x509 \<Rightarrow> issue_readings \<Rightarrow> path \<Rightarrow> string \<Rightarrow> string \<Rightarrow> pytext \<Rightarrow> int \<Rightarrow> string \<Rightarrow> bool \<Rightarrow> certificate_details io" where
  "initialize_project_ca x rd workspace issuer_root app_ca_path common_name valid_days password overwrite =
     bind_io (checked (\<lambda>fs. refuse_if (\<not> (365 \<le> valid_days \<and> valid_days \<le> 7300)) ''CA validity must be between 365 and 7300 days'')) (\<lambda>_.
     bind_io (checked (\<lambda>fs. refuse_if (strip common_name = []) ''Project CA common name must not be empty'')) (\<lambda>_.
     let issuer_directory = xp_resolve x issuer_root in
     bind_io (checked (\<lambda>fs. refuse_if (is_within issuer_directory workspace) ''Issuer root must be outside this source workspace'')) (\<lambda>_.
     let target_app_ca = xp_resolve x app_ca_path;
         certificate_path = issuer_directory @ [''project-ca.crt''];
         private_key_path = issuer_directory @ [''project-ca.key''] in
     bind_io (checked (\<lambda>fs. require_output_available fs certificate_path overwrite)) (\<lambda>_.
     bind_io (checked (\<lambda>fs. require_output_available fs private_key_path overwrite)) (\<lambda>_.
     bind_io (checked (\<lambda>fs. require_output_available fs target_app_ca overwrite)) (\<lambda>_.
     bind_io (mkdirs issuer_directory) (\<lambda>_.
     bind_io (mkdirs (parent target_app_ca)) (\<lambda>_.
     bind_io (checked (\<lambda>fs. case xp_name x (strip common_name) of None \<Rightarrow> Inl SigningValueError | Some name \<Rightarrow> Inr name)) (\<lambda>name.
     let c = ca_certificate rd name valid_days in
     bind_io (write_bytes certificate_path (xp_pem x c)) (\<lambda>_.
     bind_io (checked (\<lambda>fs. password_bytes password)) (\<lambda>secret.
     bind_io (checked (\<lambda>fs. case xp_key_pem x (ir_key rd) secret of None \<Rightarrow> Inl SigningValueError | Some b \<Rightarrow> Inr b)) (\<lambda>key_pem.
     bind_io (write_bytes private_key_path key_pem) (\<lambda>_.
     bind_io (write_bytes target_app_ca (xp_pem x c)) (\<lambda>_.
     return_io (details certificate_path c)))))))))))))))"

section \<open>Gateway certificates\<close>

definition gateway_certificate :: "issue_readings \<Rightarrow> csr \<Rightarrow> general_name list \<Rightarrow> certificate \<Rightarrow> private_key \<Rightarrow> int \<Rightarrow> certificate" where
  "gateway_certificate rd q san ca key expires_at =
     \<lparr>ce_subject = cq_subject q, ce_issuer = ce_subject ca, ce_public = cq_public q, ce_serial = ir_serial rd,
      ce_not_before = whole_seconds (ir_now rd - 5 * 60 * 1000000), ce_not_after = whole_seconds expires_at,
      ce_sans = Some san, ce_basic = Some (False, None),
      ce_usage = Some \<lparr>ku_digital_signature = True, ku_key_agreement = True, ku_key_cert_sign = False, ku_crl_sign = False\<rparr>,
      ce_extended = [''SERVER_AUTH''], ce_signed_by = pk_public key\<rparr>"

definition unlock_key :: "x509 \<Rightarrow> string \<Rightarrow> string \<Rightarrow> signing_exn + private_key" where
  \<comment> \<open>the refusal of an empty password is a \<open>ValueError\<close> too, and is caught with the others\<close>
  "unlock_key x bytes password = (case password_bytes password of
       Inl _ \<Rightarrow> Inl (Refused ''Unable to unlock the project CA private key'')
     | Inr secret \<Rightarrow> (case xp_key x bytes secret of
         None \<Rightarrow> Inl (Refused ''Unable to unlock the project CA private key'') | Some k \<Rightarrow> Inr k))"

definition sign_gateway_csr ::
  "x509 \<Rightarrow> issue_readings \<Rightarrow> string \<Rightarrow> string \<Rightarrow> string \<Rightarrow> string \<Rightarrow> string \<Rightarrow> int \<Rightarrow> bool \<Rightarrow> (path \<times> certificate) io" where
  "sign_gateway_csr x rd csr_path ca_certificate_path ca_private_key_path password output_path valid_days overwrite =
     bind_io (checked (\<lambda>fs. refuse_if (\<not> (1 \<le> valid_days \<and> valid_days \<le> 397)) ''Gateway certificate validity must be between 1 and 397 days'')) (\<lambda>_.
     let csr_file = xp_resolve x csr_path;
         ca_certificate_file = xp_resolve x ca_certificate_path;
         ca_private_key_file = xp_resolve x ca_private_key_path;
         output_file = xp_resolve x output_path in
     bind_io (checked (\<lambda>fs. require_existing_file fs csr_file)) (\<lambda>_.
     bind_io (checked (\<lambda>fs. require_existing_file fs ca_certificate_file)) (\<lambda>_.
     bind_io (checked (\<lambda>fs. require_existing_file fs ca_private_key_file)) (\<lambda>_.
     bind_io (checked (\<lambda>fs. require_output_available fs output_file overwrite)) (\<lambda>_.
     bind_io (checked (\<lambda>fs. case xp_csr x (read_bytes fs csr_file) of None \<Rightarrow> Inl (Refused ''Invalid PEM CSR'') | Some q \<Rightarrow> Inr q)) (\<lambda>q.
     bind_io (checked (\<lambda>fs. refuse_if (\<not> cq_valid q) ''CSR signature is invalid'')) (\<lambda>_.
     bind_io (checked (\<lambda>fs. refuse_if (\<not> cq_p256 q) ''Gateway CSR must use an ECDSA P-256 public key'')) (\<lambda>_.
     bind_io (checked (\<lambda>fs. gateway_san q)) (\<lambda>san.
     bind_io (checked (read_certificate_bundle x ca_certificate_file)) (\<lambda>certificates.
     bind_io (checked (\<lambda>fs. refuse_if (length certificates \<noteq> 1) ''CA certificate path must contain exactly one certificate'')) (\<lambda>_.
     let ca = hd certificates in
     bind_io (checked (\<lambda>fs. require_ca_certificate ca)) (\<lambda>_.
     bind_io (checked (\<lambda>fs. unlock_key x (read_bytes fs ca_private_key_file) password)) (\<lambda>key.
     bind_io (checked (\<lambda>fs. refuse_if (\<not> pk_p256 key) ''Project CA private key must be an ECDSA P-256 key'')) (\<lambda>_.
     bind_io (checked (\<lambda>fs. refuse_if (ce_public ca \<noteq> pk_public key) ''CA certificate does not match the supplied private key'')) (\<lambda>_.
     let expires_at = min (ir_now rd + days valid_days) (ce_not_after ca) in
     bind_io (checked (\<lambda>fs. refuse_if (expires_at \<le> ir_now rd) ''Project CA certificate has already expired'')) (\<lambda>_.
     let c = gateway_certificate rd q san ca key expires_at in
     bind_io (mkdirs (parent output_file)) (\<lambda>_.
     bind_io (write_bytes output_file (xp_pem x c)) (\<lambda>_.
     return_io (output_file, c)))))))))))))))))))"

section \<open>Rotation of the root\<close>

definition stage_root_ca_rotation :: "x509 \<Rightarrow> string \<Rightarrow> string \<Rightarrow> string \<Rightarrow> bool \<Rightarrow> nat io" where
  \<comment> \<open>the answer is the certificate count of the report\<close>
  "stage_root_ca_rotation x existing_trust_path new_ca_path app_ca_path overwrite =
     (let existing_file = xp_resolve x existing_trust_path;
          new_ca_file = xp_resolve x new_ca_path;
          target_file = xp_resolve x app_ca_path in
      bind_io (checked (\<lambda>fs. require_output_available fs target_file overwrite)) (\<lambda>_.
      bind_io (checked (read_certificate_bundle x existing_file)) (\<lambda>existing_certificates.
      bind_io (checked (read_certificate_bundle x new_ca_file)) (\<lambda>new_certificates.
      bind_io (checked (\<lambda>fs. require_ca_certificates (existing_certificates @ new_certificates))) (\<lambda>_.
      bind_io (mkdirs (parent target_file)) (\<lambda>_.
      bind_io (checked (\<lambda>fs. pem_bundle x (existing_certificates @ new_certificates))) (\<lambda>bundle.
      bind_io (write_bytes target_file bundle) (\<lambda>_.
      bind_io (checked (read_certificate_bundle x target_file)) (\<lambda>written.
      return_io (length written))))))))))"

definition finalize_root_ca_rotation :: "x509 \<Rightarrow> string \<Rightarrow> string \<Rightarrow> bool \<Rightarrow> nat io" where
  "finalize_root_ca_rotation x new_ca_path app_ca_path overwrite =
     (let new_ca_file = xp_resolve x new_ca_path;
          target_file = xp_resolve x app_ca_path in
      bind_io (checked (\<lambda>fs. require_output_available fs target_file overwrite)) (\<lambda>_.
      bind_io (checked (read_certificate_bundle x new_ca_file)) (\<lambda>new_certificates.
      bind_io (checked (\<lambda>fs. require_ca_certificates new_certificates)) (\<lambda>_.
      bind_io (mkdirs (parent target_file)) (\<lambda>_.
      bind_io (checked (\<lambda>fs. pem_bundle x new_certificates)) (\<lambda>bundle.
      bind_io (write_bytes target_file bundle) (\<lambda>_.
      return_io (length new_certificates))))))))"

definition inspect_certificate :: "x509 \<Rightarrow> string \<Rightarrow> certificate_details list io" where
  "inspect_certificate x p = bind_io (checked (read_certificate_bundle x (xp_resolve x p)))
     (\<lambda>cs. return_io (map (details (xp_resolve x p)) cs))"

section \<open>What a step can change\<close>

lemma bind_checked: "bind_io (checked f) k fs = (case f fs of Inl x \<Rightarrow> (Inl x, fs) | Inr y \<Rightarrow> k y fs)"
  by (simp add: bind_io_def checked_def)

lemma bind_Inr: "bind_io m k fs = (Inr y, fs') \<longleftrightarrow> (\<exists>z fs1. m fs = (Inr z, fs1) \<and> k z fs1 = (Inr y, fs'))"
  by (auto simp: bind_io_def split: prod.split sum.split)

lemma checked_Inr: "checked f fs = (Inr z, fs1) \<longleftrightarrow> f fs = Inr z \<and> fs1 = fs"
  by (auto simp: checked_def)

lemma return_Inr: "return_io y fs = (Inr z, fs') \<longleftrightarrow> z = y \<and> fs' = fs"
  by (auto simp: return_io_def)

lemma refuse_if_Inr [simp]: "refuse_if b m = Inr u \<longleftrightarrow> \<not> b"
  by (simp add: refuse_if_def)

definition unchanged :: "path set \<Rightarrow> files \<Rightarrow> files \<Rightarrow> bool" where
  \<comment> \<open>outside \<open>ps\<close>, at most directories have been added\<close>
  "unchanged ps fs fs' \<longleftrightarrow> (\<forall>p. p \<notin> ps \<longrightarrow> fs' p = fs p \<or> fs p = None \<and> fs' p = Some Dir)"

definition writes_only :: "path set \<Rightarrow> 'a io \<Rightarrow> bool" where
  "writes_only ps m \<longleftrightarrow> (\<forall>fs. unchanged ps fs (snd (m fs)))"

lemma unchanged_refl [simp]: "unchanged ps fs fs"
  by (simp add: unchanged_def)

lemma unchanged_trans: "unchanged ps fs fs1 \<Longrightarrow> unchanged ps fs1 fs2 \<Longrightarrow> unchanged ps fs fs2"
  by (simp add: unchanged_def) metis

lemma unchanged_file: "unchanged ps fs fs' \<Longrightarrow> p \<notin> ps \<Longrightarrow> is_file fs p \<Longrightarrow> fs' p = fs p"
  by (auto simp: unchanged_def is_file_def)

lemma writes_bind: "writes_only ps m \<Longrightarrow> (\<And>y. writes_only ps (k y)) \<Longrightarrow> writes_only ps (bind_io m k)"
proof -
  assume m: "writes_only ps m" and k: "\<And>y. writes_only ps (k y)"
  have "unchanged ps fs (snd (bind_io m k fs))" for fs
  proof (cases "m fs")
    case (Pair r fs1)
    then have "unchanged ps fs fs1" using m by (simp add: writes_only_def) (metis snd_conv)
    moreover have "unchanged ps fs1 (snd (k y fs1))" for y using k by (simp add: writes_only_def)
    ultimately show ?thesis using Pair by (auto simp: bind_io_def split: sum.split intro: unchanged_trans)
  qed
  then show ?thesis by (simp add: writes_only_def)
qed

lemma writes_checked: "writes_only ps (checked f)"
  by (simp add: writes_only_def checked_def)

lemma writes_return: "writes_only ps (return_io y)"
  by (simp add: writes_only_def return_io_def)

lemma not_blocked:
  assumes "\<not> blocked fs p" "is_above q p"
  shows "\<not> is_file fs q"
proof -
  have q: "take (length q) p = q" using assms(2) by (simp add: is_above_def)
  then have "length q \<le> length p" by (metis length_take min.cobounded1)
  then have "length q \<in> set [0..<Suc (length p)]" by auto
  then have "\<not> is_file fs (take (length q) p)" using assms(1) unfolding blocked_def list_ex_iff by blast
  then show ?thesis unfolding q .
qed

lemma mkdirs_get: "\<not> blocked fs p \<Longrightarrow> snd (mkdirs p fs) q = (if is_above q p then Some Dir else fs q)"
  by (simp add: mkdirs_def)

lemma mkdirs_unchanged: "unchanged ps fs (snd (mkdirs p fs))"
proof (cases "blocked fs p")
  case True
  then show ?thesis by (simp add: mkdirs_def)
next
  case False
  have "snd (mkdirs p fs) q = fs q \<or> fs q = None \<and> snd (mkdirs p fs) q = Some Dir" for q
  proof (cases "is_above q p")
    case True
    have "fs q = None \<or> fs q = Some Dir"
      using not_blocked [OF False True] by (cases "fs q" rule: option.exhaust; cases "the (fs q)") (auto simp: is_file_def)
    with True show ?thesis using mkdirs_get [OF False] by auto
  qed (simp add: mkdirs_get [OF False])
  then show ?thesis by (simp add: unchanged_def)
qed

lemma above_parent: "is_above q (parent p) \<Longrightarrow> length q \<le> length p - 1"
proof -
  assume "is_above q (parent p)"
  then have "length (take (length q) (butlast p)) = length q" by (simp add: is_above_def parent_def)
  then show ?thesis by simp
qed

lemma bind_mkdirs: "bind_io (mkdirs p) k fs = (if blocked fs p then (Inl OSError, fs) else k () (snd (mkdirs p fs)))"
  by (simp add: bind_io_def mkdirs_def)

lemma writes_mkdirs: "writes_only ps (mkdirs p)"
  by (simp add: writes_only_def mkdirs_unchanged)

lemma writes_bytes: "p \<in> ps \<Longrightarrow> writes_only ps (write_bytes p b)"
  by (auto simp: writes_only_def write_bytes_def unchanged_def)

lemmas writes_intros = writes_bind writes_checked writes_return writes_mkdirs writes_bytes

lemma initialize_writes:
  "writes_only {xp_resolve x issuer_root @ [''project-ca.crt''], xp_resolve x issuer_root @ [''project-ca.key''], xp_resolve x app_ca_path}
     (initialize_project_ca x rd workspace issuer_root app_ca_path common_name valid_days password overwrite)"
  unfolding initialize_project_ca_def Let_def by (intro writes_intros) simp_all

lemma sign_writes:
  "writes_only {xp_resolve x output_path}
     (sign_gateway_csr x rd csr_path ca_certificate_path ca_private_key_path password output_path valid_days overwrite)"
  unfolding sign_gateway_csr_def Let_def by (intro writes_intros) simp_all

lemma stage_writes: "writes_only {xp_resolve x app_ca_path} (stage_root_ca_rotation x existing new_ca app_ca_path overwrite)"
  unfolding stage_root_ca_rotation_def Let_def by (intro writes_intros) simp_all

lemma finalize_writes: "writes_only {xp_resolve x app_ca_path} (finalize_root_ca_rotation x new_ca app_ca_path overwrite)"
  unfolding finalize_root_ca_rotation_def Let_def by (intro writes_intros) simp_all

text \<open>A check that fails ends an operation with the files it started with.\<close>

lemma stop_bind: "(\<And>y. f fs = Inr y \<Longrightarrow> snd (k y fs) = fs) \<Longrightarrow> snd (bind_io (checked f) k fs) = fs"
  by (simp add: bind_checked split: sum.split)

lemma available [simp]: "require_output_available fs p False = Inr u \<longleftrightarrow> fs p = None"
  by (simp add: require_output_available_def)

lemma initialize_stops:
  assumes "p \<in> {xp_resolve x issuer_root @ [''project-ca.crt''], xp_resolve x issuer_root @ [''project-ca.key''], xp_resolve x app_ca_path}"
    and "fs p \<noteq> None"
  shows "snd (initialize_project_ca x rd workspace issuer_root app_ca_path common_name valid_days password False fs) = fs"
  unfolding initialize_project_ca_def Let_def by (intro stop_bind) (use assms in auto)

lemma sign_stops:
  "fs (xp_resolve x output_path) \<noteq> None \<Longrightarrow>
   snd (sign_gateway_csr x rd csr_path ca_certificate_path ca_private_key_path password output_path valid_days False fs) = fs"
  unfolding sign_gateway_csr_def Let_def by (intro stop_bind) simp

lemma stage_stops:
  "fs (xp_resolve x app_ca_path) \<noteq> None \<Longrightarrow> snd (stage_root_ca_rotation x existing new_ca app_ca_path False fs) = fs"
  unfolding stage_root_ca_rotation_def Let_def by (intro stop_bind) simp

lemma finalize_stops:
  "fs (xp_resolve x app_ca_path) \<noteq> None \<Longrightarrow> snd (finalize_root_ca_rotation x new_ca app_ca_path False fs) = fs"
  unfolding finalize_root_ca_rotation_def Let_def by (intro stop_bind) simp

section \<open>Properties\<close>

datatype signing_op =
    InitializeCA issue_readings path string string pytext int string
  | SignCSR issue_readings string string string string string int
  | StageRotation string string string
  | FinalizeRotation string string

definition run_signing :: "x509 \<Rightarrow> bool \<Rightarrow> signing_op \<Rightarrow> files \<Rightarrow> files" where
  "run_signing x overwrite op fs = (case op of
       InitializeCA rd workspace issuer_root app_ca_path name valid_days password \<Rightarrow>
         snd (initialize_project_ca x rd workspace issuer_root app_ca_path name valid_days password overwrite fs)
     | SignCSR rd csr_path ca_path key_path password output_path valid_days \<Rightarrow>
         snd (sign_gateway_csr x rd csr_path ca_path key_path password output_path valid_days overwrite fs)
     | StageRotation existing new_ca app_ca_path \<Rightarrow> snd (stage_root_ca_rotation x existing new_ca app_ca_path overwrite fs)
     | FinalizeRotation new_ca app_ca_path \<Rightarrow> snd (finalize_root_ca_rotation x new_ca app_ca_path overwrite fs))"

lemma signing_keeps:
  assumes "fs p = Some n"
  shows "run_signing x False op fs p = Some n"
proof -
  have main: "snd (m fs) p = Some n" if w: "writes_only ps m" and s: "p \<in> ps \<Longrightarrow> snd (m fs) = fs" for ps and m :: "'b io"
  proof (cases "p \<in> ps")
    case True
    then show ?thesis using s assms by simp
  next
    case False
    have "unchanged ps fs (snd (m fs))" using w by (simp add: writes_only_def)
    with False have "snd (m fs) p = fs p \<or> fs p = None \<and> snd (m fs) p = Some Dir" by (simp add: unchanged_def)
    with assms show ?thesis by auto
  qed
  have ne: "fs p \<noteq> None" using assms by simp
  show ?thesis
  proof (cases op)
    case (InitializeCA rd workspace issuer_root app_ca_path name valid_days password)
    have "snd (initialize_project_ca x rd workspace issuer_root app_ca_path name valid_days password False fs) p = Some n"
      by (rule main [OF initialize_writes]) (rule initialize_stops, assumption, rule ne)
    with InitializeCA show ?thesis by (simp add: run_signing_def)
  next
    case (SignCSR rd csr_path ca_path key_path password output_path valid_days)
    have "snd (sign_gateway_csr x rd csr_path ca_path key_path password output_path valid_days False fs) p = Some n"
      by (rule main [OF sign_writes]) (use ne in \<open>auto intro: sign_stops\<close>)
    with SignCSR show ?thesis by (simp add: run_signing_def)
  next
    case (StageRotation existing new_ca app_ca_path)
    have "snd (stage_root_ca_rotation x existing new_ca app_ca_path False fs) p = Some n"
      by (rule main [OF stage_writes]) (use ne in \<open>auto intro: stage_stops\<close>)
    with StageRotation show ?thesis by (simp add: run_signing_def)
  next
    case (FinalizeRotation new_ca app_ca_path)
    have "snd (finalize_root_ca_rotation x new_ca app_ca_path False fs) p = Some n"
      by (rule main [OF finalize_writes]) (use ne in \<open>auto intro: finalize_stops\<close>)
    with FinalizeRotation show ?thesis by (simp add: run_signing_def)
  qed
qed

text \<open>C23: the issuer never touches what exists unless it is told to. In any sequence of its
operations without the overwrite flag, on any paths and with errors at any point, every
file and directory that existed is still there, with the same content.\<close>

theorem no_silent_overwrite:
  assumes "fs p = Some n"
  shows "fold (run_signing x False) ops fs p = Some n"
  using assms by (induction ops arbitrary: fs) (simp_all add: signing_keeps)

definition demo_x509 :: x509 where
  \<comment> \<open>a path is its one component, a key is its bytes, and a certificate's text names its issuer\<close>
  "demo_x509 = \<lparr>xp_resolve = (\<lambda>s. [''etc'', s]), xp_load = (\<lambda>b. None), xp_pem = (\<lambda>c. ce_subject c), xp_fingerprint = ce_subject,
     xp_name = (\<lambda>t. if length t \<le> 64 then Some ''CA'' else None), xp_csr = (\<lambda>b. None),
     xp_key = (\<lambda>b w. Some \<lparr>pk_public = b, pk_p256 = True\<rparr>), xp_key_pem = (\<lambda>k w. if 1023 < length w then None else Some (pk_public k))\<rparr>"

definition demo_files :: files where
  "demo_files = (\<lambda>_. None)([] \<mapsto> Dir, [''etc''] \<mapsto> Dir, [''etc'', ''root.pem''] \<mapsto> File ''old root'')"

theorem no_silent_overwrite_witness:
  "fold (run_signing demo_x509 False) [FinalizeRotation ''new.pem'' ''root.pem'', StageRotation ''root.pem'' ''new.pem'' ''root.pem'']
     demo_files [''etc'', ''root.pem''] = Some (File ''old root'')"
  by (rule no_silent_overwrite) (simp add: demo_files_def)

lemma require_ca_Inr: "require_ca_certificate c = Inr u \<longleftrightarrow> (\<exists>n k. ce_basic c = Some (True, n) \<and> ce_usage c = Some k \<and> ku_key_cert_sign k)"
  by (auto simp: require_ca_certificate_def split: option.split)

lemma gateway_san_Inr:
  "gateway_san q = Inr san \<longleftrightarrow> cq_sans q = Some san \<and> san \<noteq> [] \<and> length san \<le> 16 \<and> (\<forall>s. OtherName s \<notin> set san)"
proof -
  have "(case n of OtherName _ \<Rightarrow> True | _ \<Rightarrow> False) \<longleftrightarrow> (\<exists>s. n = OtherName s)" for n
    by (cases n) auto
  then show ?thesis by (auto simp: gateway_san_def MAX_GATEWAY_SANS_def list_ex_iff split: option.split)
qed

lemma unlock_Inr: "unlock_key x b w = Inr k \<longleftrightarrow> w \<noteq> [] \<and> xp_key x b w = Some k"
  by (auto simp: unlock_key_def password_bytes_def split: option.split)

lemma write_Inr: "write_bytes p b fs = (Inr u, fs') \<longleftrightarrow> fs p \<noteq> Some Dir \<and> fs (parent p) = Some Dir \<and> fs' = fs(p \<mapsto> File b)"
  by (auto simp: write_bytes_def)

lemma sum_of_option_Inr: "(case y of None \<Rightarrow> Inl e | Some q \<Rightarrow> Inr q) = Inr z \<longleftrightarrow> y = Some z"
  by (cases y) auto

lemma sign_success:
  assumes "sign_gateway_csr x rd csr_path ca_path key_path password output_path valid_days overwrite fs = (Inr (p, c), fs')"
  obtains q ca key san where "1 \<le> valid_days" "valid_days \<le> 397" "p = xp_resolve x output_path"
    "xp_csr x (read_bytes fs (xp_resolve x csr_path)) = Some q" "cq_valid q" "cq_p256 q" "gateway_san q = Inr san"
    "read_certificate_bundle x (xp_resolve x ca_path) fs = Inr [ca]" "require_ca_certificate ca = Inr ()"
    "xp_key x (read_bytes fs (xp_resolve x key_path)) password = Some key" "pk_p256 key" "ce_public ca = pk_public key"
    "ir_now rd < min (ir_now rd + days valid_days) (ce_not_after ca)"
    "c = gateway_certificate rd q san ca key (min (ir_now rd + days valid_days) (ce_not_after ca))"
    "fs' p = Some (File (xp_pem x c))"
proof -
  have "\<exists>q ca key san. 1 \<le> valid_days \<and> valid_days \<le> 397 \<and> p = xp_resolve x output_path
    \<and> xp_csr x (read_bytes fs (xp_resolve x csr_path)) = Some q \<and> cq_valid q \<and> cq_p256 q \<and> gateway_san q = Inr san
    \<and> (\<exists>cs. read_certificate_bundle x (xp_resolve x ca_path) fs = Inr cs \<and> length cs = 1 \<and> hd cs = ca)
    \<and> require_ca_certificate ca = Inr ()
    \<and> xp_key x (read_bytes fs (xp_resolve x key_path)) password = Some key \<and> pk_p256 key \<and> ce_public ca = pk_public key
    \<and> ir_now rd < min (ir_now rd + days valid_days) (ce_not_after ca)
    \<and> c = gateway_certificate rd q san ca key (min (ir_now rd + days valid_days) (ce_not_after ca))
    \<and> fs' p = Some (File (xp_pem x c))"
    using assms unfolding sign_gateway_csr_def Let_def bind_Inr checked_Inr return_Inr sum_of_option_Inr unlock_Inr refuse_if_Inr
    by (elim exE conjE) (simp add: write_Inr not_le not_less)
  then obtain q ca key san cs where f: "1 \<le> valid_days" "valid_days \<le> 397" "p = xp_resolve x output_path"
    "xp_csr x (read_bytes fs (xp_resolve x csr_path)) = Some q" "cq_valid q" "cq_p256 q" "gateway_san q = Inr san"
    "require_ca_certificate ca = Inr ()"
    "xp_key x (read_bytes fs (xp_resolve x key_path)) password = Some key" "pk_p256 key" "ce_public ca = pk_public key"
    "ir_now rd < min (ir_now rd + days valid_days) (ce_not_after ca)"
    "c = gateway_certificate rd q san ca key (min (ir_now rd + days valid_days) (ce_not_after ca))"
    "fs' p = Some (File (xp_pem x c))"
    and cs: "read_certificate_bundle x (xp_resolve x ca_path) fs = Inr cs" "length cs = 1" "hd cs = ca" by blast
  have "cs = [ca]" using cs(2,3) by (cases cs) auto
  show ?thesis by (rule that [OF f(1-7) _ f(8-14)]) (use cs(1) \<open>cs = [ca]\<close> in simp)
qed

section \<open>Bundles\<close>

definition pem_text :: "string \<Rightarrow> bool" where
  \<comment> \<open>the form of an encoded certificate: markers around a body of base64 lines\<close>
  "pem_text t \<longleftrightarrow> (\<exists>w body tail. t = BEGIN_CERTIFICATE @ w # body @ END_CERTIFICATE @ tail \<and> pem_space w
     \<and> CHR ''-'' \<notin> set body \<and> list_all pem_space tail)"

lemma find_sub_here: "pat \<noteq> [] \<Longrightarrow> find_sub pat (pat @ r) = Some ([], r)"
  by (cases pat) simp_all

lemma find_end: "CHR ''-'' \<notin> set body \<Longrightarrow> find_sub END_CERTIFICATE (body @ END_CERTIFICATE @ r) = Some (body, r)"
proof (induction body)
  case Nil
  then show ?case using find_sub_here [of END_CERTIFICATE r] by (simp add: END_CERTIFICATE_def)
next
  case (Cons c body)
  have "take (length END_CERTIFICATE) (c # body @ END_CERTIFICATE @ r) \<noteq> END_CERTIFICATE"
    using Cons.prems by (auto simp: END_CERTIFICATE_def)
  with Cons show ?case by simp
qed

lemma pem_blocks_step:
  assumes "pem_text t" "rest = [] \<or> \<not> pem_space (hd rest)"
  shows "pem_blocks (t @ rest) = t # pem_blocks rest"
proof -
  obtain w body tail where t: "t = BEGIN_CERTIFICATE @ w # body @ END_CERTIFICATE @ tail"
    and w: "pem_space w" "CHR ''-'' \<notin> set body" "list_all pem_space tail"
    using assms(1) by (auto simp: pem_text_def)
  have b: "find_sub BEGIN_CERTIFICATE (t @ rest) = Some ([], w # body @ END_CERTIFICATE @ tail @ rest)"
    using find_sub_here [of BEGIN_CERTIFICATE "w # body @ END_CERTIFICATE @ tail @ rest"]
    by (simp add: t BEGIN_CERTIFICATE_def)
  have tw: "takeWhile pem_space (tail @ rest) = tail" "dropWhile pem_space (tail @ rest) = rest"
    using w(3) assms(2) by (cases rest; induction tail; simp)+
  show ?thesis
    by (subst pem_blocks.simps) (simp add: b w(1) find_end [OF w(2)] tw, simp add: t)
qed

lemma pem_blocks_nil: "pem_blocks [] = []"
  by (subst pem_blocks.simps) simp

lemma pem_blocks_concat: "list_all pem_text ts \<Longrightarrow> pem_blocks (concat ts) = ts"
proof (induction ts)
  case (Cons t ts)
  have "concat ts = [] \<or> \<not> pem_space (hd (concat ts))"
  proof (cases ts)
    case (Cons u us)
    with Cons.prems have "hd (concat ts) = CHR ''-''" by (auto simp: pem_text_def BEGIN_CERTIFICATE_def)
    then show ?thesis by (simp add: pem_space_def)
  qed simp
  with Cons show ?case by (simp add: pem_blocks_step)
qed (simp add: pem_blocks_nil)

definition pem_ok :: "x509 \<Rightarrow> certificate set \<Rightarrow> bool" where
  \<comment> \<open>documented behaviour of \<open>cryptography\<close>: a certificate is encoded in PEM form and loads back,
     and different certificates have different fingerprints\<close>
  "pem_ok x cs \<longleftrightarrow> (\<forall>c \<in> cs. pem_text (xp_pem x c) \<and> xp_load x (xp_pem x c) = Some c) \<and> inj_on (xp_fingerprint x) cs"

lemma distinct_fingerprints_set:
  "inj_on (xp_fingerprint x) (set cs) \<Longrightarrow> set (distinct_fingerprints x seen cs) = {c \<in> set cs. xp_fingerprint x c \<notin> seen}
     \<and> distinct (distinct_fingerprints x seen cs)"
proof (induction cs arbitrary: seen)
  case (Cons c cs)
  then have i: "inj_on (xp_fingerprint x) (set cs)" by simp
  have "d = c" if "d \<in> set cs" "xp_fingerprint x d = xp_fingerprint x c" for d
    using Cons.prems that by (auto simp: inj_on_def)
  then show ?case using Cons.IH [OF i, of seen] Cons.IH [OF i, of "insert (xp_fingerprint x c) seen"] by auto
qed simp

lemma load_all_pem: "\<forall>c \<in> set cs. xp_load x (xp_pem x c) = Some c \<Longrightarrow> load_all x (map (xp_pem x) cs) = Inr cs"
  by (induction cs) simp_all

lemma read_written_bundle:
  assumes "pem_ok x (set cs)" "pem_bundle x cs = Inr b" "fs p = Some (File b)"
  shows "\<exists>ds. read_certificate_bundle x p fs = Inr ds \<and> set ds = set cs \<and> distinct ds"
proof -
  let ?ds = "distinct_fingerprints x {} cs"
  have ds: "set ?ds = set cs" "distinct ?ds"
    using distinct_fingerprints_set [of x cs "{}"] assms(1) by (simp_all add: pem_ok_def)
  have b: "b = concat (map (xp_pem x) ?ds)" "?ds \<noteq> []"
    using assms(2) by (auto simp: pem_bundle_def Let_def split: if_split_asm)
  have "pem_blocks b = map (xp_pem x) ?ds" unfolding b(1)
    by (rule pem_blocks_concat) (use assms(1) ds(1) in \<open>simp add: pem_ok_def list_all_iff\<close>)
  moreover have "load_all x (map (xp_pem x) ?ds) = Inr ?ds"
    by (rule load_all_pem) (use assms(1) ds(1) in \<open>simp add: pem_ok_def\<close>)
  ultimately have "read_certificate_bundle x p fs = Inr ?ds"
    using assms(3) b(2) by (simp add: read_certificate_bundle_def require_existing_file_def is_file_def read_bytes_def Let_def)
  with ds show ?thesis by blast
qed

lemma stage_success:
  assumes "stage_root_ca_rotation x existing new_ca app_ca_path overwrite fs = (Inr n, fs')"
  obtains old new b where "read_certificate_bundle x (xp_resolve x existing) fs = Inr old"
    "read_certificate_bundle x (xp_resolve x new_ca) fs = Inr new" "require_ca_certificates (old @ new) = Inr ()"
    "pem_bundle x (old @ new) = Inr b" "fs' (xp_resolve x app_ca_path) = Some (File b)"
    "\<exists>ds. read_certificate_bundle x (xp_resolve x app_ca_path) fs' = Inr ds \<and> n = length ds"
proof -
  have "\<exists>old new b. read_certificate_bundle x (xp_resolve x existing) fs = Inr old
    \<and> read_certificate_bundle x (xp_resolve x new_ca) fs = Inr new \<and> require_ca_certificates (old @ new) = Inr ()
    \<and> pem_bundle x (old @ new) = Inr b \<and> fs' (xp_resolve x app_ca_path) = Some (File b)
    \<and> (\<exists>ds. read_certificate_bundle x (xp_resolve x app_ca_path) fs' = Inr ds \<and> n = length ds)"
    using assms unfolding stage_root_ca_rotation_def Let_def bind_Inr checked_Inr return_Inr write_Inr
    by (elim exE conjE) simp
  then show ?thesis using that by blast
qed

lemma finalize_success:
  assumes "finalize_root_ca_rotation x new_ca app_ca_path overwrite fs = (Inr n, fs')"
  obtains new b where "read_certificate_bundle x (xp_resolve x new_ca) fs = Inr new" "require_ca_certificates new = Inr ()"
    "pem_bundle x new = Inr b" "fs' (xp_resolve x app_ca_path) = Some (File b)" "n = length new"
proof -
  have "\<exists>new b. read_certificate_bundle x (xp_resolve x new_ca) fs = Inr new \<and> require_ca_certificates new = Inr ()
    \<and> pem_bundle x new = Inr b \<and> fs' (xp_resolve x app_ca_path) = Some (File b) \<and> n = length new"
    using assms unfolding finalize_root_ca_rotation_def Let_def bind_Inr checked_Inr return_Inr write_Inr
    by (elim exE conjE) simp
  then show ?thesis using that by blast
qed

lemma require_cas_Inr: "require_ca_certificates cs = Inr u \<longleftrightarrow> (\<forall>c \<in> set cs. \<exists>v. require_ca_certificate c = Inr v)"
  by (induction cs) (auto split: sum.split)

text \<open>C14: what a signed certificate can be used for is bounded by the code, not by the request. A
signature that succeeds was asked for by a request with a valid signature over a P-256 key, under a
CA certificate that the unlocked key matches; the certificate binds the request's key and
subject and 1 to 16 DNS names or addresses, names the CA as issuer, is no CA and cannot sign
certificates, is for server authentication only, was valid five minutes ago and expires neither after the CA
nor after 397 days; it is what the output file holds, and no other existing file has changed.\<close>

theorem gateway_certificate_safe:
  assumes "sign_gateway_csr x rd csr_path ca_path key_path password output_path valid_days overwrite fs = (Inr (p, c), fs')"
  shows "\<exists>q ca san. xp_csr x (read_bytes fs (xp_resolve x csr_path)) = Some q \<and> cq_valid q \<and> cq_p256 q
    \<and> read_certificate_bundle x (xp_resolve x ca_path) fs = Inr [ca] \<and> require_ca_certificate ca = Inr ()
    \<and> ce_public c = cq_public q \<and> ce_subject c = cq_subject q
    \<and> ce_sans c = Some san \<and> cq_sans q = Some san \<and> 1 \<le> length san \<and> length san \<le> 16 \<and> (\<forall>s. OtherName s \<notin> set san)
    \<and> ce_issuer c = ce_subject ca \<and> ce_signed_by c = ce_public ca
    \<and> require_ca_certificate c = Inl (Refused ''is not a CA certificate'') \<and> ce_extended c = [''SERVER_AUTH'']
    \<and> (\<exists>u. ce_usage c = Some u \<and> \<not> ku_key_cert_sign u \<and> \<not> ku_crl_sign u)
    \<and> ce_not_before c \<le> ir_now rd - 5 * 60 * 1000000 \<and> ce_not_after c \<le> ce_not_after ca \<and> ce_not_after c \<le> ir_now rd + days 397
    \<and> p = xp_resolve x output_path \<and> fs' p = Some (File (xp_pem x c)) \<and> unchanged {p} fs fs'"
proof -
  obtain q ca key san where f: "1 \<le> valid_days" "valid_days \<le> 397" "p = xp_resolve x output_path"
    "xp_csr x (read_bytes fs (xp_resolve x csr_path)) = Some q" "cq_valid q" "cq_p256 q" "gateway_san q = Inr san"
    "read_certificate_bundle x (xp_resolve x ca_path) fs = Inr [ca]" "require_ca_certificate ca = Inr ()"
    "xp_key x (read_bytes fs (xp_resolve x key_path)) password = Some key" "pk_p256 key" "ce_public ca = pk_public key"
    "ir_now rd < min (ir_now rd + days valid_days) (ce_not_after ca)"
    "c = gateway_certificate rd q san ca key (min (ir_now rd + days valid_days) (ce_not_after ca))"
    "fs' p = Some (File (xp_pem x c))" by (rule sign_success [OF assms])
  have w: "unchanged {p} fs fs'"
    using sign_writes [of x output_path rd csr_path ca_path key_path password valid_days overwrite] assms
    unfolding writes_only_def f(3) by (metis snd_conv)
  have t: "whole_seconds t \<le> t" for t by (simp add: whole_seconds_def)
  have d: "days valid_days \<le> days 397" using f(2) by (simp add: days_def)
  have a: "ce_not_after c \<le> ce_not_after ca" "ce_not_after c \<le> ir_now rd + days 397"
    using t [of "min (ir_now rd + days valid_days) (ce_not_after ca)"] d by (auto simp: f(14) gateway_certificate_def)
  have b: "ce_not_before c \<le> ir_now rd - 5 * 60 * 1000000"
    using t [of "ir_now rd - 5 * 60 * 1000000"] by (simp add: f(14) gateway_certificate_def)
  have r: "require_ca_certificate c = Inl (Refused ''is not a CA certificate'')"
    by (simp add: require_ca_certificate_def f(14) gateway_certificate_def)
  have g: "cq_sans q = Some san" "1 \<le> length san" "length san \<le> 16" "\<forall>s. OtherName s \<notin> set san"
    using f(7) by (auto simp: gateway_san_Inr Suc_le_eq)
  show ?thesis
    by (rule exI [of _ q], rule exI [of _ ca], rule exI [of _ san], intro conjI; (rule a b r w f g)?)
       (simp_all add: f(12,14) gateway_certificate_def)
qed

section \<open>A worked issuer\<close>

definition demo_pem :: "string \<Rightarrow> string" where
  "demo_pem b = BEGIN_CERTIFICATE @ CHR 0x0A # b @ END_CERTIFICATE @ [CHR 0x0A]"

definition demo_ca :: "string \<Rightarrow> certificate" where
  "demo_ca n = ca_certificate \<lparr>ir_now = 0, ir_key = \<lparr>pk_public = n, pk_p256 = True\<rparr>, ir_serial = 1\<rparr> n 3650"

definition demo_csr :: csr where
  "demo_csr = \<lparr>cq_subject = ''gateway'', cq_public = ''gwkey'', cq_p256 = True, cq_valid = True,
     cq_sans = Some [DNSName ''gw.local'', IPAddress ''10.0.0.2'']\<rparr>"

definition demo_issuer :: x509 where
  \<comment> \<open>a certificate's text is its subject between the markers; it loads as the CA of that name\<close>
  "demo_issuer = demo_x509\<lparr>xp_load := (\<lambda>b. map_of [(demo_pem ''A'', demo_ca ''A''), (demo_pem ''B'', demo_ca ''B'')] b),
     xp_pem := (\<lambda>c. demo_pem (ce_subject c)), xp_csr := (\<lambda>b. Some demo_csr)\<rparr>"

definition demo_issuer_files :: files where
  "demo_issuer_files = (\<lambda>_. None)([] \<mapsto> Dir, [''etc''] \<mapsto> Dir, [''etc'', ''a.crt''] \<mapsto> File (demo_pem ''A''),
     [''etc'', ''b.crt''] \<mapsto> File (demo_pem ''B''), [''etc'', ''gw.csr''] \<mapsto> File ''csr'', [''etc'', ''a.key''] \<mapsto> File ''A'')"

lemma demo_pem_text: "CHR ''-'' \<notin> set b \<Longrightarrow> pem_text (demo_pem b)"
  unfolding pem_text_def demo_pem_def
  by (intro exI conjI, rule refl) (simp_all add: pem_space_def)

lemma demo_pem_blocks: "pem_blocks (demo_pem ''A'') = [demo_pem ''A'']" "pem_blocks (demo_pem ''B'') = [demo_pem ''B'']"
  "pem_blocks (demo_pem ''A'' @ demo_pem ''B'') = [demo_pem ''A'', demo_pem ''B'']"
  using pem_blocks_concat [of "[demo_pem ''A'']"] pem_blocks_concat [of "[demo_pem ''B'']"]
    pem_blocks_concat [of "[demo_pem ''A'', demo_pem ''B'']"] by (simp_all add: demo_pem_text)

lemma demo_pem_inj [simp]: "demo_pem a = demo_pem b \<longleftrightarrow> a = b"
  by (simp add: demo_pem_def)

lemma demo_load: "xp_load demo_issuer (demo_pem ''A'') = Some (demo_ca ''A'')" "xp_load demo_issuer (demo_pem ''B'') = Some (demo_ca ''B'')"
  "xp_pem demo_issuer (demo_ca n) = demo_pem n" "xp_resolve demo_issuer s = [''etc'', s]" "xp_csr demo_issuer b = Some demo_csr"
  "xp_key demo_issuer b w = Some \<lparr>pk_public = b, pk_p256 = True\<rparr>" "xp_fingerprint demo_issuer c = ce_subject c"
  by (simp_all add: demo_issuer_def demo_x509_def demo_ca_def ca_certificate_def)

lemma demo_bundle:
  assumes "fs p = Some (File (demo_pem ''A''))" shows "read_certificate_bundle demo_issuer p fs = Inr [demo_ca ''A'']"
  using assms by (simp add: read_certificate_bundle_def require_existing_file_def is_file_def read_bytes_def demo_pem_blocks demo_load)

lemma demo_bundle_B:
  assumes "fs p = Some (File (demo_pem ''B''))" shows "read_certificate_bundle demo_issuer p fs = Inr [demo_ca ''B'']"
  using assms by (simp add: read_certificate_bundle_def require_existing_file_def is_file_def read_bytes_def demo_pem_blocks demo_load)

lemma demo_is_ca: "require_ca_certificate (demo_ca n) = Inr ()"
  by (simp add: require_ca_Inr demo_ca_def ca_certificate_def)

definition demo_readings :: issue_readings where
  "demo_readings = \<lparr>ir_now = 1000000000, ir_key = \<lparr>pk_public = ''A'', pk_p256 = True\<rparr>, ir_serial = 7\<rparr>"

lemma demo_issuer_signs:
  "\<exists>c fs'. sign_gateway_csr demo_issuer demo_readings ''gw.csr'' ''a.crt'' ''a.key'' ''pw'' ''gw.crt'' 90 False demo_issuer_files
     = (Inr ([''etc'', ''gw.crt''], c), fs')"
proof -
  have b: "read_certificate_bundle demo_issuer [''etc'', ''a.crt''] demo_issuer_files = Inr [demo_ca ''A'']"
    by (rule demo_bundle) (simp add: demo_issuer_files_def)
  have s: "gateway_san demo_csr = Inr [DNSName ''gw.local'', IPAddress ''10.0.0.2'']"
    by (simp add: gateway_san_Inr demo_csr_def)
  have f: "require_existing_file demo_issuer_files [''etc'', ''gw.csr''] = Inr ()"
    "require_existing_file demo_issuer_files [''etc'', ''a.crt''] = Inr ()"
    "require_existing_file demo_issuer_files [''etc'', ''a.key''] = Inr ()"
    "require_output_available demo_issuer_files [''etc'', ''gw.crt''] False = Inr ()"
    by (simp_all add: require_existing_file_def is_file_def demo_issuer_files_def)
  have k: "unlock_key demo_issuer (read_bytes demo_issuer_files [''etc'', ''a.key'']) ''pw'' = Inr \<lparr>pk_public = ''A'', pk_p256 = True\<rparr>"
    by (simp add: unlock_Inr demo_load read_bytes_def demo_issuer_files_def)
  have p: "ce_public (demo_ca ''A'') = ''A''" "ce_not_after (demo_ca ''A'') = 315360000000000"
    by (simp_all add: demo_ca_def ca_certificate_def whole_seconds_def days_def)
  have q: "cq_valid demo_csr" "cq_p256 demo_csr" by (simp_all add: demo_csr_def)
  have m: "fst (mkdirs [''etc''] demo_issuer_files) = Inr ()"
    by (simp add: mkdirs_def blocked_def is_file_def demo_issuer_files_def upt_rec)
  then obtain fs1 where m1: "mkdirs [''etc''] demo_issuer_files = (Inr (), fs1)" by (metis prod.collapse)
  have m2: "fs1 [''etc''] = Some Dir" "fs1 [''etc'', ''gw.crt''] = None"
    using mkdirs_get [of demo_issuer_files "[''etc'']"] m1
    by (auto simp: mkdirs_def is_above_def demo_issuer_files_def split: if_split_asm)
  show ?thesis
    unfolding sign_gateway_csr_def Let_def
    by (simp add: bind_checked demo_load f q s b k p demo_is_ca refuse_if_def demo_readings_def days_def parent_def)
       (simp add: bind_io_def return_io_def m1 write_bytes_def m2 parent_def)
qed

theorem gateway_certificate_safe_witness:
  "\<exists>c fs'. sign_gateway_csr demo_issuer demo_readings ''gw.csr'' ''a.crt'' ''a.key'' ''pw'' ''gw.crt'' 90 False demo_issuer_files
     = (Inr ([''etc'', ''gw.crt''], c), fs') \<and> ce_public c = ''gwkey'' \<and> ce_extended c = [''SERVER_AUTH'']
     \<and> require_ca_certificate c = Inl (Refused ''is not a CA certificate'') \<and> ce_not_after c \<le> ce_not_after (demo_ca ''A'')"
proof -
  obtain c fs' where s: "sign_gateway_csr demo_issuer demo_readings ''gw.csr'' ''a.crt'' ''a.key'' ''pw'' ''gw.crt'' 90 False demo_issuer_files
     = (Inr ([''etc'', ''gw.crt''], c), fs')" using demo_issuer_signs by blast
  have b: "read_certificate_bundle demo_issuer [''etc'', ''a.crt''] demo_issuer_files = Inr [demo_ca ''A'']"
    by (rule demo_bundle) (simp add: demo_issuer_files_def)
  show ?thesis using gateway_certificate_safe [OF s] s b by (auto simp: demo_load demo_csr_def)
qed

text \<open>C40: a password the key cannot be encrypted with (an empty one, or one \<open>cryptography\<close> refuses as too
long) is refused too late. With the overwrite flag and checks that pass, the answer is an error,
but the certificate in the issuer directory has already been replaced by one whose key was never stored:
the private key file and the certificate the app trusts are still the old ones.\<close>

theorem bad_password_half_writes:
  fixes issuer_root app_ca_path x
  defines "d \<equiv> xp_resolve x issuer_root" and "t \<equiv> xp_resolve x app_ca_path"
  assumes "365 \<le> valid_days" "valid_days \<le> 7300" "strip common_name \<noteq> []" "\<not> is_within d workspace"
    and "xp_name x (strip common_name) = Some name"
    and files: "is_file fs (d @ [''project-ca.crt''])" "is_file fs (d @ [''project-ca.key''])" "is_file fs t"
    and "\<not> blocked fs d" "\<not> blocked fs (parent t)" "t \<noteq> d @ [''project-ca.crt'']"
    and password: "password = [] \<or> xp_key_pem x (ir_key rd) password = None"
  shows "\<exists>e fs'. initialize_project_ca x rd workspace issuer_root app_ca_path common_name valid_days password True fs = (Inl e, fs')
    \<and> fs' (d @ [''project-ca.crt'']) = Some (File (xp_pem x (ca_certificate rd name valid_days)))
    \<and> fs' (d @ [''project-ca.key'']) = fs (d @ [''project-ca.key'']) \<and> fs' t = fs t"
proof -
  let ?c = "d @ [''project-ca.crt'']" and ?k = "d @ [''project-ca.key'']"
  have ok: "require_output_available fs p True = Inr ()" if "is_file fs p" for p
    using that by (auto simp: require_output_available_def is_file_def split: option.split_asm)
  obtain fs1 where m1: "mkdirs d fs = (Inr (), fs1)" using assms(11) by (simp add: mkdirs_def)
  have keep: "fs1 p = fs p" if "is_file fs p" for p
    using unchanged_file [OF mkdirs_unchanged [of "{}" fs d] _ that] m1 by simp
  have "\<not> blocked fs1 (parent t)"
  proof -
    have "is_file fs1 p \<Longrightarrow> is_file fs p" for p
      using m1 assms(11) by (auto simp: mkdirs_def is_file_def split: if_split_asm)
    then show ?thesis using assms(12) by (auto simp: blocked_def list_ex_iff)
  qed
  then obtain fs2 where m2: "mkdirs (parent t) fs1 = (Inr (), fs2)" by (simp add: mkdirs_def)
  have keep2: "fs2 p = fs p" if "is_file fs p" for p
    using unchanged_file [OF mkdirs_unchanged [of "{}" fs1 "parent t"], of p] m2 keep [OF that] that by (simp add: is_file_def)
  have "fs1 d = Some Dir" using m1 assms(11) by (auto simp: mkdirs_def is_above_def split: if_split_asm)
  then have d2: "fs2 d = Some Dir"
    using m2 mkdirs_unchanged [of "{}" fs1 "parent t"] unfolding unchanged_def by (metis empty_iff snd_conv)
  have w: "write_bytes ?c b fs2 = (Inr (), fs2(?c \<mapsto> File b))" for b
    using keep2 [OF files(1)] files(1) d2 by (auto simp: write_bytes_def is_file_def parent_def butlast_append)
  have "\<exists>e. initialize_project_ca x rd workspace issuer_root app_ca_path common_name valid_days password True fs
      = (Inl e, fs2(?c \<mapsto> File (xp_pem x (ca_certificate rd name valid_days))))"
    unfolding initialize_project_ca_def Let_def d_def [symmetric] t_def [symmetric]
    by (simp add: bind_checked assms(3-7) refuse_if_def ok files)
       (use password in \<open>auto simp: bind_io_def checked_def m1 m2 w password_bytes_def assms(7)\<close>)
  then show ?thesis using keep2 [OF files(2)] keep2 [OF files(3)] assms(13) by auto
qed

definition demo_workspace :: files where
  "demo_workspace = (\<lambda>_. None)([] \<mapsto> Dir, [''etc''] \<mapsto> Dir, [''etc'', ''ca''] \<mapsto> Dir, [''etc'', ''ca'', ''project-ca.crt''] \<mapsto> File ''old ca'',
     [''etc'', ''ca'', ''project-ca.key''] \<mapsto> File ''old key'', [''etc'', ''app.pem''] \<mapsto> File ''old ca'')"

theorem bad_password_half_writes_witness:
  "\<exists>e fs'. initialize_project_ca demo_issuer demo_readings [''work''] ''ca'' ''app.pem'' [72, 111] 3650 (replicate 1024 (CHR ''x'')) True demo_workspace
      = (Inl e, fs')
    \<and> fs' [''etc'', ''ca'', ''project-ca.crt''] = Some (File (demo_pem ''CA''))
    \<and> fs' [''etc'', ''ca'', ''project-ca.key''] = Some (File ''old key'') \<and> fs' [''etc'', ''app.pem''] = Some (File ''old ca'')"
proof -
  have x: "xp_name demo_issuer (strip [72, 111]) = Some ''CA''" "strip [72, 111] \<noteq> []"
    "xp_pem demo_issuer (ca_certificate rd n v) = demo_pem n" for rd n v
    by (simp_all add: demo_issuer_def demo_x509_def ca_certificate_def strip_def whitespace_def)
  have "\<not> is_within (xp_resolve demo_issuer ''ca'') [''work'']" by (simp add: demo_load is_within_def is_above_def)
  moreover have "is_file demo_workspace (xp_resolve demo_issuer ''ca'' @ [''project-ca.crt''])"
    "is_file demo_workspace (xp_resolve demo_issuer ''ca'' @ [''project-ca.key''])"
    "is_file demo_workspace (xp_resolve demo_issuer ''app.pem'')"
    by (simp_all add: demo_load is_file_def demo_workspace_def)
  moreover have "\<not> blocked demo_workspace (xp_resolve demo_issuer ''ca'')" "\<not> blocked demo_workspace (parent (xp_resolve demo_issuer ''app.pem''))"
    by (simp_all add: demo_load blocked_def is_file_def demo_workspace_def upt_rec parent_def)
  moreover have "xp_key_pem demo_issuer (ir_key demo_readings) (replicate 1024 (CHR ''x'')) = None"
    by (simp add: demo_issuer_def demo_x509_def)
  ultimately show ?thesis
    using bad_password_half_writes [of 3650 "[72, 111]" demo_issuer "''ca''" "[''work'']" "''CA''" demo_workspace "''app.pem''"
      "replicate 1024 (CHR ''x'')" demo_readings] x
    by (simp add: demo_load demo_workspace_def)
qed

lemma bundle_file: "read_certificate_bundle x p fs = Inr cs \<Longrightarrow> is_file fs p"
  by (auto simp: read_certificate_bundle_def require_existing_file_def split: if_split_asm)

lemma bundle_cong: "fs' p = fs p \<Longrightarrow> read_certificate_bundle x p fs' = read_certificate_bundle x p fs"
  by (simp add: read_certificate_bundle_def require_existing_file_def is_file_def read_bytes_def)

text \<open>C22: replacing the root never leaves the app without a root it needs. When the bundles in use encode
and load as \<open>cryptography\<close> promises, staging leaves in the trust file exactly the old and
the new roots, each once, as many as the report counts, all of them CA certificates; finalising then
leaves exactly the new roots, and neither step changes any other file.\<close>

theorem root_rotation:
  assumes stage: "stage_root_ca_rotation x existing new_ca app_ca_path overwrite fs = (Inr n, fs1)"
    and finalize: "finalize_root_ca_rotation x new_ca app_ca_path True fs1 = (Inr m, fs2)"
    and old: "read_certificate_bundle x (xp_resolve x existing) fs = Inr old"
    and new: "read_certificate_bundle x (xp_resolve x new_ca) fs = Inr new"
    and apart: "xp_resolve x new_ca \<noteq> xp_resolve x app_ca_path" and ok: "pem_ok x (set old \<union> set new)"
  shows "(\<exists>both. read_certificate_bundle x (xp_resolve x app_ca_path) fs1 = Inr both \<and> set both = set old \<union> set new
      \<and> distinct both \<and> n = length both \<and> (\<forall>c \<in> set both. require_ca_certificate c = Inr ()))
    \<and> (\<exists>last. read_certificate_bundle x (xp_resolve x app_ca_path) fs2 = Inr last \<and> set last = set new \<and> distinct last)
    \<and> unchanged {xp_resolve x app_ca_path} fs fs2"
proof -
  let ?t = "xp_resolve x app_ca_path"
  obtain b where s: "require_ca_certificates (old @ new) = Inr ()" "pem_bundle x (old @ new) = Inr b" "fs1 ?t = Some (File b)"
    and r: "\<exists>ds. read_certificate_bundle x ?t fs1 = Inr ds \<and> n = length ds"
    using stage_success [OF stage] old new by (metis sum.inject(2))
  obtain both where both: "read_certificate_bundle x ?t fs1 = Inr both" "set both = set old \<union> set new" "distinct both"
    using read_written_bundle [of x "old @ new" b fs1 ?t] ok s by auto
  have n: "n = length both" using r both(1) by auto
  have ca: "\<forall>c \<in> set both. require_ca_certificate c = Inr ()" using s(1) both(2) unfolding require_cas_Inr by auto
  have u1: "unchanged {?t} fs fs1"
    using stage_writes [of x app_ca_path existing new_ca overwrite] stage unfolding writes_only_def by (metis snd_conv)
  have u2: "unchanged {?t} fs1 fs2"
    using finalize_writes [of x app_ca_path new_ca True] finalize unfolding writes_only_def by (metis snd_conv)
  have u: "unchanged {?t} fs fs2" by (rule unchanged_trans [OF u1 u2])
  have "fs1 (xp_resolve x new_ca) = fs (xp_resolve x new_ca)"
    by (rule unchanged_file [OF u1]) (use apart bundle_file [OF new] in simp_all)
  then have n1: "read_certificate_bundle x (xp_resolve x new_ca) fs1 = Inr new" using new bundle_cong by metis
  obtain b2 where f: "pem_bundle x new = Inr b2" "fs2 ?t = Some (File b2)"
    using finalize_success [OF finalize] n1 by (metis sum.inject(2))
  have "pem_ok x (set new)" using ok by (auto simp: pem_ok_def inj_on_def)
  then have l: "\<exists>last. read_certificate_bundle x ?t fs2 = Inr last \<and> set last = set new \<and> distinct last"
    using read_written_bundle [of x new b2 fs2 ?t] f by blast
  show ?thesis using both n ca l u by blast
qed

lemma demo_pem_ok: "pem_ok demo_issuer {demo_ca ''A'', demo_ca ''B''}"
  by (simp add: pem_ok_def demo_load demo_pem_text) (simp add: demo_ca_def ca_certificate_def)

lemma demo_stages:
  assumes "fs [''etc''] = Some Dir" "\<not> blocked fs [''etc'']" "fs [''etc'', ''t.pem''] = None"
    and "fs [''etc'', ''a.crt''] = Some (File (demo_pem ''A''))" "fs [''etc'', ''b.crt''] = Some (File (demo_pem ''B''))"
  shows "stage_root_ca_rotation demo_issuer ''a.crt'' ''b.crt'' ''t.pem'' False fs
    = (Inr 2, (snd (mkdirs [''etc''] fs))([''etc'', ''t.pem''] \<mapsto> File (demo_pem ''A'' @ demo_pem ''B'')))"
proof -
  obtain fs1 where m: "mkdirs [''etc''] fs = (Inr (), fs1)" using assms(2) by (simp add: mkdirs_def)
  have k: "fs1 [''etc''] = Some Dir" "fs1 [''etc'', ''t.pem''] = None"
    using m assms(2,3) by (auto simp: mkdirs_def is_above_def)
  have b: "pem_bundle demo_issuer [demo_ca ''A'', demo_ca ''B''] = Inr (demo_pem ''A'' @ demo_pem ''B'')"
    by (simp add: pem_bundle_def demo_load) (simp add: demo_ca_def ca_certificate_def)
  have r: "read_certificate_bundle demo_issuer p (fs'(p \<mapsto> File (demo_pem ''A'' @ demo_pem ''B''))) = Inr [demo_ca ''A'', demo_ca ''B'']" for p fs'
    by (simp add: read_certificate_bundle_def require_existing_file_def is_file_def read_bytes_def demo_pem_blocks demo_load)
  show ?thesis
    unfolding stage_root_ca_rotation_def Let_def
    by (simp add: bind_checked demo_load assms demo_bundle demo_bundle_B demo_is_ca require_output_available_def)
       (simp add: bind_io_def return_io_def checked_def m parent_def b write_bytes_def k r)
qed

lemma demo_finalizes:
  assumes "fs [''etc''] = Some Dir" "\<not> blocked fs [''etc'']" "fs [''etc'', ''t.pem''] = Some (File old)"
    and "fs [''etc'', ''b.crt''] = Some (File (demo_pem ''B''))"
  shows "\<exists>fs'. finalize_root_ca_rotation demo_issuer ''b.crt'' ''t.pem'' True fs = (Inr 1, fs')"
proof -
  obtain fs1 where m: "mkdirs [''etc''] fs = (Inr (), fs1)" using assms(2) by (simp add: mkdirs_def)
  have k: "fs1 [''etc''] = Some Dir" "fs1 [''etc'', ''t.pem''] = Some (File old)"
    using m assms(2,3) by (auto simp: mkdirs_def is_above_def)
  have b: "pem_bundle demo_issuer [demo_ca ''B''] = Inr (demo_pem ''B'')"
    by (simp add: pem_bundle_def demo_load)
  have o: "require_output_available fs [''etc'', ''t.pem''] True = Inr ()" by (simp add: require_output_available_def assms)
  show ?thesis
    unfolding finalize_root_ca_rotation_def Let_def
    by (simp add: bind_checked demo_load assms demo_bundle_B demo_is_ca o)
       (simp add: bind_io_def return_io_def checked_def m parent_def b write_bytes_def k)
qed

theorem root_rotation_witness:
  "\<exists>fs1 fs2 n m last. stage_root_ca_rotation demo_issuer ''a.crt'' ''b.crt'' ''t.pem'' False demo_issuer_files = (Inr n, fs1)
     \<and> finalize_root_ca_rotation demo_issuer ''b.crt'' ''t.pem'' True fs1 = (Inr m, fs2)
     \<and> read_certificate_bundle demo_issuer [''etc'', ''t.pem''] fs2 = Inr last \<and> set last = {demo_ca ''B''} \<and> distinct last"
proof -
  let ?fs = demo_issuer_files
  let ?fs1 = "(snd (mkdirs [''etc''] ?fs))([''etc'', ''t.pem''] \<mapsto> File (demo_pem ''A'' @ demo_pem ''B''))"
  have fs: "?fs [''etc''] = Some Dir" "\<not> blocked ?fs [''etc'']" "?fs [''etc'', ''t.pem''] = None"
    "?fs [''etc'', ''a.crt''] = Some (File (demo_pem ''A''))" "?fs [''etc'', ''b.crt''] = Some (File (demo_pem ''B''))"
    by (simp_all add: demo_issuer_files_def blocked_def is_file_def upt_rec)
  have s: "stage_root_ca_rotation demo_issuer ''a.crt'' ''b.crt'' ''t.pem'' False ?fs = (Inr 2, ?fs1)"
    by (rule demo_stages [OF fs])
  have "?fs1 [''etc''] = Some Dir" "\<not> blocked ?fs1 [''etc'']" "?fs1 [''etc'', ''b.crt''] = Some (File (demo_pem ''B''))"
    by (simp_all add: mkdirs_get [OF fs(2)] is_above_def fs blocked_def is_file_def upt_rec)
  then obtain fs2 where f: "finalize_root_ca_rotation demo_issuer ''b.crt'' ''t.pem'' True ?fs1 = (Inr 1, fs2)"
    using demo_finalizes [of ?fs1] by auto
  have "read_certificate_bundle demo_issuer (xp_resolve demo_issuer ''a.crt'') ?fs = Inr [demo_ca ''A'']"
    "read_certificate_bundle demo_issuer (xp_resolve demo_issuer ''b.crt'') ?fs = Inr [demo_ca ''B'']"
    "xp_resolve demo_issuer ''b.crt'' \<noteq> xp_resolve demo_issuer ''t.pem''"
    "pem_ok demo_issuer (set [demo_ca ''A''] \<union> set [demo_ca ''B''])"
    using fs demo_pem_ok by (simp_all add: demo_load demo_bundle demo_bundle_B insert_commute)
  note root_rotation [OF s f this]
  with s f show ?thesis by (auto simp: demo_load)
qed

end
