(* ===== verification/Launch.thy ===== *)
theory Launch
  imports Lifecycle Signing
begin

text \<open>
  The start-up of the gateway: \<open>__main__.py\<close>, the constructor of \<open>GatewayService\<close> and the
  signing key of \<open>DeviceProvisioningAuthority\<close>, on the file system of \<open>Signing\<close>. How a path
  text splits into components, the reading and writing of PEM keys, and the TLS context
  uvicorn makes are arguments.
\<close>

section \<open>The provisioning key\<close>

definition provisioning_key_path :: "(string \<Rightarrow> path) \<Rightarrow> config \<Rightarrow> signing_exn + path" where
  \<comment> \<open>\<open>with_name\<close> raises on a path without a name\<close>
  "provisioning_key_path parts c = (case cf_signing_key c of
       Some p \<Rightarrow> Inr (parts p)
     | None \<Rightarrow> if parts (cf_database c) = [] then Inl SigningValueError
         else Inr (parent (parts (cf_database c)) @ [''device_provisioning.key'']))"

record key_codec =
  kc_load :: "string \<Rightarrow> private_key option"
  kc_pem :: "private_key \<Rightarrow> string"

definition load_key :: "key_codec \<Rightarrow> path \<Rightarrow> files \<Rightarrow> signing_exn + private_key" where
  "load_key kc p fs = (case fs p of
       Some (File b) \<Rightarrow> (case kc_load kc b of
           None \<Rightarrow> Inl SigningValueError
         | Some k \<Rightarrow> if \<not> pk_p256 k then Inl SigningValueError else Inr k)
     | _ \<Rightarrow> Inl OSError)"

definition load_or_create_key :: "key_codec \<Rightarrow> private_key \<Rightarrow> path \<Rightarrow> private_key io" where
  \<comment> \<open>\<open>fresh\<close> is the key a call of \<open>generate_private_key\<close> makes\<close>
  "load_or_create_key kc fresh p = bind_io (mkdirs (parent p)) (\<lambda>_ fs.
     if fs p \<noteq> None then checked (load_key kc p) fs
     else bind_io (write_bytes p (kc_pem kc fresh)) (\<lambda>_. return_io fresh) fs)"

section \<open>The service\<close>

record init_readings =
  in_isdigit :: "nat \<Rightarrow> bool"
  in_text :: "string \<Rightarrow> pytext"
  in_storage_rows :: storage
  in_stamp :: string
  in_draws :: "nat \<Rightarrow> pytext"
  in_clock :: rat
  in_parts :: "string \<Rightarrow> path"
  in_codec :: key_codec
  in_fresh :: private_key

definition gateway_service :: "init_readings \<Rightarrow> config \<Rightarrow> files \<Rightarrow> (service \<times> private_key) option \<times> files" where
  \<comment> \<open>\<open>GatewayService.__init__\<close>; the storage is what the database holds when it is opened\<close>
  "gateway_service rd c fs =
     (case new_sessions (in_isdigit rd) (map_option (in_text rd) (cf_initial_code c)) (cf_ttl c) (in_draws rd) (in_clock rd) of
       Inl x \<Rightarrow> (None, fs)
     | Inr ss \<Rightarrow> (case new_registry (in_stamp rd) (in_storage_rows rd) default_drivers of
         Inl x \<Rightarrow> (None, fs)
       | Inr rg \<Rightarrow> (case provisioning_key_path (in_parts rd) c of
           Inl x \<Rightarrow> (None, fs)
         | Inr p \<Rightarrow> (case load_or_create_key (in_codec rd) (in_fresh rd) p fs of
             (Inl x, fs') \<Rightarrow> (None, fs')
           | (Inr key, fs') \<Rightarrow> (Some (new_service ss rg, key), fs')))))"

section \<open>The servers\<close>

record server_tls =
  st_cert :: string
  st_key :: string
  st_minimum :: tls_version
  st_ciphers :: string
  st_compression :: bool

record listener =
  li_host :: string
  li_port :: int
  li_tls :: "server_tls option"
  li_ws_max :: "int option"
  li_server_header :: bool

definition business_server_config :: "(string \<Rightarrow> string \<Rightarrow> (tls_version \<times> bool) option option) \<Rightarrow> config \<Rightarrow> py_exc + listener" where
  \<comment> \<open>\<open>load\<close> is \<open>server_config.load()\<close>: \<open>None\<close> if the certificate chain does not load, else the
     context, if any, with its lowest version and whether it compresses\<close>
  "business_server_config load c = (case load (cf_tls_cert c) (cf_tls_key c) of
       None \<Rightarrow> Inl ValueError
     | Some None \<Rightarrow> Inl RuntimeError
     | Some (Some (minimum, compression)) \<Rightarrow>
         (let context = \<lparr>st_cert = cf_tls_cert c, st_key = cf_tls_key c, st_minimum = minimum,
                st_ciphers = ''ECDHE+AESGCM:ECDHE+CHACHA20'', st_compression = compression\<rparr>
          in Inr \<lparr>li_host = cf_host c, li_port = cf_port c,
               li_tls = Some (context\<lparr>st_minimum := TLSv1_2, st_compression := False\<rparr>),
               li_ws_max = Some (cf_max_message c), li_server_header = False\<rparr>))"

definition admin_server_config :: "config \<Rightarrow> listener" where
  "admin_server_config c = \<lparr>li_host = ''127.0.0.1'', li_port = cf_admin_port c, li_tls = None, li_ws_max = None, li_server_header = True\<rparr>"

datatype launch = Failed | Exited string | Serving "listener list" config service private_key

definition run_gateway ::
  "(string \<Rightarrow> string \<Rightarrow> (tls_version \<times> bool) option option) \<Rightarrow> init_readings \<Rightarrow> (string \<Rightarrow> int option) \<Rightarrow> (string \<Rightarrow> rat option)
   \<Rightarrow> string \<Rightarrow> (string \<Rightarrow> string option) \<Rightarrow> files \<Rightarrow> launch \<times> files" where
  \<comment> \<open>\<open>run\<close> up to \<open>asyncio.gather\<close>; \<open>Failed\<close> is an exception that ends the process\<close>
  "run_gateway load rd to_int to_float token env fs =
     (let exists = \<lambda>p. is_file fs (in_parts rd p) in
      case from_env to_int to_float token env of
        None \<Rightarrow> (Failed, fs)
      | Some c \<Rightarrow> (case validate_config exists c of
          Inl x \<Rightarrow> (Failed, fs)
        | Inr _ \<Rightarrow>
            if \<not> exists (cf_tls_cert c) \<or> \<not> exists (cf_tls_key c) then (Exited ''TLS certificate/key missing'', fs)
            else (case gateway_service rd c fs of
                (None, fs') \<Rightarrow> (Failed, fs')
              | (Some (sv, key), fs') \<Rightarrow> (case business_server_config load c of
                  Inl x \<Rightarrow> (Failed, fs')
                | Inr business \<Rightarrow> (Serving [business, admin_server_config c] c sv key, fs')))))"

section \<open>Properties\<close>

lemma load_key_Inr: "load_key kc p fs = Inr k \<longleftrightarrow> (\<exists>b. fs p = Some (File b) \<and> kc_load kc b = Some k \<and> pk_p256 k)"
  by (auto simp: load_key_def split: option.split node.split)

lemma load_or_create_Inr:
  assumes "load_or_create_key kc fresh p fs = (Inr k, fs')" "kc_load kc (kc_pem kc fresh) = Some fresh" "pk_p256 fresh" "p \<noteq> []"
  shows "(\<exists>b. fs' p = Some (File b) \<and> kc_load kc b = Some k \<and> pk_p256 k)
    \<and> (\<forall>q. is_above q (parent p) \<longrightarrow> fs' q = Some Dir)
    \<and> (fs p = None \<longrightarrow> k = fresh) \<and> (\<forall>q. q \<noteq> p \<longrightarrow> \<not> is_above q (parent p) \<longrightarrow> fs' q = fs q)"
proof -
  have np: "\<not> is_above p (parent p)"
    using above_parent [of p p] assms(4) by (cases p) auto
  from assms(1) have nb: "\<not> blocked fs (parent p)"
    by (auto simp: load_or_create_key_def bind_Inr mkdirs_def split: if_split_asm)
  let ?m = "snd (mkdirs (parent p) fs)"
  have m: "?m q = (if is_above q (parent p) then Some Dir else fs q)" for q using mkdirs_get [OF nb] .
  have step: "(if ?m p \<noteq> None then checked (load_key kc p) ?m else bind_io (write_bytes p (kc_pem kc fresh)) (\<lambda>_. return_io fresh) ?m) = (Inr k, fs')"
    using assms(1) nb by (simp add: load_or_create_key_def bind_mkdirs)
  show ?thesis
  proof (cases "fs p = None")
    case True
    with step m np have "k = fresh" "fs' = ?m(p \<mapsto> File (kc_pem kc fresh))"
      by (auto simp: bind_Inr return_Inr write_Inr)
    with assms(2,3) m np show ?thesis by auto
  next
    case False
    with step m np have "load_key kc p ?m = Inr k" "fs' = ?m" by (auto simp: checked_Inr)
    with m np False show ?thesis by (auto simp: load_key_Inr)
  qed
qed

text \<open>C29: the gateway keeps its signing key. Once a start has loaded or created the key, every
later start reads back the same key and leaves the key file as it is, whatever else has
happened to the file system, unless the file itself or a folder above it was written to: so
a registration certificate issued before a restart is checked against the same key after it.\<close>

theorem signing_key_survives:
  assumes "load_or_create_key kc fresh p fs = (Inr k, fs1)" "p \<noteq> []"
    and "kc_load kc (kc_pem kc fresh) = Some fresh" "pk_p256 fresh"
    and "unchanged ps fs1 fs2" "\<forall>q \<in> ps. \<not> is_above q p"
  shows "\<exists>fs3. load_or_create_key kc fresh' p fs2 = (Inr k, fs3) \<and> fs3 p = fs1 p \<and> unchanged {} fs2 fs3"
proof -
  from load_or_create_Inr [OF assms(1,3,4,2)] obtain b where
    b: "fs1 p = Some (File b)" "kc_load kc b = Some k" "pk_p256 k" and d: "\<forall>q. is_above q (parent p) \<longrightarrow> fs1 q = Some Dir"
    by blast
  have up: "is_above q (parent p) \<Longrightarrow> is_above q p" for q
    using above_parent [of q p] by (auto simp: is_above_def parent_def butlast_conv_take take_all)
  have self: "is_above p p" by (simp add: is_above_def)
  have keep: "fs2 q = fs1 q" if "is_above q p" "fs1 q \<noteq> None" for q
    using assms(5,6) that by (auto simp: unchanged_def)
  have d2: "fs2 q = Some Dir" if "is_above q (parent p)" for q using keep [OF up [OF that]] d that by simp
  have p2: "fs2 p = Some (File b)" using keep [OF self] b(1) by simp
  have nb: "\<not> blocked fs2 (parent p)"
  proof
    assume "blocked fs2 (parent p)"
    then obtain n where "is_file fs2 (take n (parent p))" by (auto simp: blocked_def list_ex_iff simp del: upt_Suc)
    moreover have "is_above (take n (parent p)) (parent p)" by (simp add: is_above_def min_def)
    ultimately show False using d2 by (simp add: is_file_def)
  qed
  let ?m = "snd (mkdirs (parent p) fs2)"
  have m: "?m = fs2" using mkdirs_get [OF nb] d2 by (auto intro!: ext)
  have "load_or_create_key kc fresh' p fs2 = (Inr k, fs2)"
    using nb m p2 b(2,3) by (auto simp: load_or_create_key_def bind_io_def mkdirs_def checked_def load_key_Inr)
  with p2 b(1) show ?thesis by simp
qed

definition demo_key :: "string \<Rightarrow> private_key" where
  "demo_key n = \<lparr>pk_public = n, pk_p256 = True\<rparr>"

definition demo_codec :: key_codec where
  "demo_codec = \<lparr>kc_load = (\<lambda>b. Some (demo_key b)), kc_pem = pk_public\<rparr>"

theorem signing_key_survives_witness:
  "\<exists>fs1 fs3. load_or_create_key demo_codec (demo_key ''A'') [''data'', ''k''] Map.empty = (Inr (demo_key ''A''), fs1)
    \<and> load_or_create_key demo_codec (demo_key ''B'') [''data'', ''k''] (fs1([''data'', ''db''] \<mapsto> File [])) = (Inr (demo_key ''A''), fs3)"
proof -
  let ?p = "[''data'', ''k'']" and ?q = "[''data'', ''db'']"
  have nb: "\<not> blocked Map.empty [''data'']"
    by (simp add: blocked_def is_file_def list_ex_iff)
  then have m: "mkdirs [''data''] Map.empty = (Inr (), \<lambda>q. if is_above q [''data''] then Some Dir else None)"
    by (simp add: mkdirs_def)
  have pp: "parent ?p = [''data'']" by (simp add: parent_def)
  let ?fs1 = "(\<lambda>q. if is_above q [''data''] then Some Dir else None)(?p \<mapsto> File ''A'')"
  have one: "load_or_create_key demo_codec (demo_key ''A'') ?p Map.empty = (Inr (demo_key ''A''), ?fs1)"
    by (simp add: load_or_create_key_def bind_mkdirs pp m nb bind_io_def write_bytes_def return_io_def is_above_def demo_codec_def demo_key_def)
  have u: "unchanged {?q} ?fs1 (?fs1(?q \<mapsto> File []))" by (simp add: unchanged_def)
  have "\<exists>fs3. load_or_create_key demo_codec (demo_key ''B'') ?p (?fs1(?q \<mapsto> File [])) = (Inr (demo_key ''A''), fs3)
     \<and> fs3 ?p = ?fs1 ?p \<and> unchanged {} (?fs1(?q \<mapsto> File [])) fs3"
    by (rule signing_key_survives [OF one _ _ _ u]) (simp_all add: demo_codec_def demo_key_def is_above_def)
  with one show ?thesis by blast
qed

lemma run_gateway_Serving:
  assumes "run_gateway load rd to_int to_float token env fs = (Serving ls c sv key, fs')"
  shows "from_env to_int to_float token env = Some c \<and> validate_config (\<lambda>p. is_file fs (in_parts rd p)) c = Inr ()
    \<and> is_file fs (in_parts rd (cf_tls_cert c)) \<and> is_file fs (in_parts rd (cf_tls_key c))
    \<and> gateway_service rd c fs = (Some (sv, key), fs')
    \<and> (\<exists>business. business_server_config load c = Inr business \<and> ls = [business, admin_server_config c])"
  using assms by (auto simp: run_gateway_def Let_def split: option.split_asm sum.split_asm if_split_asm prod.split_asm)

text \<open>C25: no start of the gateway opens a plaintext port to the network. If a start comes to
serving, then every listener that is not bound to the loopback address speaks TLS 1.2 or
later without compression and with the two configured files, which exist, and bounds its
messages by one mebibyte; the configuration is validated, its administration address is the
loopback address, and the service starts with no session, an empty replay window and no
sink, so that the bridge's life cycle starts from a fresh process.\<close>

theorem no_plaintext_port:
  assumes "run_gateway load rd to_int to_float token env fs = (Serving ls c sv key, fs')"
  shows "(\<forall>l \<in> set ls. li_host l = ''127.0.0.1'' \<or>
        (\<exists>t n. li_tls l = Some t \<and> st_minimum t \<in> {TLSv1_2, TLSv1_3} \<and> \<not> st_compression t
          \<and> is_file fs (in_parts rd (st_cert t)) \<and> is_file fs (in_parts rd (st_key t))
          \<and> li_ws_max l = Some n \<and> n \<le> 1048576))
    \<and> cf_admin_host c = ''127.0.0.1''
    \<and> se_sessions (sv_sessions sv) = [] \<and> sv_results sv = [] \<and> sv_nonces sv = [] \<and> process_runs c (new_process sv)"
proof -
  from run_gateway_Serving [OF assms] obtain business where
    e: "from_env to_int to_float token env = Some c" and v: "validate_config (\<lambda>p. is_file fs (in_parts rd p)) c = Inr ()"
    and f: "is_file fs (in_parts rd (cf_tls_cert c))" "is_file fs (in_parts rd (cf_tls_key c))"
    and g: "gateway_service rd c fs = (Some (sv, key), fs')"
    and b: "business_server_config load c = Inr business" "ls = [business, admin_server_config c]" by blast
  have "cf_admin_host c = ''127.0.0.1''"
    using e by (auto simp: from_env_def split: option.split_asm)
  moreover from g obtain ss rg where s: "sv = new_service ss rg" "se_sessions ss = []"
    by (auto simp: gateway_service_def new_sessions_def split: sum.split_asm if_split_asm prod.split_asm option.split_asm)
  moreover have "process_runs c (new_process sv)"
    using s by (intro process_runs.fresh) (simp add: new_service_def)
  moreover have "cf_max_message c \<le> 1048576"
    using v by (auto simp: validate_config_def split: if_split_asm)
  ultimately show ?thesis using b f
    by (auto simp: business_server_config_def admin_server_config_def new_service_def split: option.split_asm)
qed

definition demo_host :: files where
  "demo_host = [[] \<mapsto> Dir, [''certs/gateway.crt''] \<mapsto> File ''C'', [''certs/gateway.key''] \<mapsto> File ''K'']"

definition demo_init :: init_readings where
  "demo_init = \<lparr>in_isdigit = (\<lambda>_. True), in_text = map of_char, in_storage_rows = new_storage, in_stamp = [],
     in_draws = (\<lambda>_. []), in_clock = 0, in_parts = (\<lambda>s. [s]), in_codec = demo_codec, in_fresh = demo_key ''A''\<rparr>"

definition demo_env :: "string \<Rightarrow> string option" where
  "demo_env k = (if k = ''DEVCONTROL_INITIAL_PAIRING_CODE'' then Some ''246810'' else None)"

lemma demo_service_starts: "\<exists>sv key fs'. gateway_service demo_init c demo_host = (Some (sv, key), fs')"
  if "cf_initial_code c = Some ''246810''" "cf_ttl c = 2000" "cf_signing_key c = None" "cf_database c = ''db''"
proof -
  obtain rg where rg: "new_registry [] new_storage default_drivers = Inr rg"
    using default_registry [of new_storage "[]"] by auto
  have k: "provisioning_key_path (in_parts demo_init) c = Inr [''device_provisioning.key'']"
    using that by (simp add: provisioning_key_path_def demo_init_def parent_def)
  have m: "\<not> blocked demo_host []" by (simp add: blocked_def is_file_def demo_host_def)
  have s: "snd (mkdirs [] demo_host) = demo_host"
    using mkdirs_get [OF m] by (auto simp: is_above_def demo_host_def)
  have "\<exists>fs'. load_or_create_key (in_codec demo_init) (in_fresh demo_init) [''device_provisioning.key''] demo_host = (Inr (demo_key ''A''), fs')"
    by (simp add: load_or_create_key_def bind_mkdirs parent_def m s) (simp add: demo_init_def bind_io_def write_bytes_def return_io_def demo_host_def parent_def)
  then obtain fs' where l: "load_or_create_key (in_codec demo_init) (in_fresh demo_init) [''device_provisioning.key''] demo_host = (Inr (demo_key ''A''), fs')" ..
  show ?thesis
    using that rg k l by (simp add: gateway_service_def) (simp add: demo_init_def new_sessions_def validate_pairing_code_def)
qed

theorem no_plaintext_port_witness:
  "\<exists>ls c sv key fs'. run_gateway (\<lambda>_ _. Some (Some (TLSv1_0, True))) demo_init (\<lambda>_. Some 2000) (\<lambda>_. Some 2) ''t'' (demo_env(''DEVCONTROL_DATABASE'' := Some ''db'')) demo_host
       = (Serving ls c sv key, fs') \<and> length ls = 2 \<and> process_runs c (new_process sv)"
proof -
  let ?env = "demo_env(''DEVCONTROL_DATABASE'' := Some ''db'')"
  obtain c where c: "from_env (\<lambda>_. Some 2000) (\<lambda>_. Some 2) ''t'' ?env = Some c" "cf_initial_code c = Some ''246810''" "cf_ttl c = 2000"
      "cf_signing_key c = None" "cf_database c = ''db''" "cf_max_message c = 2000" "\<not> cf_mqtt_enabled c"
      "cf_tls_cert c = ''certs/gateway.crt''" "cf_tls_key c = ''certs/gateway.key''"
    by (simp add: from_env_def getenv_def demo_env_def optional_path_def lower_ascii_def)
  obtain sv key fs' where g: "gateway_service demo_init c demo_host = (Some (sv, key), fs')"
    using demo_service_starts [OF c(2-5)] by blast
  have "validate_config (\<lambda>p. is_file demo_host (in_parts demo_init p)) c = Inr ()"
    using c by (simp add: validate_config_def)
  moreover have "is_file demo_host (in_parts demo_init (cf_tls_cert c))" "is_file demo_host (in_parts demo_init (cf_tls_key c))"
    using c by (simp_all add: is_file_def demo_host_def demo_init_def)
  ultimately obtain ls where r: "run_gateway (\<lambda>_ _. Some (Some (TLSv1_0, True))) demo_init (\<lambda>_. Some 2000) (\<lambda>_. Some 2) ''t'' ?env demo_host
      = (Serving ls c sv key, fs')" "length ls = 2"
    using c(1) g by (simp add: run_gateway_def business_server_config_def)
  moreover have "process_runs c (new_process sv)" using no_plaintext_port [OF r(1)] by blast
  ultimately show ?thesis by blast
qed

end
