(* ===== verification/Console.thy ===== *)
theory Console
  imports Signing
begin

text \<open>
  What stands around the certificate issuer: the command line of \<open>signing_admin/cli.py\<close>, the
  local console of \<open>signing_admin/app.py\<close> with its downloads, and
  \<open>scripts/generate_gateway_csr.py\<close>, with which a gateway owner makes a key and a request.
  All of them work on the file system of \<open>Signing\<close>; a path that a program takes as a \<open>Path\<close>
  is the path it stands for.
\<close>

section \<open>The command line\<close>

definition password_from_environment :: "(string \<Rightarrow> string option) \<Rightarrow> string \<Rightarrow> signing_exn + string" where
  "password_from_environment env name = (case env name of
       None \<Rightarrow> Inl (Refused ''is not set or is empty'')
     | Some w \<Rightarrow> if w = [] then Inl (Refused ''is not set or is empty'') else Inr w)"

definition create_project_ca ::
  "x509 \<Rightarrow> issue_readings \<Rightarrow> path \<Rightarrow> path \<Rightarrow> pytext \<Rightarrow> int \<Rightarrow> string \<Rightarrow> bool \<Rightarrow> certificate io" where
  \<comment> \<open>the answer is the certificate, whose file the program names\<close>
  "create_project_ca x rd certificate_path private_key_path common_name valid_days password overwrite =
     bind_io (checked (\<lambda>fs. refuse_if (\<not> (365 \<le> valid_days \<and> valid_days \<le> 7300)) ''--valid-days must be between 365 and 7300'')) (\<lambda>_.
     bind_io (checked (\<lambda>fs. refuse_if ((fs certificate_path \<noteq> None \<or> fs private_key_path \<noteq> None) \<and> \<not> overwrite) ''refusing to overwrite existing file(s)'')) (\<lambda>_.
     bind_io (mkdirs (parent certificate_path)) (\<lambda>_.
     bind_io (mkdirs (parent private_key_path)) (\<lambda>_.
     bind_io (checked (\<lambda>fs. case xp_name x common_name of None \<Rightarrow> Inl SigningValueError | Some name \<Rightarrow> Inr name)) (\<lambda>name.
     let c = ca_certificate rd name valid_days in
     bind_io (write_bytes certificate_path (xp_pem x c)) (\<lambda>_.
     bind_io (checked (\<lambda>fs. case xp_key_pem x (ir_key rd) password of None \<Rightarrow> Inl SigningValueError | Some b \<Rightarrow> Inr b)) (\<lambda>key_pem.
     bind_io (write_bytes private_key_path key_pem) (\<lambda>_.
     return_io c))))))))"

datatype cli_command =
    CreateCommand path path pytext int string bool
  | SignCommand string string string string string int bool

datatype cli_answer = CreatedCA certificate | IssuedCertificate path certificate

definition cli_main :: "x509 \<Rightarrow> issue_readings \<Rightarrow> (string \<Rightarrow> string option) \<Rightarrow> cli_command \<Rightarrow> cli_answer io" where
  "cli_main x rd env cmd = (case cmd of
       CreateCommand cert key name valid_days variable force \<Rightarrow>
         bind_io (checked (\<lambda>_. password_from_environment env variable)) (\<lambda>password.
         bind_io (create_project_ca x rd cert key name valid_days password force) (\<lambda>c. return_io (CreatedCA c)))
     | SignCommand csr_path ca_cert ca_key variable output valid_days force \<Rightarrow>
         bind_io (checked (\<lambda>_. password_from_environment env variable)) (\<lambda>password.
         bind_io (sign_gateway_csr x rd csr_path ca_cert ca_key password output valid_days force)
           (\<lambda>(p, c). return_io (IssuedCertificate p c))))"

definition exit_code :: "signing_exn + 'a \<Rightarrow> int" where
  \<comment> \<open>\<open>parser.error\<close> exits with 2, an exception nobody catches with 1\<close>
  "exit_code r = (case r of Inl (Refused m) \<Rightarrow> 2 | Inl _ \<Rightarrow> 1 | Inr _ \<Rightarrow> 0)"

section \<open>The request of a gateway\<close>

record csr_tools =
  ct_dns_ok :: "string \<Rightarrow> bool"
  ct_address :: "string \<Rightarrow> string option"
  ct_name :: "string \<Rightarrow> string option"
  ct_csr_pem :: "csr \<Rightarrow> string"
  ct_key_pem :: "private_key \<Rightarrow> string"

definition first_occurrences :: "'a list \<Rightarrow> 'a list" where
  \<comment> \<open>\<open>list(dict.fromkeys(xs))\<close>\<close>
  "first_occurrences xs = rev (remdups (rev xs))"

fun addresses :: "csr_tools \<Rightarrow> string list \<Rightarrow> general_name list option" where
  "addresses ct [] = Some []"
| "addresses ct (v # vs) = (case (ct_address ct v, addresses ct vs) of
       (Some n, Some ns) \<Rightarrow> Some (IPAddress n # ns) | _ \<Rightarrow> None)"

definition san_entries :: "csr_tools \<Rightarrow> string list \<Rightarrow> string list \<Rightarrow> signing_exn + general_name list" where
  "san_entries ct hosts ips =
     (if \<not> list_all (ct_dns_ok ct) hosts then Inl (Refused ''invalid IP address'')
      else case addresses ct ips of None \<Rightarrow> Inl (Refused ''invalid IP address'') | Some ns \<Rightarrow> Inr (map DNSName hosts @ ns))"

definition existing_path_guard :: "path list \<Rightarrow> bool \<Rightarrow> files \<Rightarrow> signing_exn + unit" where
  "existing_path_guard ps force fs =
     (if force then Inr ()
      else refuse_if (filter (\<lambda>p. fs p \<noteq> None) ps \<noteq> []) ''Refusing to overwrite existing file(s)'')"

definition gateway_request :: "private_key \<Rightarrow> string \<Rightarrow> general_name list \<Rightarrow> csr" where
  \<comment> \<open>its extensions beside the names are ignored by the issuer\<close>
  "gateway_request key name san =
     \<lparr>cq_subject = name, cq_public = pk_public key, cq_p256 = pk_p256 key, cq_valid = True, cq_sans = Some san\<rparr>"

definition generate_gateway_csr ::
  "csr_tools \<Rightarrow> private_key \<Rightarrow> string list \<Rightarrow> string list \<Rightarrow> path \<Rightarrow> path \<Rightarrow> bool \<Rightarrow> unit io" where
  \<comment> \<open>\<open>key\<close> is the generated key\<close>
  "generate_gateway_csr ct key host ip key_path csr_path force =
     (let hosts = first_occurrences host; ips = first_occurrences ip in
      bind_io (checked (\<lambda>fs. refuse_if (hosts = [] \<and> ips = []) ''at least one --host or --ip is required'')) (\<lambda>_.
      bind_io (checked (\<lambda>fs. san_entries ct hosts ips)) (\<lambda>san.
      bind_io (checked (existing_path_guard [key_path, csr_path] force)) (\<lambda>_.
      bind_io (mkdirs (parent key_path)) (\<lambda>_.
      bind_io (mkdirs (parent csr_path)) (\<lambda>_.
      bind_io (checked (\<lambda>fs. case ct_name ct (if hosts \<noteq> [] then hd hosts else hd ips) of None \<Rightarrow> Inl SigningValueError | Some n \<Rightarrow> Inr n)) (\<lambda>name.
      bind_io (write_bytes key_path (ct_key_pem ct key)) (\<lambda>_.
      bind_io (write_bytes csr_path (ct_csr_pem ct (gateway_request key name san))) (\<lambda>_.
      return_io ())))))))))"

section \<open>The console\<close>

record console =
  co_files :: files
  co_downloads :: "(string, path) dict"

datatype console_request =
    Health
  | Initialize string string pytext int string bool
  | Sign string string string string string int bool
  | Download string
  | Stage string string string bool
  | Finalize string string bool
  | Inspect string

datatype console_answer =
    Healthy | CADetails certificate_details | Issued certificate_details string | FileBody string
  | TrustCount nat | Certificates "certificate_details list"

datatype console_reply = Answer console_answer | BadRequest string | NotFound | Unprocessable | ServerError

definition min_length_ok :: "console_request \<Rightarrow> bool" where
  \<comment> \<open>the fields with \<open>min_length=1\<close>\<close>
  "min_length_ok request = (case request of
       Initialize r a n v w ov \<Rightarrow> r \<noteq> [] \<and> a \<noteq> [] \<and> w \<noteq> []
     | Sign c a k w p v ov \<Rightarrow> c \<noteq> [] \<and> a \<noteq> [] \<and> k \<noteq> [] \<and> w \<noteq> [] \<and> p \<noteq> []
     | Stage e n a ov \<Rightarrow> e \<noteq> [] \<and> n \<noteq> [] \<and> a \<noteq> []
     | Finalize n a ov \<Rightarrow> n \<noteq> [] \<and> a \<noteq> []
     | Inspect p \<Rightarrow> p \<noteq> []
     | _ \<Rightarrow> True)"

definition respond :: "('a \<Rightarrow> console_answer) \<Rightarrow> 'a io \<Rightarrow> console \<Rightarrow> console_reply \<times> console" where
  \<comment> \<open>with \<open>signing_error_handler\<close>\<close>
  "respond answer m co = (case m (co_files co) of
       (Inr y, fs) \<Rightarrow> (Answer (answer y), co\<lparr>co_files := fs\<rparr>)
     | (Inl (Refused msg), fs) \<Rightarrow> (BadRequest msg, co\<lparr>co_files := fs\<rparr>)
     | (Inl _, fs) \<Rightarrow> (ServerError, co\<lparr>co_files := fs\<rparr>))"

definition sign_route ::
  "x509 \<Rightarrow> issue_readings \<Rightarrow> string \<Rightarrow> string \<Rightarrow> string \<Rightarrow> string \<Rightarrow> string \<Rightarrow> string \<Rightarrow> int \<Rightarrow> bool \<Rightarrow> console \<Rightarrow> console_reply \<times> console" where
  "sign_route x rd download_id csr_path ca_cert ca_key password output valid_days overwrite co =
     (case sign_gateway_csr x rd csr_path ca_cert ca_key password output valid_days overwrite (co_files co) of
        (Inr (p, c), fs) \<Rightarrow> (Answer (Issued (details p c) (''/api/v1/downloads/'' @ download_id)),
           co\<lparr>co_files := fs, co_downloads := dict_set download_id p (co_downloads co)\<rparr>)
      | (Inl (Refused msg), fs) \<Rightarrow> (BadRequest msg, co\<lparr>co_files := fs\<rparr>)
      | (Inl _, fs) \<Rightarrow> (ServerError, co\<lparr>co_files := fs\<rparr>))"

definition download_route :: "string \<Rightarrow> console \<Rightarrow> console_reply" where
  "download_route download_id co = (case dict_get (co_downloads co) download_id of
       None \<Rightarrow> NotFound
     | Some p \<Rightarrow> if \<not> is_file (co_files co) p then NotFound else Answer (FileBody (read_bytes (co_files co) p)))"

definition console_step :: "x509 \<Rightarrow> path \<Rightarrow> issue_readings \<Rightarrow> string \<Rightarrow> console_request \<Rightarrow> console \<Rightarrow> console_reply \<times> console" where
  \<comment> \<open>\<open>token\<close> is the random id a download would get\<close>
  "console_step x workspace rd token request co =
     (if \<not> min_length_ok request then (Unprocessable, co)
      else case request of
        Health \<Rightarrow> (Answer Healthy, co)
      | Initialize issuer_root app_ca name valid_days password overwrite \<Rightarrow>
          respond CADetails (initialize_project_ca x rd workspace issuer_root app_ca name valid_days password overwrite) co
      | Sign csr_path ca_cert ca_key password output valid_days overwrite \<Rightarrow>
          sign_route x rd token csr_path ca_cert ca_key password output valid_days overwrite co
      | Download i \<Rightarrow> (download_route i co, co)
      | Stage existing new_ca app_ca overwrite \<Rightarrow> respond TrustCount (stage_root_ca_rotation x existing new_ca app_ca overwrite) co
      | Finalize new_ca app_ca overwrite \<Rightarrow> respond TrustCount (finalize_root_ca_rotation x new_ca app_ca overwrite) co
      | Inspect p \<Rightarrow> respond Certificates (inspect_certificate x p) co)"

definition console_hosts :: "string list" where
  "console_hosts = [''127.0.0.1'', ''localhost'', ''::1'']"

definition console_main :: "string \<Rightarrow> files \<Rightarrow> signing_exn + console" where
  \<comment> \<open>\<open>main\<close> and \<open>create_app\<close>, up to the server\<close>
  "console_main host fs = (if host \<notin> set console_hosts then Inl (Refused ''Signing Admin must listen on loopback only'')
     else Inr \<lparr>co_files = fs, co_downloads = []\<rparr>)"

section \<open>Downloads\<close>

definition overwrites :: "console_request \<Rightarrow> bool" where
  "overwrites request = (case request of
       Initialize r a n v w ov \<Rightarrow> ov | Sign c a k w p v ov \<Rightarrow> ov | Stage e n a ov \<Rightarrow> ov | Finalize n a ov \<Rightarrow> ov | _ \<Rightarrow> False)"

type_synonym console_input = "issue_readings \<times> string \<times> console_request"

definition console_run :: "x509 \<Rightarrow> path \<Rightarrow> console_input list \<Rightarrow> console \<Rightarrow> console" where
  "console_run x workspace = fold (\<lambda>(rd, token, request) co. snd (console_step x workspace rd token request co))"

lemma respond_files: "co_files (snd (respond f m co)) = snd (m (co_files co))" "co_downloads (snd (respond f m co)) = co_downloads co"
  by (auto simp: respond_def split: prod.split sum.split signing_exn.split)

lemma inspect_files: "snd (inspect_certificate x p fs) = fs"
  by (simp add: inspect_certificate_def bind_checked return_io_def split: sum.split)

lemma sign_route_files: "co_files (snd (sign_route x rd i q a k w p v ov co)) = snd (sign_gateway_csr x rd q a k w p v ov (co_files co))"
  by (auto simp: sign_route_def split: prod.split sum.split signing_exn.split)

lemma console_keeps:
  assumes "\<not> overwrites request" "co_files co p = Some n"
  shows "co_files (snd (console_step x workspace rd token request co)) p = Some n"
proof -
  have keep: "run_signing x False op (co_files co) p = Some n" for op using assms(2) by (rule signing_keeps)
  show ?thesis
    using assms keep [of "InitializeCA rd workspace r a m v w" for r a m v w] keep [of "SignCSR rd q a k w r v" for q a k w r v]
      keep [of "StageRotation e m a" for e m a] keep [of "FinalizeRotation m a" for m a]
    by (auto simp: console_step_def run_signing_def overwrites_def respond_files inspect_files sign_route_files split: console_request.split)
qed

definition issued :: "x509 \<Rightarrow> console_input list \<Rightarrow> string \<Rightarrow> string \<Rightarrow> bool" where
  \<comment> \<open>\<open>b\<close> is a certificate that one of the requests got under the id \<open>i\<close>\<close>
  "issued x steps i b \<longleftrightarrow> (\<exists>rd q a k w out v fs p c fs'. (rd, i, Sign q a k w out v False) \<in> set steps
     \<and> sign_gateway_csr x rd q a k w out v False fs = (Inr (p, c), fs') \<and> b = xp_pem x c)"

lemma console_downloads:
  assumes "\<forall>(rd, token, request) \<in> set steps. \<not> overwrites request" "co_downloads co = []"
    and "dict_get (co_downloads (console_run x workspace steps co)) i = Some p"
  shows "\<exists>b. co_files (console_run x workspace steps co) p = Some (File b) \<and> issued x steps i b"
  using assms
proof (induction steps arbitrary: i p rule: rev_induct)
  case (snoc s steps)
  obtain rd token request where s: "s = (rd, token, request)" by (cases s)
  let ?co = "console_run x workspace steps co"
  let ?co' = "snd (console_step x workspace rd token request ?co)"
  have run: "console_run x workspace (steps @ [s]) co = ?co'" by (simp add: console_run_def s)
  have no: "\<not> overwrites request" using snoc.prems(1) s by simp
  have more: "issued x steps j b \<Longrightarrow> issued x (steps @ [s]) j b" for j b unfolding issued_def set_append by blast
  show ?case
  proof (cases "dict_get (co_downloads ?co) i = Some p")
    case True
    then obtain b where "co_files ?co p = Some (File b)" "issued x steps i b"
      using snoc.IH [OF _ snoc.prems(2) True] snoc.prems(1) by fastforce
    then show ?thesis using console_keeps [OF no] more unfolding run by blast
  next
    case False
    have "dict_get (co_downloads ?co') i = Some p" using snoc.prems(3) unfolding run .
    then obtain q a k w out v c fs' where r: "request = Sign q a k w out v False" "token = i"
      and sg: "sign_gateway_csr x rd q a k w out v False (co_files ?co) = (Inr (p, c), fs')" and f: "co_files ?co' = fs'"
      using False no
      by (auto simp: console_step_def respond_files sign_route_def overwrites_def dict_simps
          split: console_request.split_asm if_split_asm prod.split_asm sum.split_asm signing_exn.split_asm)
    from sg have "fs' p = Some (File (xp_pem x c))" by (rule sign_success)
    moreover have "issued x (steps @ [s]) i (xp_pem x c)"
      unfolding issued_def using r sg s by fastforce
    ultimately show ?thesis unfolding run f by blast
  qed
qed (simp add: console_run_def)

text \<open>C24: a download is a certificate the console issued. After any sequence of requests
without the overwrite flag, on any paths and with errors at any point, a download id that is
answered with a file gives, byte for byte, a gateway certificate that a signing request of
the sequence got under this id; any other id is not found. No private key and no other file
of the administrator's machine is served.\<close>

theorem download_is_issued:
  assumes "\<forall>(rd, token, request) \<in> set steps. \<not> overwrites request" "console_main host fs = Inr co"
  shows "case download_route i (console_run x workspace steps co) of
      Answer (FileBody b) \<Rightarrow> issued x steps i b
    | NotFound \<Rightarrow> dict_get (co_downloads (console_run x workspace steps co)) i = None
    | _ \<Rightarrow> False"
proof -
  have "co_downloads co = []" using assms(2) by (auto simp: console_main_def split: if_split_asm)
  from console_downloads [OF assms(1) this, of x workspace i] show ?thesis
    by (cases "dict_get (co_downloads (console_run x workspace steps co)) i")
      (auto simp: download_route_def is_file_def read_bytes_def)
qed

definition demo_steps :: "console_input list" where
  "demo_steps = [(demo_readings, ''id1'', Sign ''gw.csr'' ''a.crt'' ''a.key'' ''pw'' ''gw.crt'' 90 False),
     (demo_readings, ''id2'', Inspect ''gw.crt''), (demo_readings, ''id3'', Finalize ''b.crt'' ''gw.crt'' False)]"

theorem download_is_issued_witness:
  "\<exists>co b. console_main ''localhost'' demo_issuer_files = Inr co
    \<and> download_route ''id1'' (console_run demo_issuer [''src''] demo_steps co) = Answer (FileBody b)
    \<and> issued demo_issuer demo_steps ''id1'' b"
proof -
  have main: "console_main ''localhost'' demo_issuer_files = Inr \<lparr>co_files = demo_issuer_files, co_downloads = []\<rparr>"
    by (simp add: console_main_def console_hosts_def)
  obtain co where co: "console_main ''localhost'' demo_issuer_files = Inr co" "co_files co = demo_issuer_files" "co_downloads co = []"
    by (rule that [OF main]) simp_all
  obtain c fs' where s: "sign_gateway_csr demo_issuer demo_readings ''gw.csr'' ''a.crt'' ''a.key'' ''pw'' ''gw.crt'' 90 False demo_issuer_files
     = (Inr ([''etc'', ''gw.crt''], c), fs')" using demo_issuer_signs by blast
  have no: "\<forall>(rd, token, request) \<in> set demo_steps. \<not> overwrites request" by (simp add: demo_steps_def overwrites_def)
  let ?co = "console_run demo_issuer [''src''] demo_steps co"
  have "dict_get (co_downloads ?co) ''id1'' = Some [''etc'', ''gw.crt'']"
    using co s by (simp add: console_run_def demo_steps_def console_step_def min_length_ok_def sign_route_def respond_files dict_simps)
  then have "download_route ''id1'' ?co \<noteq> NotFound \<or> dict_get (co_downloads ?co) ''id1'' \<noteq> None" by simp
  moreover note download_is_issued [OF no co(1), where i = "''id1''" and x = demo_issuer and workspace = "[''src'']"]
  ultimately obtain b where "download_route ''id1'' ?co = Answer (FileBody b)" "issued demo_issuer demo_steps ''id1'' b"
    using \<open>dict_get (co_downloads ?co) ''id1'' = Some [''etc'', ''gw.crt'']\<close>
    by (auto split: console_reply.split_asm console_answer.split_asm)
  with co(1) show ?thesis by blast
qed

section \<open>From the request to the certificate\<close>

lemma create_writes: "writes_only {cert, key} (create_project_ca x rd cert key name valid_days w overwrite)"
  unfolding create_project_ca_def Let_def by (intro writes_intros) auto

lemma create_success:
  assumes "create_project_ca x rd cert key name valid_days w overwrite fs = (Inr c, fs')"
  shows "365 \<le> valid_days \<and> valid_days \<le> 7300 \<and> (\<exists>n. c = ca_certificate rd n valid_days)
    \<and> (\<exists>b. xp_key_pem x (ir_key rd) w = Some b \<and> fs' key = Some (File b))
    \<and> (cert \<noteq> key \<longrightarrow> fs' cert = Some (File (xp_pem x c)))"
  using assms unfolding create_project_ca_def Let_def bind_Inr checked_Inr return_Inr sum_of_option_Inr refuse_if_Inr
  by (elim exE conjE) (auto simp: write_Inr)

lemma generate_writes: "writes_only {key_path, csr_path} (generate_gateway_csr ct key host ip key_path csr_path force)"
  unfolding generate_gateway_csr_def Let_def by (intro writes_intros) auto

lemma generate_success:
  assumes "generate_gateway_csr ct key host ip key_path csr_path force fs = (Inr u, fs')"
  shows "first_occurrences host \<noteq> [] \<or> first_occurrences ip \<noteq> []"
    and "\<exists>san n. san_entries ct (first_occurrences host) (first_occurrences ip) = Inr san
      \<and> fs' csr_path = Some (File (ct_csr_pem ct (gateway_request key n san)))"
    and "\<not> force \<Longrightarrow> fs key_path = None \<and> fs csr_path = None"
  using assms unfolding generate_gateway_csr_def Let_def bind_Inr checked_Inr return_Inr sum_of_option_Inr refuse_if_Inr
    existing_path_guard_def
  by (elim exE conjE; auto simp: write_Inr split: if_split_asm)+

lemma addresses_shape: "addresses ct vs = Some ns \<Longrightarrow> length ns = length vs \<and> (\<forall>s. OtherName s \<notin> set ns)"
  by (induction vs arbitrary: ns) (auto split: option.split_asm)

lemma san_entries_ok:
  assumes "san_entries ct hosts ips = Inr san" "hosts \<noteq> [] \<or> ips \<noteq> []" "length hosts + length ips \<le> 16"
  shows "san \<noteq> [] \<and> length san \<le> 16 \<and> (\<forall>s. OtherName s \<notin> set san)"
proof -
  from assms(1) obtain ns where ns: "addresses ct ips = Some ns" "san = map DNSName hosts @ ns"
    by (auto simp: san_entries_def split: if_split_asm option.split_asm)
  with assms(2,3) addresses_shape [OF ns(1)] show ?thesis by auto
qed

lemma read_one_certificate:
  assumes "fs p = Some (File (xp_pem x c))" "pem_text (xp_pem x c)" "xp_load x (xp_pem x c) = Some c"
  shows "read_certificate_bundle x p fs = Inr [c]"
  using assms pem_blocks_concat [of "[xp_pem x c]"]
  by (simp add: read_certificate_bundle_def require_existing_file_def is_file_def read_bytes_def)

definition tools_agree :: "x509 \<Rightarrow> csr_tools \<Rightarrow> private_key \<Rightarrow> private_key \<Rightarrow> general_name list \<Rightarrow> bool" where
  \<comment> \<open>documented behaviour of \<open>cryptography\<close>: a request that was encoded loads back, and a key
     encrypted under a password is unlocked with it\<close>
  "tools_agree x ct key ca_key san \<longleftrightarrow>
     (\<forall>n. xp_csr x (ct_csr_pem ct (gateway_request key n san)) = Some (gateway_request key n san))
     \<and> (\<forall>w b. xp_key_pem x ca_key w = Some b \<longrightarrow> xp_key x b w = Some ca_key)"

text \<open>C15: the three programs of a certificate's way fit together. Take a project CA from the
command line, then a key and a request that a gateway owner generates, without force, for
at most sixteen names, and a free output path: with the password of the CA, every validity
from 1 to 397 days and at any time before the CA expires, signing the request succeeds. The
certificate names the generated key and exactly the hosts and addresses asked for, in their
order and without repetition, and is signed by the CA; it is in the output file, and
nothing else of the file system has changed but for new folders.\<close>

theorem issuance_works:
  assumes "san_entries ct (first_occurrences host) (first_occurrences ip) = Inr san" "tools_agree x ct key (ir_key rd0) san" "pem_ok x {ca}" "pk_p256 key" "pk_p256 (ir_key rd0)"
    and create: "create_project_ca x rd0 ca_path ca_key_path name ca_days password overwrite fs0 = (Inr ca, fs1)" "ca_path \<noteq> ca_key_path" "password \<noteq> []"
    and generate: "generate_gateway_csr ct key host ip key_path csr_path False fs1 = (Inr (), fs2)"
    and short: "length (first_occurrences host) + length (first_occurrences ip) \<le> 16"
    and paths: "xp_resolve x cas = ca_path" "xp_resolve x cak = ca_key_path" "xp_resolve x req = csr_path" "xp_resolve x outs = out"
    and free: "fs2 out = None" "out \<noteq> []" "\<not> blocked fs2 (parent out)"
    and time: "1 \<le> valid_days" "valid_days \<le> 397" "ir_now rd < ce_not_after ca"
  shows "\<exists>c fs3. sign_gateway_csr x rd req cas cak password outs valid_days False fs2 = (Inr (out, c), fs3)
    \<and> ce_public c = pk_public key \<and> ce_signed_by c = ce_public ca
    \<and> ce_sans c = Some san \<and> fs3 out = Some (File (xp_pem x c)) \<and> unchanged {out} fs2 fs3"
proof -
  from create_success [OF create(1)] create(2) obtain n b where
    ca: "ca = ca_certificate rd0 n ca_days" "xp_key_pem x (ir_key rd0) password = Some b"
      "fs1 ca_key_path = Some (File b)" "fs1 ca_path = Some (File (xp_pem x ca))" by blast
  from generate_success(2) [OF generate] obtain m where
    csr: "fs2 csr_path = Some (File (ct_csr_pem ct (gateway_request key m san)))" (is "_ = Some (File (ct_csr_pem ct ?q))")
    using assms(1) by auto
  have "unchanged {key_path, csr_path} fs1 fs2"
    using generate_writes [of key_path csr_path ct key host ip False] generate unfolding writes_only_def by (metis snd_conv)
  moreover have new: "fs1 key_path = None" "fs1 csr_path = None" using generate_success(3) [OF generate] by simp_all
  ultimately have "fs2 p = Some n" if "fs1 p = Some n" for p n
    using that unfolding unchanged_def by (metis insert_iff empty_iff option.distinct(1))
  then have ca2: "fs2 ca_key_path = Some (File b)" "fs2 ca_path = Some (File (xp_pem x ca))"
    using ca(3,4) by simp_all
  have q: "gateway_san ?q = Inr san"
    using san_entries_ok [OF assms(1) generate_success(1) [OF generate] short] by (simp add: gateway_san_Inr gateway_request_def)
  have read: "read_certificate_bundle x ca_path fs2 = Inr [ca]"
    using assms(3) ca2 by (intro read_one_certificate) (simp_all add: pem_ok_def)
  have isca: "require_ca_certificate ca = Inr ()" by (simp add: require_ca_Inr ca(1) ca_certificate_def)
  have unlock: "unlock_key x b password = Inr (ir_key rd0)"
    using assms(2) ca(2) create(3) by (simp add: unlock_Inr tools_agree_def)
  have pub: "ce_public ca = pk_public (ir_key rd0)" by (simp add: ca(1) ca_certificate_def)
  have load: "xp_csr x (ct_csr_pem ct ?q) = Some ?q" using assms(2) by (simp add: tools_agree_def)
  have files: "require_existing_file fs2 csr_path = Inr ()" "require_existing_file fs2 ca_path = Inr ()"
    "require_existing_file fs2 ca_key_path = Inr ()" "require_output_available fs2 out False = Inr ()"
    using csr ca2 free(1) by (simp_all add: require_existing_file_def is_file_def)
  have bytes: "read_bytes fs2 csr_path = ct_csr_pem ct ?q" "read_bytes fs2 ca_key_path = b"
    using csr ca2 by (simp_all add: read_bytes_def)
  let ?e = "min (ir_now rd + days valid_days) (ce_not_after ca)"
  let ?c = "gateway_certificate rd ?q san ca (ir_key rd0) ?e"
  let ?fs = "snd (mkdirs (parent out) fs2)"
  have valid: "cq_valid ?q" "cq_p256 ?q" using assms(4) by (simp_all add: gateway_request_def)
  have e: "\<not> ?e \<le> ir_now rd" using time by (simp add: days_def)
  have dirs: "?fs out = None" "?fs (parent out) = Some Dir"
    using mkdirs_get [OF free(3)] above_parent [of out out] free(1,2) by (cases out; auto simp: is_above_def)+
  have s: "sign_gateway_csr x rd req cas cak password outs valid_days False fs2 = (Inr (out, ?c), ?fs(out \<mapsto> File (xp_pem x ?c)))"
    unfolding sign_gateway_csr_def Let_def paths
    using assms(5) time(1,2)
    by (simp add: bind_checked valid files bytes load q read isca unlock pub refuse_if_def e bind_mkdirs free(3))
      (simp add: bind_io_def write_bytes_def dirs return_io_def)
  have "unchanged {out} fs2 (?fs(out \<mapsto> File (xp_pem x ?c)))"
    using sign_writes [of x outs rd req cas cak password valid_days False] s paths unfolding writes_only_def by (metis snd_conv)
  with s pub show ?thesis by (auto simp: gateway_certificate_def gateway_request_def)
qed

definition demo_tools :: csr_tools where
  \<comment> \<open>the text of a request is its subject; any address text stands for itself\<close>
  "demo_tools = \<lparr>ct_dns_ok = (\<lambda>_. True), ct_address = Some, ct_name = Some, ct_csr_pem = cq_subject, ct_key_pem = pk_public\<rparr>"

definition demo_owner_key :: private_key where
  "demo_owner_key = \<lparr>pk_public = ''K'', pk_p256 = True\<rparr>"

definition demo_names :: "general_name list" where
  "demo_names = [DNSName ''gw.local'', IPAddress ''10.0.0.2'']"

definition demo_chain :: x509 where
  "demo_chain = demo_issuer\<lparr>xp_name := (\<lambda>_. Some ''A''), xp_csr := (\<lambda>b. Some (gateway_request demo_owner_key b demo_names))\<rparr>"

definition demo_root_readings :: issue_readings where
  "demo_root_readings = \<lparr>ir_now = 0, ir_key = \<lparr>pk_public = ''A'', pk_p256 = True\<rparr>, ir_serial = 1\<rparr>"

definition demo_etc :: files where
  "demo_etc = [[] \<mapsto> Dir, [''etc''] \<mapsto> Dir]"

lemma mkdirs_etc:
  assumes "fs [] = Some Dir" "fs [d] = Some Dir"
  shows "mkdirs [d] fs = (Inr (), fs)" "\<not> blocked fs [d]"
proof -
  show nb: "\<not> blocked fs [d]" using assms by (simp add: blocked_def is_file_def)
  have "(if is_above q [d] then Some Dir else fs q) = fs q" for q
    using assms by (cases q) (auto simp: is_above_def)
  with nb show "mkdirs [d] fs = (Inr (), fs)" by (simp add: mkdirs_def)
qed

lemma demo_create:
  "create_project_ca demo_chain demo_root_readings [''etc'', ''a.crt''] [''etc'', ''a.key''] [65] 3650 ''pw'' False demo_etc
   = (Inr (demo_ca ''A''), demo_etc([''etc'', ''a.crt''] \<mapsto> File (demo_pem ''A''), [''etc'', ''a.key''] \<mapsto> File ''A''))"
proof -
  have x: "xp_name demo_chain t = Some ''A''" "xp_pem demo_chain (demo_ca ''A'') = demo_pem ''A''" "xp_key_pem demo_chain k ''pw'' = Some (pk_public k)" for t k
    by (simp_all add: demo_chain_def demo_issuer_def demo_x509_def demo_ca_def ca_certificate_def)
  have c: "ca_certificate demo_root_readings ''A'' 3650 = demo_ca ''A''" "pk_public (ir_key demo_root_readings) = ''A''"
    by (simp_all add: demo_root_readings_def demo_ca_def)
  have e: "demo_etc [] = Some Dir" "demo_etc [''etc''] = Some Dir" "demo_etc [''etc'', ''a.crt''] = None" "demo_etc [''etc'', ''a.key''] = None"
    by (simp_all add: demo_etc_def)
  have p: "parent [''etc'', n] = [''etc'']" for n by (simp add: parent_def)
  show ?thesis
    by (simp add: create_project_ca_def bind_io_def checked_def refuse_if_def return_io_def write_bytes_def Let_def p x c e mkdirs_etc)
qed

lemma demo_generate:
  assumes "fs [] = Some Dir" "fs [''etc''] = Some Dir" "fs [''etc'', ''gw.key''] = None" "fs [''etc'', ''gw.csr''] = None"
  shows "generate_gateway_csr demo_tools demo_owner_key [''gw.local'', ''gw.local''] [''10.0.0.2''] [''etc'', ''gw.key''] [''etc'', ''gw.csr''] False fs
   = (Inr (), fs([''etc'', ''gw.key''] \<mapsto> File ''K'', [''etc'', ''gw.csr''] \<mapsto> File ''gw.local''))"
  using assms
  by (simp add: generate_gateway_csr_def bind_checked refuse_if_def parent_def first_occurrences_def san_entries_def
      existing_path_guard_def demo_tools_def)
    (simp add: bind_io_def mkdirs_etc checked_def return_io_def write_bytes_def parent_def demo_owner_key_def gateway_request_def)

theorem issuance_works_witness:
  "\<exists>fs1 fs2 fs3 c. create_project_ca demo_chain demo_root_readings [''etc'', ''a.crt''] [''etc'', ''a.key''] [65] 3650 ''pw'' False demo_etc = (Inr (demo_ca ''A''), fs1)
    \<and> generate_gateway_csr demo_tools demo_owner_key [''gw.local'', ''gw.local''] [''10.0.0.2''] [''etc'', ''gw.key''] [''etc'', ''gw.csr''] False fs1 = (Inr (), fs2)
    \<and> sign_gateway_csr demo_chain demo_readings ''gw.csr'' ''a.crt'' ''a.key'' ''pw'' ''gw.crt'' 397 False fs2 = (Inr ([''etc'', ''gw.crt''], c), fs3)
    \<and> ce_sans c = Some demo_names"
proof -
  let ?fs1 = "demo_etc([''etc'', ''a.crt''] \<mapsto> File (demo_pem ''A''), [''etc'', ''a.key''] \<mapsto> File ''A'')"
  let ?fs2 = "?fs1([''etc'', ''gw.key''] \<mapsto> File ''K'', [''etc'', ''gw.csr''] \<mapsto> File ''gw.local'')"
  have g: "generate_gateway_csr demo_tools demo_owner_key [''gw.local'', ''gw.local''] [''10.0.0.2''] [''etc'', ''gw.key''] [''etc'', ''gw.csr''] False ?fs1 = (Inr (), ?fs2)"
    by (rule demo_generate) (simp_all add: demo_etc_def)
  have san: "san_entries demo_tools (first_occurrences [''gw.local'', ''gw.local'']) (first_occurrences [''10.0.0.2'']) = Inr demo_names"
    by (simp add: first_occurrences_def san_entries_def demo_tools_def demo_names_def)
  have agree: "tools_agree demo_chain demo_tools demo_owner_key (ir_key demo_root_readings) demo_names"
    by (simp add: tools_agree_def demo_chain_def demo_issuer_def demo_x509_def demo_tools_def demo_root_readings_def gateway_request_def)
  have pem: "pem_ok demo_chain {demo_ca ''A''}"
    by (simp add: pem_ok_def demo_chain_def demo_pem_text demo_load)
  have nb: "\<not> blocked ?fs2 (parent [''etc'', ''gw.crt''])"
    using mkdirs_etc(2) [of ?fs2] by (simp add: parent_def demo_etc_def)
  have "\<exists>c fs3. sign_gateway_csr demo_chain demo_readings ''gw.csr'' ''a.crt'' ''a.key'' ''pw'' ''gw.crt'' 397 False ?fs2 = (Inr ([''etc'', ''gw.crt''], c), fs3)
    \<and> ce_public c = pk_public demo_owner_key \<and> ce_signed_by c = ce_public (demo_ca ''A'')
    \<and> ce_sans c = Some demo_names \<and> fs3 [''etc'', ''gw.crt''] = Some (File (xp_pem demo_chain c)) \<and> unchanged {[''etc'', ''gw.crt'']} ?fs2 fs3"
    by (rule issuance_works [OF san agree pem _ _ demo_create _ _ g _ _ _ _ _ _ _ nb])
      (simp_all add: demo_owner_key_def demo_root_readings_def first_occurrences_def demo_chain_def demo_issuer_def demo_x509_def
        demo_etc_def demo_readings_def demo_ca_def ca_certificate_def whole_seconds_def days_def)
  with g demo_create show ?thesis by blast
qed

end
