(* ===== verification/QrCode.thy ===== *)
theory QrCode
  imports Routes Signing
begin

text \<open>
  \<open>QRgeneration/generate_device_qr.py\<close>: the program that asks the gateway to certify a device
  and packs declaration and certificate into a QR code. Arguments are a record; the HTTP
  exchange, the ASCII JSON writer and the drawing of the symbol are arguments of the
  operations. The capability list, which the program splits and strips, is a code-point
  list like the device name.
\<close>

section \<open>The arguments\<close>

datatype qr_error = BadValue string | Uncaught py_exc

record qr_arguments =
  qa_device_id :: string
  qa_device_name :: pytext
  qa_device_type :: string
  qa_category_id :: string
  qa_capabilities :: pytext
  qa_gateway_proof :: "string option"
  qa_admin_url :: string
  qa_admin_token :: "string option"
  qa_output :: "path option"
  qa_uri_wrapper :: bool
  qa_payload_output :: "path option"

definition MAX_QR_PAYLOAD_LENGTH :: nat where "MAX_QR_PAYLOAD_LENGTH = 8192"

definition qr_identifier :: "string \<Rightarrow> qr_error + string" where
  "qr_identifier value = (if \<not> identifier_pattern value then Inl (BadValue ''identifier'') else Inr value)"

definition qr_device_id :: "string \<Rightarrow> qr_error + string" where
  "qr_device_id value = (if \<not> device_id_pattern value then Inl (BadValue ''device-id'') else Inr value)"

definition qr_device_name :: "pytext \<Rightarrow> qr_error + pytext" where
  "qr_device_name value = (if \<not> device_name_pattern value \<or> strip value = [] then Inl (BadValue ''device-name'') else Inr value)"

fun split_commas :: "pytext \<Rightarrow> pytext list" where
  \<comment> \<open>\<open>value.split(",")\<close>\<close>
  "split_commas [] = [[]]"
| "split_commas (n # ns) = (if n = 44 then [] # split_commas ns
     else (case split_commas ns of [] \<Rightarrow> [[n]] | w # ws \<Rightarrow> (n # w) # ws))"

definition identifier_text :: "pytext \<Rightarrow> bool" where
  \<comment> \<open>the pattern has ASCII characters only\<close>
  "identifier_text t \<longleftrightarrow> list_all (\<lambda>n. n < 128) t \<and> identifier_pattern (map char_of t)"

definition listed_items :: "pytext \<Rightarrow> pytext list" where
  "listed_items value = filter (\<lambda>item. item \<noteq> []) (map strip (split_commas value))"

definition qr_capabilities :: "pytext \<Rightarrow> qr_error + string list" where
  "qr_capabilities value =
     (let values = listed_items value in
      if \<not> (1 \<le> length values \<and> length values \<le> 32) then Inl (BadValue ''between 1 and 32 identifiers'')
      else if length values \<noteq> length (remdups values) then Inl (BadValue ''duplicates'')
      else if \<not> list_all identifier_text values then Inl (BadValue ''capability'')
      else Inr (map (map char_of) values))"

definition qr_compact_jws :: "string \<Rightarrow> qr_error + string" where
  "qr_compact_jws value = (if 4096 < length value \<or> \<not> compact_jws_pattern value then Inl (BadValue ''gateway-proof'') else Inr value)"

definition bind_qr :: "qr_error + 'a \<Rightarrow> ('a \<Rightarrow> qr_error + 'b) \<Rightarrow> qr_error + 'b" where
  "bind_qr m k = (case m of Inl x \<Rightarrow> Inl x | Inr y \<Rightarrow> k y)"

definition qr_identity :: "qr_arguments \<Rightarrow> qr_error + identity" where
  \<comment> \<open>the checked fields of the declaration, in the order of the dictionary\<close>
  "qr_identity ar =
     bind_qr (qr_device_id (qa_device_id ar)) (\<lambda>i.
     bind_qr (qr_device_name (qa_device_name ar)) (\<lambda>n.
     bind_qr (qr_identifier (qa_device_type ar)) (\<lambda>t.
     bind_qr (qr_identifier (qa_category_id ar)) (\<lambda>c.
     bind_qr (qr_capabilities (qa_capabilities ar)) (\<lambda>caps.
     Inr \<lparr>de_id = i, de_name = n, de_type = t, de_category = c, de_caps = caps\<rparr>)))))"

definition qr_declaration :: "identity \<Rightarrow> payload" where
  "qr_declaration d =
     [(''schema'', PStr ''devcontrol.device-registration''), (''protocolVersion'', PStr ''1.0'')] @ identity_items d"

section \<open>The certificate\<close>

datatype http_reply = Reply string | HttpFailed int | Unreachable | Escaped py_exc

definition admin_url_ok :: "string \<Rightarrow> bool" where
  "admin_url_ok url \<longleftrightarrow> take 17 url = ''http://127.0.0.1:'' \<or> take 17 url = ''http://localhost:'' \<or> take 8 url = ''https://''"

definition reply_proof :: "platform \<Rightarrow> string \<Rightarrow> qr_error + string" where
  "reply_proof pf raw = (case pf_json_loads pf raw of
       Inl x \<Rightarrow> if x = ValueError then Inl (BadValue ''no valid gatewayProof'') else Inl (Uncaught x)
     | Inr (PDict reply) \<Rightarrow> (case dict_get reply ''gatewayProof'' of
           None \<Rightarrow> Inl (BadValue ''no valid gatewayProof'')
         | Some (PStr proof) \<Rightarrow> qr_compact_jws proof
         | Some _ \<Rightarrow> Inl (BadValue ''non-string gatewayProof''))
     | Inr _ \<Rightarrow> Inl (BadValue ''no valid gatewayProof''))"

definition issue_gateway_proof ::
  "platform \<Rightarrow> (string \<Rightarrow> string \<Rightarrow> string \<Rightarrow> http_reply) \<Rightarrow> qr_arguments \<Rightarrow> payload \<Rightarrow> qr_error + string" where
  \<comment> \<open>\<open>post url token body\<close> is the exchange of \<open>urlopen\<close>\<close>
  "issue_gateway_proof pf post ar declaration =
     (case qa_gateway_proof ar of
        Some (x # xs) \<Rightarrow> qr_compact_jws (x # xs)
      | _ \<Rightarrow> (case qa_admin_token ar of
          Some (t # ts) \<Rightarrow>
            if \<not> admin_url_ok (qa_admin_url ar) then Inl (BadValue ''admin-url must be loopback HTTP or HTTPS'')
            else (case post (qa_admin_url ar) (t # ts) (pf_json_dumps pf declaration) of
                HttpFailed status \<Rightarrow> Inl (BadValue ''gateway provisioning failed'')
              | Unreachable \<Rightarrow> Inl (BadValue ''gateway provisioning is unavailable'')
              | Escaped x \<Rightarrow> Inl (Uncaught x)
              | Reply raw \<Rightarrow> reply_proof pf raw)
        | _ \<Rightarrow> Inl (BadValue ''admin-token is required when gateway-proof is not supplied'')))"

section \<open>The symbol\<close>

definition percent_digit :: "nat \<Rightarrow> char" where
  "percent_digit n = (if n < 10 then char_of (48 + n) else char_of (55 + n))"

definition unreserved :: "char \<Rightarrow> bool" where
  "unreserved c \<longleftrightarrow> ascii_letter c \<or> is_digit c \<or> c \<in> set ''_.-~''"

definition quote :: "string \<Rightarrow> string" where
  \<comment> \<open>\<open>urllib.parse.quote(s, safe="")\<close>\<close>
  "quote s = concat (map (\<lambda>c. if unreserved c then [c]
     else [CHR ''%'', percent_digit (of_char c div 16), percent_digit (of_char c mod 16)]) s)"

record qr_tools =
  qt_ascii :: "payload \<Rightarrow> string"
  qt_draw :: "string \<Rightarrow> string option"
  qt_folder :: path

definition qr_manifest :: "identity \<Rightarrow> string \<Rightarrow> payload" where
  "qr_manifest d proof = qr_declaration d @ [(''gatewayProofFormat'', PStr ''jws''), (''gatewayProof'', PStr proof)]"

definition qr_payload :: "qr_tools \<Rightarrow> bool \<Rightarrow> payload \<Rightarrow> string" where
  "qr_payload qt wrapper manifest = (let payload = qt_ascii qt manifest in
     if wrapper then ''devcontrol://register?payload='' @ quote payload else payload)"

definition qr_output :: "qr_tools \<Rightarrow> qr_arguments \<Rightarrow> identity \<Rightarrow> path" where
  "qr_output qt ar d = (case qa_output ar of Some p \<Rightarrow> p
     | None \<Rightarrow> qt_folder qt @ [''deviceQR'', ''device-'' @ de_id d @ ''.png''])"

definition save_text :: "path option \<Rightarrow> string \<Rightarrow> unit io" where
  "save_text p text = (case p of None \<Rightarrow> return_io ()
     | Some p \<Rightarrow> bind_io (mkdirs (parent p)) (\<lambda>_. write_bytes p text))"

definition qr_main ::
  "platform \<Rightarrow> qr_tools \<Rightarrow> (string \<Rightarrow> string \<Rightarrow> string \<Rightarrow> http_reply) \<Rightarrow> qr_arguments \<Rightarrow> files \<Rightarrow> int \<times> files" where
  \<comment> \<open>the exit code, 1 for an exception nobody catches\<close>
  "qr_main pf qt post ar fs =
     (case bind_qr (qr_identity ar) (\<lambda>d. bind_qr (issue_gateway_proof pf post ar (dict_del ''schema'' (qr_declaration d))) (\<lambda>proof. Inr (d, proof))) of
        Inl (BadValue m) \<Rightarrow> (2, fs)
      | Inl (Uncaught x) \<Rightarrow> (1, fs)
      | Inr (d, proof) \<Rightarrow>
          (let payload = qr_payload qt (qa_uri_wrapper ar) (qr_manifest d proof) in
           if MAX_QR_PAYLOAD_LENGTH < length payload then (2, fs)
           else (case bind_io (mkdirs (parent (qr_output qt ar d))) (\<lambda>_.
                      bind_io (checked (\<lambda>_. case qt_draw qt payload of None \<Rightarrow> Inl SigningValueError | Some b \<Rightarrow> Inr b)) (\<lambda>png.
                      bind_io (write_bytes (qr_output qt ar d) png) (\<lambda>_.
                      save_text (qa_payload_output ar) payload))) fs of
                   (Inl x, fs') \<Rightarrow> (1, fs')
                 | (Inr _, fs') \<Rightarrow> (0, fs'))))"

section \<open>The declaration\<close>

lemma bind_qr_Inr: "bind_qr m k = Inr z \<longleftrightarrow> (\<exists>y. m = Inr y \<and> k y = Inr z)"
  by (auto simp: bind_qr_def split: sum.split)

lemma checks_Inr:
  "qr_identifier v = Inr w \<longleftrightarrow> identifier_pattern v \<and> w = v" "qr_device_id v = Inr w \<longleftrightarrow> device_id_pattern v \<and> w = v"
  "qr_device_name t = Inr u \<longleftrightarrow> valid_device_name t \<and> u = t" "qr_compact_jws v = Inr w \<longleftrightarrow> length v \<le> 4096 \<and> compact_jws_pattern v \<and> w = v"
  by (auto simp: qr_identifier_def qr_device_id_def qr_device_name_def valid_device_name_def qr_compact_jws_def)

lemma distinct_length: "length xs = length (remdups xs) \<longleftrightarrow> distinct xs"
  using length_remdups_card_conv [of xs] by (metis card_distinct distinct_card)

lemma char_of_inj: "n < 128 \<Longrightarrow> m < 128 \<Longrightarrow> char_of (n :: nat) = char_of m \<Longrightarrow> n = m"
  using arg_cong [of "char_of n" "char_of m" "of_char :: char \<Rightarrow> nat"] by simp

lemma capabilities_Inr:
  "qr_capabilities value = Inr caps \<longleftrightarrow>
     1 \<le> length (listed_items value) \<and> length (listed_items value) \<le> 32 \<and> distinct (listed_items value)
     \<and> list_all identifier_text (listed_items value) \<and> caps = map (map char_of) (listed_items value)"
  unfolding qr_capabilities_def Let_def distinct_length by auto

lemma capabilities_valid:
  assumes "qr_capabilities value = Inr caps"
  shows "1 \<le> length caps \<and> length caps \<le> 32 \<and> valid_capabilities caps"
proof -
  obtain vs where v: "1 \<le> length vs" "length vs \<le> 32" "distinct vs" "list_all identifier_text vs" "caps = map (map char_of) vs"
    using assms unfolding capabilities_Inr by blast
  have "inj_on (map char_of :: nat list \<Rightarrow> string) (set vs)"
  proof (rule inj_onI)
    fix s t assume st: "s \<in> set vs" "t \<in> set vs" "map char_of s = (map char_of t :: string)"
    then have "list_all (\<lambda>n. n < 128) s" "list_all (\<lambda>n. n < 128) t" using v(4) by (auto simp: list_all_iff identifier_text_def)
    with st(3) show "s = t"
      by (induction s arbitrary: t) (auto simp: Cons_eq_map_conv char_of_inj)
  qed
  with v show ?thesis by (auto simp: valid_capabilities_def distinct_map list_all_iff identifier_text_def)
qed

fun join_commas :: "pytext list \<Rightarrow> pytext" where
  "join_commas [] = []"
| "join_commas [w] = w"
| "join_commas (w # ws) = w @ 44 # join_commas ws"

lemma split_commas_word: "44 \<notin> set w \<Longrightarrow> split_commas w = [w]"
  by (induction w) auto

lemma split_commas_step: "44 \<notin> set w \<Longrightarrow> split_commas (w @ 44 # ns) = w # split_commas ns"
  by (induction w) auto

lemma split_join: "ws \<noteq> [] \<Longrightarrow> \<forall>w \<in> set ws. 44 \<notin> set w \<Longrightarrow> split_commas (join_commas ws) = ws"
  by (induction ws rule: join_commas.induct) (simp_all add: split_commas_word split_commas_step)

lemma identifier_codes:
  assumes "identifier_pattern s"
  shows "s \<noteq> []" "\<forall>n \<in> set (map of_char s). n < 128 \<and> n \<noteq> 44 \<and> \<not> whitespace n"
proof -
  show "s \<noteq> []" using assms by (auto simp: identifier_pattern_def)
  have "ascii_letter c \<or> is_digit c \<or> c \<in> set ''._-''" if "c \<in> set s" for c
    using assms that by (cases s) (auto simp: identifier_pattern_def list_all_iff)
  moreover have "(of_char c :: nat) < 128 \<and> of_char c \<noteq> (44 :: nat) \<and> \<not> whitespace (of_char c)" if "ascii_letter c \<or> is_digit c \<or> c \<in> set ''._-''" for c
    using that by (auto simp: ascii_letter_def is_digit_def whitespace_def Let_def)
  ultimately show "\<forall>n \<in> set (map of_char s). n < 128 \<and> n \<noteq> 44 \<and> \<not> whitespace n" by simp
qed

lemma strip_plain: "\<forall>n \<in> set t. \<not> whitespace n \<Longrightarrow> strip t = t"
proof -
  assume p: "\<forall>n \<in> set t. \<not> whitespace n"
  have d: "dropWhile whitespace u = u" if "set u = set t" for u
    using p that by (cases u) auto
  show ?thesis by (simp add: strip_def d)
qed

lemma char_of_chars [simp]: "map char_of (map of_char s :: nat list) = s"
  by (simp add: comp_def)

lemma capabilities_joined:
  assumes "1 \<le> length caps" "length caps \<le> 32" "valid_capabilities caps"
  shows "qr_capabilities (join_commas (map (map of_char) caps)) = Inr caps"
proof -
  let ?ws = "map (map of_char) caps :: pytext list"
  have id: "identifier_pattern c" if "c \<in> set caps" for c
    using assms(3) that by (simp add: valid_capabilities_def list_all_iff)
  have "split_commas (join_commas ?ws) = ?ws"
    using assms(1) identifier_codes(2) [OF id] by (intro split_join) (auto, fastforce)
  moreover have "map strip ?ws = ?ws"
    using identifier_codes(2) [OF id] by (auto simp: strip_plain)
  moreover have "filter (\<lambda>item. item \<noteq> []) ?ws = ?ws"
    using identifier_codes(1) [OF id] by (auto simp: filter_id_conv)
  ultimately have items: "listed_items (join_commas ?ws) = ?ws" unfolding listed_items_def by metis
  have "distinct ?ws"
  proof -
    have "inj_on (map of_char :: string \<Rightarrow> nat list) (set caps)" by (intro inj_onI) (metis char_of_chars)
    then show ?thesis using assms(3) by (simp add: valid_capabilities_def distinct_map)
  qed
  moreover have "list_all identifier_text ?ws"
    using identifier_codes(2) [OF id] id by (auto simp: list_all_iff identifier_text_def)
  ultimately show ?thesis using assms(1,2) by (simp add: capabilities_Inr items comp_def)
qed

lemma identity_valid: "qr_identity ar = Inr d \<Longrightarrow> valid_declaration d"
  by (auto simp: qr_identity_def bind_qr_Inr checks_Inr valid_declaration_def dest: capabilities_valid)

definition arguments_for :: "identity \<Rightarrow> qr_arguments \<Rightarrow> qr_arguments" where
  \<comment> \<open>the command line that declares \<open>d\<close>\<close>
  "arguments_for d ar = ar\<lparr>qa_device_id := de_id d, qa_device_name := de_name d, qa_device_type := de_type d,
     qa_category_id := de_category d, qa_capabilities := join_commas (map (map of_char) (de_caps d))\<rparr>"

text \<open>C28: the generator and the gateway agree on what a device may be called. The generator's
own checks of the identifiers, the display name and the comma-separated capability list let
through exactly the declarations the gateway's request models accept: what passes them is
valid for the gateway, and every valid declaration can be written on the command line and
comes out of the checks unchanged.\<close>

theorem qr_agrees_with_gateway:
  "(\<forall>ar d. qr_identity ar = Inr d \<longrightarrow> valid_declaration d)
    \<and> (\<forall>ar d. valid_declaration d \<longrightarrow> qr_identity (arguments_for d ar) = Inr d)"
proof (intro conjI allI impI)
  fix ar d assume "valid_declaration (d :: identity)"
  then show "qr_identity (arguments_for d ar) = Inr d"
    by (simp add: qr_identity_def bind_qr_def checks_Inr arguments_for_def valid_declaration_def capabilities_joined
        qr_identifier_def qr_device_id_def qr_device_name_def valid_device_name_def)
qed (rule identity_valid)

definition demo_arguments :: qr_arguments where
  "demo_arguments = \<lparr>qa_device_id = ''curtain-1'', qa_device_name = [31383, 24088], qa_device_type = ''curtain'',
     qa_category_id = ''curtains'', qa_capabilities = map of_char ''setPosition, stop,'', qa_gateway_proof = None,
     qa_admin_url = ''http://127.0.0.1:18444/admin/v1/devices/provision'', qa_admin_token = Some ''t'', qa_output = None,
     qa_uri_wrapper = True, qa_payload_output = None\<rparr>"

definition demo_curtain :: identity where
  "demo_curtain = \<lparr>de_id = ''curtain-1'', de_name = [31383, 24088], de_type = ''curtain'', de_category = ''curtains'',
     de_caps = [''setPosition'', ''stop'']\<rparr>"

lemma demo_identity: "qr_identity demo_arguments = Inr demo_curtain"
  by (simp add: qr_identity_def demo_arguments_def demo_curtain_def bind_qr_def qr_device_id_def qr_device_name_def qr_identifier_def
      qr_capabilities_def listed_items_def device_id_pattern_def identifier_pattern_def device_name_pattern_def identifier_text_def
      ascii_letter_def is_digit_def strip_def whitespace_def) code_simp

theorem qr_agrees_with_gateway_witness:
  "qr_identity demo_arguments = Inr demo_curtain \<and> valid_declaration demo_curtain
    \<and> qr_identity (arguments_for demo_curtain demo_arguments) = Inr demo_curtain"
  using qr_agrees_with_gateway demo_identity by blast

section \<open>The wrapped payload\<close>

definition percent_value :: "char \<Rightarrow> nat" where
  "percent_value c = (let n = of_char c in if n < 58 then n - 48 else n - 55)"

fun unquote :: "string \<Rightarrow> string" where
  \<comment> \<open>what the reader of a URI does\<close>
  "unquote (c # a # b # s) = (if c = CHR ''%'' then char_of (16 * percent_value a + percent_value b) # unquote s else c # unquote (a # b # s))"
| "unquote s = s"

lemma hex_round: "n < 16 \<Longrightarrow> percent_value (percent_digit n) = n"
  by (auto simp: percent_value_def percent_digit_def Let_def)

lemma unquote_plain: "c \<noteq> CHR ''%'' \<Longrightarrow> unquote (c # s) = c # unquote s"
  by (cases s; cases "tl s") auto

lemma unquote_quote: "unquote (quote s) = s"
proof (induction s)
  case (Cons c s)
  have n: "(of_char c :: nat) < 256" by simp
  then have h: "of_char c div 16 < (16 :: nat)" by (simp add: less_mult_imp_div_less)
  show ?case
  proof (cases "unreserved c")
    case True
    then have "c \<noteq> CHR ''%''" by (auto simp: unreserved_def ascii_letter_def is_digit_def)
    with True Cons show ?thesis by (simp add: quote_def unquote_plain)
  next
    case False
    with Cons show ?thesis using hex_round [OF h] hex_round [of "of_char c mod 16"] by (simp add: quote_def)
  qed
qed (simp add: quote_def)

section \<open>From the declaration to the registration\<close>

lemma split_on_join: "split_on c s = ws \<Longrightarrow> length s + 1 = sum_list (map length ws) + length ws"
  by (induction s arbitrary: ws) (fastforce split: list.splits)+

lemma compact_jws_length: "compact_jws_pattern s \<Longrightarrow> 25 \<le> length s"
proof -
  assume p: "compact_jws_pattern s"
  then obtain a b c where abc: "split_on (CHR ''.'') s = [a, b, c]"
    by (auto simp: compact_jws_pattern_def length_Suc_conv numeral_3_eq_3)
  with p have "8 \<le> length a" "8 \<le> length b" "8 \<le> length c" by (auto simp: compact_jws_pattern_def segment_ok_def)
  with split_on_join [OF abc] show ?thesis by simp
qed

definition gateway_answers ::
  "platform \<Rightarrow> (nat \<Rightarrow> bool) \<Rightarrow> clock_readings \<Rightarrow> service \<Rightarrow> string \<Rightarrow> (string \<Rightarrow> string \<Rightarrow> string \<Rightarrow> http_reply) \<Rightarrow> qr_arguments \<Rightarrow> identity \<Rightarrow> bool" where
  \<comment> \<open>the provisioning endpoint at the URL is the route of the gateway: it gets the declaration
     \<open>d\<close> from the posted body, and its answer, written and read back as JSON, is that of the route\<close>
  "gateway_answers pf isdigit cl sv token post ar d \<longleftrightarrow>
     (\<exists>raw. post (qa_admin_url ar) token (pf_json_dumps pf (dict_del ''schema'' (qr_declaration d))) = Reply raw
        \<and> (\<forall>p sv'. admin_api pf isdigit token cl (ProvisionDevice d) (Some token) sv = (Inr (ProofReply p), sv') \<longrightarrow>
             pf_json_loads pf raw = Inr (PDict [(''gatewayProofFormat'', PStr ''jws''), (''gatewayProof'', PStr p)])))"

lemma answered_proof:
  assumes "gateway_answers pf isdigit cl sv token post ar d" "qa_gateway_proof ar = None" "qa_admin_token ar = Some token"
    and "issue_gateway_proof pf post ar (dict_del ''schema'' (qr_declaration d)) = Inr proof"
  shows "proof = issue pf d \<and> length proof \<le> 4096 \<and> compact_jws_pattern proof"
proof -
  have "admin_api pf isdigit token cl (ProvisionDevice d) (Some token) sv = (Inr (ProofReply (issue pf d)), sv)"
    by (simp add: admin_api_def require_admin_def)
  with assms(1) obtain raw where r: "post (qa_admin_url ar) token (pf_json_dumps pf (dict_del ''schema'' (qr_declaration d))) = Reply raw"
    "pf_json_loads pf raw = Inr (PDict [(''gatewayProofFormat'', PStr ''jws''), (''gatewayProof'', PStr (issue pf d))])"
    by (auto simp: gateway_answers_def)
  have "qr_compact_jws (issue pf d) = Inr proof"
    using assms(2-4) r by (cases token) (auto simp: issue_gateway_proof_def reply_proof_def split: if_split_asm)
  then show ?thesis by (auto simp: checks_Inr)
qed

lemma save_text_keeps: "save_text q text fs = (Inr u, fs') \<Longrightarrow> fs p = Some (File b) \<Longrightarrow> q \<noteq> Some p \<Longrightarrow> fs' p = Some (File b)"
proof -
  assume s: "save_text q text fs = (Inr u, fs')" and p: "fs p = Some (File b)" and q: "q \<noteq> Some p"
  have "unchanged (set_option q) fs (snd (save_text q text fs))"
  proof -
    have "writes_only (set_option q) (save_text q text)"
      by (cases q) (auto simp: save_text_def intro!: writes_intros)
    then show ?thesis by (simp add: writes_only_def)
  qed
  then have "fs' p = fs p \<or> fs p = None" using s q by (auto simp: unchanged_def)
  with p show ?thesis by simp
qed

lemma qr_main_success:
  assumes "qr_main pf qt post ar fs = (0, fs')"
  obtains d jws png where "qr_identity ar = Inr d"
    "issue_gateway_proof pf post ar (dict_del ''schema'' (qr_declaration d)) = Inr jws"
    "length (qr_payload qt (qa_uri_wrapper ar) (qr_manifest d jws)) \<le> 8192"
    "qt_draw qt (qr_payload qt (qa_uri_wrapper ar) (qr_manifest d jws)) = Some png"
    "qa_payload_output ar \<noteq> Some (qr_output qt ar d) \<Longrightarrow> fs' (qr_output qt ar d) = Some (File png)"
proof -
  from assms obtain d jws where d: "qr_identity ar = Inr d"
    "issue_gateway_proof pf post ar (dict_del ''schema'' (qr_declaration d)) = Inr jws"
    by (auto simp: qr_main_def bind_qr_def split: sum.split_asm qr_error.split_asm)
  let ?payload = "qr_payload qt (qa_uri_wrapper ar) (qr_manifest d jws)"
  let ?out = "qr_output qt ar d"
  from assms d have short: "length ?payload \<le> 8192"
    by (auto simp: qr_main_def bind_qr_def Let_def MAX_QR_PAYLOAD_LENGTH_def split: if_split_asm)
  with assms d obtain u where run: "bind_io (mkdirs (parent ?out)) (\<lambda>_.
       bind_io (checked (\<lambda>_. case qt_draw qt ?payload of None \<Rightarrow> Inl SigningValueError | Some b \<Rightarrow> Inr b)) (\<lambda>png.
       bind_io (write_bytes ?out png) (\<lambda>_. save_text (qa_payload_output ar) ?payload))) fs = (Inr u, fs')"
    by (auto simp: qr_main_def bind_qr_def Let_def MAX_QR_PAYLOAD_LENGTH_def split: prod.split_asm sum.split_asm)
  then obtain png fs1 where png: "qt_draw qt ?payload = Some png"
    and s: "save_text (qa_payload_output ar) ?payload (fs1(?out \<mapsto> File png)) = (Inr u, fs')"
    unfolding bind_Inr checked_Inr sum_of_option_Inr write_Inr by blast
  have w: "(fs1(?out \<mapsto> File png)) ?out = Some (File png)" by simp
  show ?thesis by (rule that [OF d short png]) (rule save_text_keeps [OF s w])
qed


definition demo_signer :: platform where
  \<comment> \<open>three known texts; every signature is a pair of zeros and verifies\<close>
  "demo_signer = demo_platform\<lparr>pf_json_loads := (\<lambda>b. if b = ''HHHHHH'' then Inr (PDict jws_header)
        else if b = ''CCCCCC'' then Inr (PDict (claims_of demo_curtain))
        else if b = ''RRRRRR'' then Inr (PDict [(''gatewayProofFormat'', PStr ''jws''),
          (''gatewayProof'', PStr (''SEhISEhI.Q0NDQ0ND.'' @ base64url_encode (replicate 64 (CHR 0x00))))]) else Inl ValueError),
     pf_json_dumps := (\<lambda>p. if p = jws_header then ''HHHHHH'' else ''CCCCCC''),
     pf_sign := (\<lambda>x. (0, 0)), pf_verify := (\<lambda>r s x. True)\<rparr>"

definition demo_qr_tools :: qr_tools where
  "demo_qr_tools = \<lparr>qt_ascii = (\<lambda>p. ''{manifest}''), qt_draw = Some, qt_folder = [''qr'']\<rparr>"

definition demo_desk :: files where
  "demo_desk = [[] \<mapsto> Dir, [''qr''] \<mapsto> Dir, [''qr'', ''deviceQR''] \<mapsto> Dir]"

lemma demo_header_differs: "jws_header \<noteq> claims_of d"
  by (simp add: jws_header_def claims_of_def)

lemma demo_signed: "issue demo_signer demo_curtain = ''SEhISEhI.Q0NDQ0ND.'' @ base64url_encode (replicate 64 (CHR 0x00))"
proof -
  have e: "base64url_encode ''HHHHHH'' = ''SEhISEhI''" "base64url_encode ''CCCCCC'' = ''Q0NDQ0ND''" by code_simp+
  have z: "to_bytes_big k 0 = replicate k (CHR 0x00)" for k
  proof (induction k)
    case (Suc k)
    have "char_of (0 :: nat) = CHR 0x00" by code_simp
    with Suc show ?case by (simp add: replicate_append_same)
  qed simp
  have r: "replicate 32 (CHR 0x00) @ replicate 32 (CHR 0x00) = replicate 64 (CHR 0x00)"
    by (simp flip: replicate_add)
  show ?thesis
    unfolding issue_def Let_def by (simp add: demo_signer_def demo_header_differs [symmetric] e z r)
qed


end
